theory Spec2Isabelle
  imports Complex_Main "HOL-Library.Char_ord" "HOL-Library.List_Lexorder" "HOL-Library.AList"
begin

section \<open>Cell values and strings\<close>

text \<open>
  A record produced by the parsers (\<^verbatim>\<open>csv-parser\<close>, and \<^verbatim>\<open>sheet_to_json\<close> with
  \<^verbatim>\<open>raw: false, defval: ''\<close>) maps column names to text; a missing property reads as
  \<^verbatim>\<open>undefined\<close>. Cells are therefore \<^verbatim>\<open>null\<close>, \<^verbatim>\<open>undefined\<close> or a string. Native
  JavaScript numbers (raw spreadsheet cells of the HTTP path) are not part of this model.
  Strings are lists of 8-bit characters; every character class below is the restriction
  of the JavaScript class to code units below 256.
\<close>

datatype jsval = JNull | JUndefined | JStr string

text \<open>
  The result of \<^verbatim>\<open>parseFloat\<close>: not-a-number, an infinity, or a finite value. The finite
  value is the exact decimal value of the text; rounding to binary64 and exponent overflow
  are not modelled.
\<close>

datatype jsnum = NaN | Finite rat | PosInfinity | NegInfinity

definition isNaN :: "jsnum \<Rightarrow> bool" where
  "isNaN n = (n = NaN)"

definition is_space :: "char \<Rightarrow> bool" where
  "is_space c = (let n = (of_char c :: nat) in (9 \<le> n \<and> n \<le> 13) \<or> n = 32 \<or> n = 160)"

definition is_digit :: "char \<Rightarrow> bool" where
  "is_digit c = (let n = (of_char c :: nat) in 48 \<le> n \<and> n \<le> 57)"

definition is_alpha :: "char \<Rightarrow> bool" where
  "is_alpha c = (let n = (of_char c :: nat) in (65 \<le> n \<and> n \<le> 90) \<or> (97 \<le> n \<and> n \<le> 122))"

definition toLowerChar :: "char \<Rightarrow> char" where
  "toLowerChar c =
     (case map_of (zip ''ABCDEFGHIJKLMNOPQRSTUVWXYZ'' ''abcdefghijklmnopqrstuvwxyz'') c of
        Some l \<Rightarrow> l
      | None \<Rightarrow> c)"

definition toLowerCase :: "string \<Rightarrow> string" where
  "toLowerCase s = map toLowerChar s"

definition trim :: "string \<Rightarrow> string" where
  "trim s = rev (dropWhile is_space (rev (dropWhile is_space s)))"

text \<open>\<^verbatim>\<open>s.lastIndexOf(c)\<close>: the last position of \<open>c\<close>, or \<open>-1\<close>.\<close>

fun lastIndexFrom :: "nat \<Rightarrow> char \<Rightarrow> string \<Rightarrow> int \<Rightarrow> int" where
  "lastIndexFrom i c [] found = found"
| "lastIndexFrom i c (x # xs) found = lastIndexFrom (Suc i) c xs (if x = c then int i else found)"

definition lastIndexOf :: "string \<Rightarrow> char \<Rightarrow> int" where
  "lastIndexOf s c = lastIndexFrom 0 c s (- 1)"

text \<open>\<^verbatim>\<open>s.replace(a, b)\<close> with a string pattern replaces the first occurrence only.\<close>

fun replaceFirst :: "char \<Rightarrow> char \<Rightarrow> string \<Rightarrow> string" where
  "replaceFirst a b [] = []"
| "replaceFirst a b (x # xs) = (if x = a then b # xs else x # replaceFirst a b xs)"

text \<open>\<^verbatim>\<open>s.includes(sub)\<close>.\<close>

fun str_includes :: "string \<Rightarrow> string \<Rightarrow> bool" where
  "str_includes [] sub = (sub = [])"
| "str_includes (c # cs) sub = (take (length sub) (c # cs) = sub \<or> str_includes cs sub)"

section \<open>Value coercion (tableManager.js)\<close>

subsection \<open>parseFloat\<close>

definition digitsValue :: "string \<Rightarrow> nat" where
  "digitsValue ds = foldl (\<lambda>a c. 10 * a + (of_char c - 48)) 0 ds"

text \<open>
  The exponent part at the head of the text, if there is a complete one: \<^verbatim>\<open>e\<close> or
  \<^verbatim>\<open>E\<close>, an optional sign and at least one digit. Without one the exponent is 0.
\<close>

definition exponentPart :: "string \<Rightarrow> int" where
  "exponentPart s =
     (case s of
        [] \<Rightarrow> 0
      | c # r \<Rightarrow>
          if c = CHR ''e'' \<or> c = CHR ''E'' then
            (case r of
               [] \<Rightarrow> 0
             | d # r' \<Rightarrow>
                 if d = CHR ''-'' then
                   (if takeWhile is_digit r' = [] then 0 else - int (digitsValue (takeWhile is_digit r')))
                 else if d = CHR ''+'' then int (digitsValue (takeWhile is_digit r'))
                 else int (digitsValue (takeWhile is_digit r)))
          else 0)"

definition scale10 :: "rat \<Rightarrow> int \<Rightarrow> rat" where
  "scale10 m e = (if 0 \<le> e then m * 10 ^ nat e else m / 10 ^ nat (- e))"

text \<open>
  \<^verbatim>\<open>parseFloat\<close>: skip leading white space, then read the longest prefix that is a
  decimal literal (sign, \<^verbatim>\<open>Infinity\<close> or digits with an optional fraction and exponent);
  no such prefix gives \<^verbatim>\<open>NaN\<close>.
\<close>

definition parseFloat :: "string \<Rightarrow> jsnum" where
  "parseFloat s =
     (let t = dropWhile is_space s;
          neg = (case t of [] \<Rightarrow> False | c # _ \<Rightarrow> c = CHR ''-'');
          u = (case t of [] \<Rightarrow> [] | c # r \<Rightarrow> if c = CHR ''-'' \<or> c = CHR ''+'' then r else t)
      in if take 8 u = ''Infinity'' then (if neg then NegInfinity else PosInfinity)
         else
           let ip = takeWhile is_digit u;
               r1 = dropWhile is_digit u;
               hasDot = (case r1 of [] \<Rightarrow> False | c # _ \<Rightarrow> c = CHR ''.'');
               fp = (if hasDot then takeWhile is_digit (tl r1) else []);
               r2 = (if hasDot then dropWhile is_digit (tl r1) else r1)
           in if ip = [] \<and> fp = [] then NaN
              else
                let m = rat_of_nat (digitsValue (ip @ fp)) / 10 ^ length fp;
                    v = scale10 m (exponentPart r2)
                in Finite (if neg then - v else v))"

subsection \<open>parseNumeric\<close>

text \<open>
  The separator heuristic of \<^verbatim>\<open>parseNumeric\<close>: the separator whose last occurrence is
  later is the decimal mark, the other one is stripped.
\<close>

definition normalizeSeparators :: "string \<Rightarrow> string" where
  "normalizeSeparators strValue =
     (let lastDot = lastIndexOf strValue CHR ''.'';
          lastComma = lastIndexOf strValue CHR '',''
      in if lastDot > lastComma then filter (\<lambda>c. c \<noteq> CHR '','') strValue
         else if lastComma > lastDot then
           replaceFirst CHR '','' CHR ''.'' (filter (\<lambda>c. c \<noteq> CHR ''.'') strValue)
         else filter (\<lambda>c. c \<noteq> CHR '','' \<and> c \<noteq> CHR ''.'') strValue)"

text \<open>\<^verbatim>\<open>parseNumeric(value)\<close>; \<open>None\<close> is the JavaScript \<^verbatim>\<open>null\<close>.\<close>

definition parseNumeric :: "jsval \<Rightarrow> jsnum option" where
  "parseNumeric v =
     (case v of
        JNull \<Rightarrow> None
      | JUndefined \<Rightarrow> None
      | JStr s \<Rightarrow>
          if s = [] then None
          else
            let numValue = parseFloat (normalizeSeparators (trim s))
            in if isNaN numValue then None else Some numValue)"

subsection \<open>parseDate\<close>

definition monthMap :: "string \<Rightarrow> string option" where
  "monthMap = map_of
     [(''jan'', ''01''), (''feb'', ''02''), (''mar'', ''03''), (''apr'', ''04''),
      (''may'', ''05''), (''mei'', ''05''), (''jun'', ''06''), (''jul'', ''07''),
      (''aug'', ''08''), (''agu'', ''08''), (''sep'', ''09''), (''oct'', ''10''),
      (''okt'', ''10''), (''nov'', ''11''), (''dec'', ''12''), (''des'', ''12'')]"

text \<open>
  The pattern \<^verbatim>\<open>/(\d{1,2})\s*([a-z]+)\s*(\d{4})/i\<close> tried at the head of the text. The
  three classes are disjoint, so each greedy group takes all it can: a shorter day,
  blank run or letter run leaves a character the next group rejects.
\<close>

definition matchDateHere :: "string \<Rightarrow> (string \<times> string \<times> string) option" where
  "matchDateHere s =
     (let day = take 2 (takeWhile is_digit s);
          r1 = dropWhile is_space (drop (length day) s);
          mon = takeWhile is_alpha r1;
          r3 = dropWhile is_space (dropWhile is_alpha r1);
          year = take 4 r3
      in if day \<noteq> [] \<and> mon \<noteq> [] \<and> length year = 4 \<and> list_all is_digit year
         then Some (day, mon, year) else None)"

text \<open>The pattern is not anchored: the leftmost position where it matches wins.\<close>

fun matchDate :: "string \<Rightarrow> (string \<times> string \<times> string) option" where
  "matchDate [] = None"
| "matchDate (c # cs) =
     (case matchDateHere (c # cs) of Some m \<Rightarrow> Some m | None \<Rightarrow> matchDate cs)"

definition padStart2 :: "string \<Rightarrow> string" where
  "padStart2 s = (if length s < 2 then replicate (2 - length s) CHR ''0'' @ s else s)"

text \<open>\<^verbatim>\<open>parseDate(value)\<close>; \<open>None\<close> is \<^verbatim>\<open>null\<close>.\<close>

definition parseDate :: "jsval \<Rightarrow> string option" where
  "parseDate v =
     (case v of
        JNull \<Rightarrow> None
      | JUndefined \<Rightarrow> None
      | JStr s \<Rightarrow>
          if s = [] then None
          else
            let strValue = trim s
            in (case matchDate strValue of
                  None \<Rightarrow> Some strValue
                | Some (day, mon, year) \<Rightarrow>
                    (case monthMap (take 3 (toLowerCase mon)) of
                       None \<Rightarrow> Some strValue
                     | Some month \<Rightarrow> Some (year @ ''-'' @ month @ ''-'' @ padStart2 day))))"

text \<open>
  The texts \<^verbatim>\<open>parseDate\<close> rewrites: the pattern matches somewhere in the text and the first
  three letters of the matched word, in lower case, are a key of the month table.
\<close>

definition namedMonthDate :: "string \<Rightarrow> bool" where
  "namedMonthDate s =
     (case matchDate s of
        None \<Rightarrow> False
      | Some (day, mon, year) \<Rightarrow> monthMap (take 3 (toLowerCase mon)) \<noteq> None)"

text \<open>
  The date fix of the HTTP path (server.js, window computation): a text that is exactly
  \<^verbatim>\<open>DD-MM-YYYY\<close> is rewritten to \<^verbatim>\<open>YYYY-MM-DD\<close>, any other text is kept.
\<close>

definition isDayMonthYear :: "string \<Rightarrow> bool" where
  "isDayMonthYear s =
     (length s = 10 \<and> list_all is_digit (take 2 s) \<and> s ! 2 = CHR ''-'' \<and>
      list_all is_digit (take 2 (drop 3 s)) \<and> s ! 5 = CHR ''-'' \<and>
      list_all is_digit (drop 6 s))"

definition fixDateFormat :: "string \<Rightarrow> string" where
  "fixDateFormat dateStr =
     (if isDayMonthYear dateStr
      then drop 6 dateStr @ ''-'' @ take 2 (drop 3 dateStr) @ ''-'' @ take 2 dateStr
      else dateStr)"

section \<open>Records and the schema registry (tableManager.js)\<close>

text \<open>
  A record is a JavaScript object: its own properties in insertion order.
  \<^verbatim>\<open>Object.keys\<close> lists the first components, \<^verbatim>\<open>Object.values\<close> the second ones.
  The parsers create own properties by assignment, so no record has an own property
  \<^verbatim>\<open>__proto__\<close>; names that look like array indices, which JavaScript would list first,
  are not considered.
\<close>

type_synonym jsrow = "(string \<times> jsval) list"

text \<open>
  \<^verbatim>\<open>row.NAME\<close> for the four names the load reads (\<^verbatim>\<open>SALES_DATE\<close>, \<^verbatim>\<open>Tanggal\<close>,
  \<^verbatim>\<open>ORG_CODE_NAME\<close>, \<^verbatim>\<open>Gudang\<close>): a missing property reads as \<^verbatim>\<open>undefined\<close>.
\<close>

definition getProp :: "jsrow \<Rightarrow> string \<Rightarrow> jsval" where
  "getProp row k = (case map_of row k of Some v \<Rightarrow> v | None \<Rightarrow> JUndefined)"

definition truthy :: "jsval \<Rightarrow> bool" where
  "truthy v = (case v of JStr s \<Rightarrow> s \<noteq> [] | _ \<Rightarrow> False)"

text \<open>\<^verbatim>\<open>a || b\<close>.\<close>

definition js_or :: "jsval \<Rightarrow> jsval \<Rightarrow> jsval" where
  "js_or a b = (if truthy a then a else b)"

text \<open>\<^verbatim>\<open>value.toString()\<close> of a truthy cell.\<close>

definition toText :: "jsval \<Rightarrow> string" where
  "toText v = (case v of JStr s \<Rightarrow> s | _ \<Rightarrow> [])"

text \<open>
  The members every plain object inherits from \<^verbatim>\<open>Object.prototype\<close>. Reading one of
  these names from an object that has no own property of that name gives the inherited
  member, not \<^verbatim>\<open>undefined\<close>.
\<close>

definition objectPrototypeNames :: "string list" where
  "objectPrototypeNames =
     [''constructor'', ''__defineGetter__'', ''__defineSetter__'', ''hasOwnProperty'',
      ''__lookupGetter__'', ''__lookupSetter__'', ''isPrototypeOf'', ''propertyIsEnumerable'',
      ''toString'', ''valueOf'', ''__proto__'', ''toLocaleString'']"

text \<open>
  One entry of \<^verbatim>\<open>tableSchemas.json\<close>. The file is not part of the sources, so the
  registry that \<^verbatim>\<open>loadSchemas()\<close> reads is a parameter of every function that
  consults it; an absent optional field is \<open>None\<close>.
\<close>

record tableSchema =
  columns :: "(string \<times> string) list"
  primaryKey :: "string list"
  indexes :: "string list"
  numericColumns :: "string list option"
  dateColumns :: "string list option"
  columnMapping :: "(string \<times> string) list option"

type_synonym schemas = "string \<Rightarrow> tableSchema option"

text \<open>
  One turn of the loop of \<^verbatim>\<open>mapColumns\<close>, once \<^verbatim>\<open>csvRow.hasOwnProperty\<close> is known to be
  the inherited method. Assigning a cell to the name \<^verbatim>\<open>__proto__\<close> creates no property.
\<close>

definition mapEntry :: "jsrow \<Rightarrow> string \<times> string \<Rightarrow> jsrow \<Rightarrow> jsrow" where
  "mapEntry csvRow e mappedRow =
     (case map_of csvRow (fst e) of
        Some v \<Rightarrow> if snd e = ''__proto__'' then mappedRow else AList.update (snd e) v mappedRow
      | None \<Rightarrow> mappedRow)"

text \<open>
  \<^verbatim>\<open>mapColumns(csvRow, tableName)\<close>. The loop calls \<^verbatim>\<open>csvRow.hasOwnProperty(csvCol)\<close> on
  the record itself: a record with an own column named \<^verbatim>\<open>hasOwnProperty\<close> holds a cell
  there, not a function, and the first turn of the loop throws a \<^verbatim>\<open>TypeError\<close>
  (\<open>Inl\<close>).
\<close>

definition mapColumns :: "schemas \<Rightarrow> jsrow \<Rightarrow> string \<Rightarrow> string + jsrow" where
  "mapColumns reg csvRow tableName =
     (case reg tableName of
        None \<Rightarrow> Inr csvRow
      | Some schema \<Rightarrow>
          (case columnMapping schema of
             None \<Rightarrow> Inr csvRow
           | Some mapping \<Rightarrow>
               if mapping \<noteq> [] \<and> map_of csvRow ''hasOwnProperty'' \<noteq> None
               then Inl ''csvRow.hasOwnProperty is not a function''
               else Inr (fold (mapEntry csvRow) mapping [])))"

text \<open>\<^verbatim>\<open>data.map(row => mapColumns(row, tableName))\<close>: the first exception ends it.\<close>

fun mapAll :: "schemas \<Rightarrow> string \<Rightarrow> jsrow list \<Rightarrow> string + jsrow list" where
  "mapAll reg tableName [] = Inr []"
| "mapAll reg tableName (row # rest) =
     (case mapColumns reg row tableName of
        Inl e \<Rightarrow> Inl e
      | Inr m \<Rightarrow>
          (case mapAll reg tableName rest of
             Inl e \<Rightarrow> Inl e
           | Inr ms \<Rightarrow> Inr (m # ms)))"

datatype columnKind = KNumeric | KDate | KString

definition getColumnType :: "schemas \<Rightarrow> string \<Rightarrow> string \<Rightarrow> columnKind" where
  "getColumnType reg tableName columnName =
     (case reg tableName of
        None \<Rightarrow> KString
      | Some schema \<Rightarrow>
          if (case numericColumns schema of Some cs \<Rightarrow> columnName \<in> set cs | None \<Rightarrow> False)
          then KNumeric
          else if (case dateColumns schema of Some cs \<Rightarrow> columnName \<in> set cs | None \<Rightarrow> False)
          then KDate
          else KString)"

section \<open>Destination resolution\<close>

definition detectTableName :: "string \<Rightarrow> jsrow list \<Rightarrow> string" where
  "detectTableName fileName data =
     (let lowerFileName = toLowerCase fileName
      in if str_includes lowerFileName ''accurate'' \<or> str_includes lowerFileName ''invoice''
         then ''SALES_INVOICE_ACCURATE_ONLINE''
         else if str_includes lowerFileName ''snj'' \<or> str_includes lowerFileName ''srp''
         then ''SNJ_SRP_DETAIL''
         else
           (case data of
              [] \<Rightarrow> ''SNJ_SRP_DETAIL''
            | firstRow # _ \<Rightarrow>
                let cols = map fst firstRow
                in if ''No. Faktur'' \<in> set cols \<or> ''Tanggal'' \<in> set cols
                   then ''SALES_INVOICE_ACCURATE_ONLINE''
                   else if ''BILL_NO'' \<in> set cols \<or> ''SALES_DATE'' \<in> set cols
                   then ''SNJ_SRP_DETAIL''
                   else ''SNJ_SRP_DETAIL''))"

definition dateColumnOf :: "string \<Rightarrow> string" where
  "dateColumnOf tableName =
     (if tableName = ''SALES_INVOICE_ACCURATE_ONLINE'' then ''Tanggal'' else ''SALES_DATE'')"

definition storeColumnOf :: "string \<Rightarrow> string" where
  "storeColumnOf tableName =
     (if tableName = ''SALES_INVOICE_ACCURATE_ONLINE'' then ''Gudang'' else ''ORG_CODE_NAME'')"

section \<open>The destination store\<close>

text \<open>
  The database and its driver are external to the repository. The model keeps what the
  load can observe of them: the rows of the destination table, the statements sent
  inside the transaction, and the failures the driver may report. A bound parameter is
  its SQL type tag and value, as passed to \<^verbatim>\<open>request.input\<close>.
\<close>

datatype param = PNull | PText string | PNumeric "jsnum option" | PDate "string option"

type_synonym dbrow = "(string \<times> param) list"

record insertStmt =
  ins_table :: string
  ins_columns :: "string list"
  ins_params :: "param list"

text \<open>An empty store list is the statement without the \<^verbatim>\<open>IN (...)\<close> clause.\<close>

record deleteStmt =
  del_table :: string
  del_dateColumn :: string
  del_minDate :: string
  del_maxDate :: string
  del_storeColumn :: string
  del_stores :: "string list"

datatype sqlStmt = Delete deleteStmt | Insert insertStmt

text \<open>
  What the driver and the store do. Each optional message is a failure of that call;
  \<open>rowError\<close> is the store's verdict on a single-row insert against the rows the
  transaction currently sees (a constraint violation, an unknown column, a type error).
  \<open>readDate\<close> is the date that a text bound as a \<^verbatim>\<open>sql.Date\<close> parameter stands for, as
  a day number, and \<open>castDate\<close> the date the store converts a text held in a date column
  to; \<open>None\<close> when the text is read as no date. Which texts are dates, and which date,
  is the business of the driver and the store.
\<close>

record driver =
  connectError :: "string option"
  provisionError :: "string option"
  metadataError :: "string option"
  beginError :: "string option"
  deleteError :: "string option"
  commitError :: "string option"
  rollbackError :: "string option"
  rowError :: "dbrow list \<Rightarrow> insertStmt \<Rightarrow> string option"
  readDate :: "string \<Rightarrow> int option"
  castDate :: "string \<Rightarrow> int option"

text \<open>
  \<^verbatim>\<open>Number(text)\<close> and \<^verbatim>\<open>num.toFixed(0)\<close> are floating-point built-ins of the
  runtime; they are parameters of the model.
\<close>

record jsRuntime =
  toNumber :: "string \<Rightarrow> jsnum"
  toFixed0 :: "jsnum \<Rightarrow> string"

text \<open>
  The store's reading of \<^verbatim>\<open>[dateColumn] BETWEEN @minDate AND @maxDate\<close> and of
  \<^verbatim>\<open>[storeColumn] IN (...)\<close>. Both bounds and the stored value are compared as the
  dates the store reads from them; a value or bound that is no date, and a \<^verbatim>\<open>NULL\<close>,
  match neither clause.
\<close>

definition storedDate :: "driver \<Rightarrow> param \<Rightarrow> int option" where
  "storedDate drv p =
     (case p of
        PDate d \<Rightarrow> (case d of Some s \<Rightarrow> readDate drv s | None \<Rightarrow> None)
      | PText s \<Rightarrow> castDate drv s
      | _ \<Rightarrow> None)"

definition inDateRange :: "driver \<Rightarrow> deleteStmt \<Rightarrow> dbrow \<Rightarrow> bool" where
  "inDateRange drv d r =
     (case map_of r (del_dateColumn d) of
        None \<Rightarrow> False
      | Some p \<Rightarrow>
          (case storedDate drv p of
             None \<Rightarrow> False
           | Some x \<Rightarrow>
               (case readDate drv (del_minDate d) of
                  None \<Rightarrow> False
                | Some lo \<Rightarrow>
                    (case readDate drv (del_maxDate d) of
                       None \<Rightarrow> False
                     | Some hi \<Rightarrow> lo \<le> x \<and> x \<le> hi))))"

definition inStoreList :: "deleteStmt \<Rightarrow> dbrow \<Rightarrow> bool" where
  "inStoreList d r =
     (case map_of r (del_storeColumn d) of
        Some (PText s) \<Rightarrow> s \<in> set (del_stores d)
      | _ \<Rightarrow> False)"

definition deleteMatches :: "driver \<Rightarrow> deleteStmt \<Rightarrow> dbrow \<Rightarrow> bool" where
  "deleteMatches drv d r = (inDateRange drv d r \<and> (del_stores d = [] \<or> inStoreList d r))"

definition execDelete :: "driver \<Rightarrow> deleteStmt \<Rightarrow> dbrow list \<Rightarrow> dbrow list" where
  "execDelete drv d rows = filter (\<lambda>r. \<not> deleteMatches drv d r) rows"

definition storedRow :: "insertStmt \<Rightarrow> dbrow" where
  "storedRow q = zip (ins_columns q) (ins_params q)"

text \<open>
  A single-row insert inside the transaction: the store rejects it with a message and
  keeps its rows, or accepts it and holds one row more.
\<close>

definition execInsert :: "driver \<Rightarrow> dbrow list \<Rightarrow> insertStmt \<Rightarrow> string + dbrow list" where
  "execInsert drv rows q =
     (case rowError drv rows q of
        Some msg \<Rightarrow> Inl msg
      | None \<Rightarrow> Inr (rows @ [storedRow q]))"

section \<open>Load window\<close>

definition lowerBound :: "string option \<Rightarrow> string \<Rightarrow> string option" where
  "lowerBound minDate d =
     (case minDate of
        None \<Rightarrow> Some d
      | Some m \<Rightarrow> if m = [] \<or> d < m then Some d else Some m)"

definition upperBound :: "string option \<Rightarrow> string \<Rightarrow> string option" where
  "upperBound maxDate d =
     (case maxDate of
        None \<Rightarrow> Some d
      | Some m \<Rightarrow> if m = [] \<or> d > m then Some d else Some m)"

text \<open>\<^verbatim>\<open>stores.add(s)\<close> on a \<^verbatim>\<open>Set\<close>: insertion order, no duplicates.\<close>

definition addStore :: "string \<Rightarrow> string list \<Rightarrow> string list" where
  "addStore s stores = (if s \<in> set stores then stores else stores @ [s])"

definition collectStore :: "string \<Rightarrow> jsrow \<Rightarrow> string list \<Rightarrow> string list" where
  "collectStore tableName row stores =
     (if tableName = ''SNJ_SRP_DETAIL'' \<and> truthy (getProp row ''ORG_CODE_NAME'')
      then addStore (toText (getProp row ''ORG_CODE_NAME'')) stores
      else if tableName = ''SALES_INVOICE_ACCURATE_ONLINE'' \<and> truthy (getProp row ''Gudang'')
      then addStore (toText (getProp row ''Gudang'')) stores
      else stores)"

record window =
  minDate :: "string option"
  maxDate :: "string option"
  stores :: "string list"

definition emptyWindow :: window where
  "emptyWindow = \<lparr>minDate = None, maxDate = None, stores = []\<rparr>"

text \<open>The body of \<^verbatim>\<open>mappedData.forEach\<close> in fileWatcher.js.\<close>

definition windowStep :: "string \<Rightarrow> jsrow \<Rightarrow> window \<Rightarrow> window" where
  "windowStep tableName row w =
     (let dateValue = js_or (getProp row ''SALES_DATE'') (getProp row ''Tanggal'');
          w1 = (if truthy dateValue then
                  (case parseDate dateValue of
                     None \<Rightarrow> w
                   | Some parsedDate \<Rightarrow>
                       if parsedDate = [] then w
                       else w\<lparr>minDate := lowerBound (minDate w) parsedDate,
                              maxDate := upperBound (maxDate w) parsedDate\<rparr>)
                else w)
      in w1\<lparr>stores := collectStore tableName row (stores w1)\<rparr>)"

definition findWindow :: "string \<Rightarrow> jsrow list \<Rightarrow> window" where
  "findWindow tableName mappedData = fold (windowStep tableName) mappedData emptyWindow"

text \<open>The body of \<^verbatim>\<open>data.forEach\<close> in server.js.\<close>

definition windowStepHttp :: "string \<Rightarrow> jsrow \<Rightarrow> window \<Rightarrow> window" where
  "windowStepHttp tableName row w =
     (let dateValue = js_or (getProp row ''SALES_DATE'') (getProp row ''Tanggal'');
          w1 = (if truthy dateValue then
                  (let dateStr = fixDateFormat (toText dateValue)
                   in w\<lparr>minDate := lowerBound (minDate w) dateStr,
                         maxDate := upperBound (maxDate w) dateStr\<rparr>)
                else w)
      in w1\<lparr>stores := collectStore tableName row (stores w1)\<rparr>)"

definition findWindowHttp :: "string \<Rightarrow> jsrow list \<Rightarrow> window" where
  "findWindowHttp tableName data = fold (windowStepHttp tableName) data emptyWindow"

text \<open>\<^verbatim>\<open>minDate && maxDate\<close>.\<close>

definition hasWindow :: "window \<Rightarrow> bool" where
  "hasWindow w =
     ((case minDate w of Some m \<Rightarrow> m \<noteq> [] | None \<Rightarrow> False) \<and>
      (case maxDate w of Some m \<Rightarrow> m \<noteq> [] | None \<Rightarrow> False))"

definition buildDelete :: "string \<Rightarrow> window \<Rightarrow> deleteStmt" where
  "buildDelete tableName w =
     \<lparr>del_table = tableName,
      del_dateColumn = dateColumnOf tableName,
      del_minDate = (case minDate w of Some m \<Rightarrow> m | None \<Rightarrow> []),
      del_maxDate = (case maxDate w of Some m \<Rightarrow> m | None \<Rightarrow> []),
      del_storeColumn = storeColumnOf tableName,
      del_stores = stores w\<rparr>"

section \<open>Live column metadata\<close>

text \<open>
  \<^verbatim>\<open>columnTypes\<close> is a plain object filled by
  \<^verbatim>\<open>columnTypes[col.COLUMN_NAME] = col.DATA_TYPE\<close> from the answer of the metadata query:
  a later entry of the same name wins, and the name \<^verbatim>\<open>__proto__\<close> stores nothing.
\<close>

definition columnTypesOf :: "(string \<times> string) list \<Rightarrow> string \<Rightarrow> string option" where
  "columnTypesOf liveColumns = map_of (rev (filter (\<lambda>(c, t). c \<noteq> ''__proto__'') liveColumns))"

text \<open>
  \<^verbatim>\<open>columnTypes[col]\<close>: the declared type, else an inherited member of the object if
  \<open>col\<close> names one, else \<^verbatim>\<open>undefined\<close>.
\<close>

datatype liveType = Declared string | Inherited | Undeclared

definition lookupType :: "(string \<Rightarrow> string option) \<Rightarrow> string \<Rightarrow> liveType" where
  "lookupType columnTypes col =
     (case columnTypes col of
        Some t \<Rightarrow> Declared t
      | None \<Rightarrow> if col \<in> set objectPrototypeNames then Inherited else Undeclared)"

text \<open>
  \<^verbatim>\<open>sqlType && (sqlType.includes('int') || ...)\<close>. An inherited member is truthy and has
  no \<^verbatim>\<open>includes\<close>: the call throws a \<^verbatim>\<open>TypeError\<close> (\<open>Inl\<close>).
\<close>

definition isNumericType :: "liveType \<Rightarrow> string + bool" where
  "isNumericType sqlType =
     (case sqlType of
        Undeclared \<Rightarrow> Inr False
      | Inherited \<Rightarrow> Inl ''sqlType.includes is not a function''
      | Declared t \<Rightarrow>
          Inr (t \<noteq> [] \<and>
               (str_includes t ''int'' \<or> str_includes t ''numeric'' \<or>
                str_includes t ''decimal'' \<or> str_includes t ''float'')))"

section \<open>Parameter binding\<close>

definition isEmptyCell :: "jsval \<Rightarrow> bool" where
  "isEmptyCell v = (v = JNull \<or> v = JUndefined \<or> v = JStr [])"

text \<open>\<^verbatim>\<open>/[eE][+-]?\d+/.test(text)\<close>.\<close>

fun hasExponent :: "string \<Rightarrow> bool" where
  "hasExponent [] = False"
| "hasExponent (c # cs) =
     (((c = CHR ''e'' \<or> c = CHR ''E'') \<and>
       (case cs of
          [] \<Rightarrow> False
        | d # ds \<Rightarrow>
            is_digit d \<or>
            ((d = CHR ''+'' \<or> d = CHR ''-'') \<and> (case ds of [] \<Rightarrow> False | x # _ \<Rightarrow> is_digit x))))
      \<or> hasExponent cs)"

text \<open>The text bound to a string column: scientific notation is rendered without exponent.\<close>

definition textValue :: "jsRuntime \<Rightarrow> string \<Rightarrow> string" where
  "textValue rt stringValue =
     (if hasExponent stringValue then
        (let num = toNumber rt stringValue
         in if isNaN num then stringValue else toFixed0 rt num)
      else stringValue)"

text \<open>
  The callback of \<^verbatim>\<open>columns.forEach\<close> in fileWatcher.js for one column: schema lists
  first, then the live type, then text. \<open>Inl\<close> is the exception it throws.
\<close>

definition bindValue ::
  "jsRuntime \<Rightarrow> schemas \<Rightarrow> string \<Rightarrow> (string \<Rightarrow> string option) \<Rightarrow> string \<Rightarrow> jsval \<Rightarrow>
   string + param" where
  "bindValue rt reg tableName columnTypes col v =
     (if isEmptyCell v then Inr PNull
      else
        (case getColumnType reg tableName col of
           KNumeric \<Rightarrow> Inr (PNumeric (parseNumeric v))
         | KDate \<Rightarrow> Inr (PDate (parseDate v))
         | KString \<Rightarrow>
             (case isNumericType (lookupType columnTypes col) of
                Inl e \<Rightarrow> Inl e
              | Inr numeric \<Rightarrow>
                  if numeric then Inr (PNumeric (parseNumeric v))
                  else Inr (PText (textValue rt (toText v))))))"

text \<open>The callback of \<^verbatim>\<open>validColumns.forEach\<close> in server.js: the live type only.\<close>

definition bindValueHttp ::
  "jsRuntime \<Rightarrow> (string \<Rightarrow> string option) \<Rightarrow> string \<Rightarrow> jsval \<Rightarrow> string + param" where
  "bindValueHttp rt columnTypes col v =
     (if isEmptyCell v then Inr PNull
      else
        (case isNumericType (lookupType columnTypes col) of
           Inl e \<Rightarrow> Inl e
         | Inr numeric \<Rightarrow>
             if numeric then
               (let numValue =
                      (if hasExponent (toText v) then toNumber rt (toText v)
                       else parseFloat
                              (filter (\<lambda>c. is_digit c \<or> c = CHR ''.'' \<or> c = CHR ''-'') (toText v)))
                in Inr (PNumeric (if isNaN numValue then None else Some numValue)))
             else Inr (PText (textValue rt (toText v)))))"

text \<open>\<^verbatim>\<open>forEach\<close> over the columns of a record: the first exception ends it.\<close>

fun bindColumns :: "(string \<Rightarrow> jsval \<Rightarrow> string + param) \<Rightarrow> jsrow \<Rightarrow> string + param list" where
  "bindColumns b [] = Inr []"
| "bindColumns b (cell # rest) =
     (case b (fst cell) (snd cell) of
        Inl e \<Rightarrow> Inl e
      | Inr p \<Rightarrow>
          (case bindColumns b rest of
             Inl e \<Rightarrow> Inl e
           | Inr ps \<Rightarrow> Inr (p # ps)))"

text \<open>
  What one turn of an insert loop has ready when it reaches \<^verbatim>\<open>request.query\<close>: a
  statement, unless binding threw, or (server.js) the record had no valid column.
\<close>

datatype prepared = Statement insertStmt | BindError string | NoValidColumns

text \<open>fileWatcher.js names every property of the mapped record.\<close>

definition buildInsert ::
  "jsRuntime \<Rightarrow> schemas \<Rightarrow> string \<Rightarrow> (string \<Rightarrow> string option) \<Rightarrow> jsrow \<Rightarrow> prepared" where
  "buildInsert rt reg tableName columnTypes row =
     (case bindColumns (bindValue rt reg tableName columnTypes) row of
        Inl e \<Rightarrow> BindError e
      | Inr ps \<Rightarrow>
          Statement \<lparr>ins_table = tableName, ins_columns = map fst row, ins_params = ps\<rparr>)"

text \<open>
  server.js keeps the properties for which \<^verbatim>\<open>columnTypes[col]\<close> is truthy: a declared
  column with a non-empty type, and also a name that the object inherits.
\<close>

definition isValidColumn :: "(string \<Rightarrow> string option) \<Rightarrow> string \<Rightarrow> bool" where
  "isValidColumn columnTypes col =
     (case lookupType columnTypes col of
        Declared t \<Rightarrow> t \<noteq> []
      | Inherited \<Rightarrow> True
      | Undeclared \<Rightarrow> False)"

definition validCells :: "(string \<Rightarrow> string option) \<Rightarrow> jsrow \<Rightarrow> jsrow" where
  "validCells columnTypes row = filter (\<lambda>(col, v). isValidColumn columnTypes col) row"

definition buildInsertHttp ::
  "jsRuntime \<Rightarrow> string \<Rightarrow> (string \<Rightarrow> string option) \<Rightarrow> jsrow \<Rightarrow> prepared" where
  "buildInsertHttp rt tableName columnTypes row =
     (if validCells columnTypes row = [] then NoValidColumns
      else
        (case bindColumns (bindValueHttp rt columnTypes) (validCells columnTypes row) of
           Inl e \<Rightarrow> BindError e
         | Inr ps \<Rightarrow>
             Statement \<lparr>ins_table = tableName,
                        ins_columns = map fst (validCells columnTypes row),
                        ins_params = ps\<rparr>))"

section \<open>The insert loop\<close>

datatype logEntry =
    LogDeleteByStores "string list"
  | LogDeleteByDateOnly
  | LogDeleted nat
  | LogSkipUnknownColumn string
  | LogNoValidColumns nat
  | LogRowError nat string

text \<open>
  The state of the transaction while the rows are inserted: the rows the transaction
  sees, the statements sent so far, the two counters and the log lines written.
\<close>

record progress =
  txRows :: "dbrow list"
  sent :: "sqlStmt list"
  nSuccess :: nat
  nError :: nat
  written :: "logEntry list"

record rowFailure =
  fail_row :: nat
  fail_error :: string
  fail_data :: jsrow

record progressHttp = progress +
  failures :: "rowFailure list"

text \<open>
  One iteration of the \<^verbatim>\<open>for\<close> loop of fileWatcher.js; \<open>i\<close> is the 0-based index. The
  \<^verbatim>\<open>catch\<close> of the iteration takes an exception of the binding as well as a rejection by
  the store.
\<close>

definition insertRow ::
  "jsRuntime \<Rightarrow> driver \<Rightarrow> schemas \<Rightarrow> string \<Rightarrow> (string \<Rightarrow> string option) \<Rightarrow>
   nat \<Rightarrow> jsrow \<Rightarrow> progress \<Rightarrow> progress" where
  "insertRow rt drv reg tableName columnTypes i row st =
     (case buildInsert rt reg tableName columnTypes row of
        Statement query \<Rightarrow>
          (case execInsert drv (txRows st) query of
             Inr rows' \<Rightarrow>
               st\<lparr>txRows := rows',
                  sent := sent st @ [Insert query],
                  nSuccess := Suc (nSuccess st)\<rparr>
           | Inl msg \<Rightarrow>
               st\<lparr>sent := sent st @ [Insert query],
                  nError := Suc (nError st),
                  written := written st @ [LogRowError (Suc i) msg]\<rparr>)
      | BindError msg \<Rightarrow>
          st\<lparr>nError := Suc (nError st),
             written := written st @ [LogRowError (Suc i) msg]\<rparr>
      | NoValidColumns \<Rightarrow> st)"

fun insertRows ::
  "jsRuntime \<Rightarrow> driver \<Rightarrow> schemas \<Rightarrow> string \<Rightarrow> (string \<Rightarrow> string option) \<Rightarrow>
   nat \<Rightarrow> jsrow list \<Rightarrow> progress \<Rightarrow> progress" where
  "insertRows rt drv reg tableName columnTypes i [] st = st"
| "insertRows rt drv reg tableName columnTypes i (row # rest) st =
     insertRows rt drv reg tableName columnTypes (Suc i) rest
       (insertRow rt drv reg tableName columnTypes i row st)"

text \<open>
  One iteration of the loop of server.js. Unknown columns are reported for the first
  record only; a record without any valid column is reported and left out of both
  counters (\<^verbatim>\<open>continue\<close>).
\<close>

definition insertRowHttp ::
  "jsRuntime \<Rightarrow> driver \<Rightarrow> string \<Rightarrow> (string \<Rightarrow> string option) \<Rightarrow>
   nat \<Rightarrow> jsrow \<Rightarrow> progressHttp \<Rightarrow> progressHttp" where
  "insertRowHttp rt drv tableName columnTypes i row st =
     (let skipped = (if i = 0
                     then map LogSkipUnknownColumn
                            (filter (\<lambda>col. \<not> isValidColumn columnTypes col) (map fst row))
                     else [])
      in (case buildInsertHttp rt tableName columnTypes row of
            NoValidColumns \<Rightarrow>
              st\<lparr>written := written st @ skipped @ [LogNoValidColumns (Suc i)]\<rparr>
          | BindError msg \<Rightarrow>
              st\<lparr>nError := Suc (nError st),
                 written := written st @ skipped @ [LogRowError (Suc i) msg],
                 failures := failures st @
                   [\<lparr>fail_row = Suc i, fail_error = msg, fail_data = row\<rparr>]\<rparr>
          | Statement query \<Rightarrow>
              (case execInsert drv (txRows st) query of
                 Inr rows' \<Rightarrow>
                   st\<lparr>txRows := rows',
                      sent := sent st @ [Insert query],
                      nSuccess := Suc (nSuccess st),
                      written := written st @ skipped\<rparr>
               | Inl msg \<Rightarrow>
                   st\<lparr>sent := sent st @ [Insert query],
                      nError := Suc (nError st),
                      written := written st @ skipped @ [LogRowError (Suc i) msg],
                      failures := failures st @
                        [\<lparr>fail_row = Suc i, fail_error = msg, fail_data = row\<rparr>]\<rparr>)))"

fun insertRowsHttp ::
  "jsRuntime \<Rightarrow> driver \<Rightarrow> string \<Rightarrow> (string \<Rightarrow> string option) \<Rightarrow>
   nat \<Rightarrow> jsrow list \<Rightarrow> progressHttp \<Rightarrow> progressHttp" where
  "insertRowsHttp rt drv tableName columnTypes i [] st = st"
| "insertRowsHttp rt drv tableName columnTypes i (row # rest) st =
     insertRowsHttp rt drv tableName columnTypes (Suc i) rest
       (insertRowHttp rt drv tableName columnTypes i row st)"

section \<open>The load (uploadToDatabase)\<close>

text \<open>The object returned by fileWatcher.js, and the one of server.js with its error list.\<close>

record outcome =
  success :: bool
  successCount :: nat
  errorCount :: nat
  dateRange :: string
  storeList :: "string list"

record outcomeHttp = outcome +
  errors :: "rowFailure list"

text \<open>
  A load attempt: what it returned (\<open>Inl\<close> is the message of the exception thrown), the
  committed rows of the destination table afterwards, the statements sent inside the
  transaction and the log lines of the transaction.
\<close>

record 'a loadRun =
  result :: "string + 'a"
  tableRows :: "dbrow list"
  issued :: "sqlStmt list"
  logged :: "logEntry list"

definition thrown :: "string \<Rightarrow> dbrow list \<Rightarrow> sqlStmt list \<Rightarrow> logEntry list \<Rightarrow> 'a loadRun" where
  "thrown msg rows stmts lines =
     \<lparr>result = Inl msg, tableRows = rows, issued = stmts, logged = lines\<rparr>"

text \<open>
  The \<^verbatim>\<open>catch\<close> of the transaction block: roll back, then rethrow. The rows committed
  before the attempt stay; a failing rollback replaces the message.
\<close>

definition rolledBack ::
  "driver \<Rightarrow> string \<Rightarrow> dbrow list \<Rightarrow> sqlStmt list \<Rightarrow> logEntry list \<Rightarrow> 'a loadRun" where
  "rolledBack drv msg rows stmts lines =
     thrown (case rollbackError drv of Some e \<Rightarrow> e | None \<Rightarrow> msg) rows stmts lines"

definition deleteLog :: "deleteStmt \<Rightarrow> logEntry" where
  "deleteLog d = (if del_stores d \<noteq> [] then LogDeleteByStores (del_stores d) else LogDeleteByDateOnly)"

definition showDate :: "string option \<Rightarrow> string" where
  "showDate d = (case d of None \<Rightarrow> ''null'' | Some s \<Rightarrow> s)"

definition orNA :: "string option \<Rightarrow> string" where
  "orNA d = (case d of None \<Rightarrow> ''N/A'' | Some s \<Rightarrow> if s = [] then ''N/A'' else s)"

text \<open>
  The delete phase when it does not fail: with a window, one \<^verbatim>\<open>DELETE\<close> and the rows it
  leaves; without one, nothing is sent. The insert loop starts from its result.
\<close>

definition afterDelete :: "driver \<Rightarrow> string \<Rightarrow> window \<Rightarrow> dbrow list \<Rightarrow> progress" where
  "afterDelete drv tableName w rows =
     (if hasWindow w then
        (let d = buildDelete tableName w; kept = execDelete drv d rows
         in \<lparr>txRows = kept, sent = [Delete d], nSuccess = 0, nError = 0,
             written = [deleteLog d, LogDeleted (length rows - length kept)]\<rparr>)
      else \<lparr>txRows = rows, sent = [], nSuccess = 0, nError = 0, written = []\<rparr>)"

definition afterDeleteHttp :: "driver \<Rightarrow> string \<Rightarrow> window \<Rightarrow> dbrow list \<Rightarrow> progressHttp" where
  "afterDeleteHttp drv tableName w rows =
     (let st = afterDelete drv tableName w rows
      in \<lparr>txRows = txRows st, sent = sent st, nSuccess = 0, nError = 0,
          written = written st, failures = []\<rparr>)"

text \<open>
  \<^verbatim>\<open>uploadToDatabase(connConfig, data, fileName)\<close> of fileWatcher.js. \<open>liveColumns\<close> is
  the answer of the metadata query (column name, data type) and \<open>rows\<close> the committed
  rows of the destination table when the attempt starts.
\<close>

definition uploadToDatabase ::
  "jsRuntime \<Rightarrow> driver \<Rightarrow> schemas \<Rightarrow> (string \<times> string) list \<Rightarrow> dbrow list \<Rightarrow>
   jsrow list \<Rightarrow> string \<Rightarrow> outcome loadRun" where
  "uploadToDatabase rt drv reg liveColumns rows data fileName =
     (case connectError drv of
        Some e \<Rightarrow> thrown e rows [] []
      | None \<Rightarrow>
          let tableName = detectTableName fileName data
          in if reg tableName = None
             then thrown (''No schema defined for table: '' @ tableName) rows [] []
             else
               (case provisionError drv of
                  Some e \<Rightarrow> thrown e rows [] []
                | None \<Rightarrow>
                    (case metadataError drv of
                       Some e \<Rightarrow> thrown e rows [] []
                     | None \<Rightarrow>
                         (case mapAll reg tableName data of
                            Inl e \<Rightarrow> thrown e rows [] []
                          | Inr mappedData \<Rightarrow>
                              let columnTypes = columnTypesOf liveColumns;
                                  w = findWindow tableName mappedData
                              in (case beginError drv of
                                    Some e \<Rightarrow> thrown e rows [] []
                                  | None \<Rightarrow>
                                      if hasWindow w \<and> deleteError drv \<noteq> None
                                      then rolledBack drv
                                             (case deleteError drv of Some e \<Rightarrow> e | None \<Rightarrow> [])
                                             rows [Delete (buildDelete tableName w)]
                                             [deleteLog (buildDelete tableName w)]
                                      else
                                        (let st = insertRows rt drv reg tableName columnTypes 0
                                                    mappedData (afterDelete drv tableName w rows)
                                         in (case commitError drv of
                                               Some e \<Rightarrow> rolledBack drv e rows (sent st) (written st)
                                             | None \<Rightarrow>
                                                 \<lparr>result = Inr
                                                    \<lparr>success = True,
                                                     successCount = nSuccess st,
                                                     errorCount = nError st,
                                                     dateRange = showDate (minDate w) @ '' to '' @
                                                                 showDate (maxDate w),
                                                     storeList = stores w\<rparr>,
                                                  tableRows = txRows st,
                                                  issued = sent st,
                                                  logged = written st\<rparr>)))))))"

text \<open>
  \<^verbatim>\<open>uploadToDatabase(connConfig, data, tableName)\<close> of server.js: no provisioning, no
  column mapping, the table name is given, and the returned object carries at most ten
  error entries.
\<close>

definition uploadToDatabaseHttp ::
  "jsRuntime \<Rightarrow> driver \<Rightarrow> (string \<times> string) list \<Rightarrow> dbrow list \<Rightarrow>
   jsrow list \<Rightarrow> string \<Rightarrow> outcomeHttp loadRun" where
  "uploadToDatabaseHttp rt drv liveColumns rows data tableName =
     (case connectError drv of
        Some e \<Rightarrow> thrown e rows [] []
      | None \<Rightarrow>
          (case metadataError drv of
             Some e \<Rightarrow> thrown e rows [] []
           | None \<Rightarrow>
               let columnTypes = columnTypesOf liveColumns;
                   w = findWindowHttp tableName data
               in (case beginError drv of
                     Some e \<Rightarrow> thrown e rows [] []
                   | None \<Rightarrow>
                       if hasWindow w \<and> deleteError drv \<noteq> None
                       then rolledBack drv (case deleteError drv of Some e \<Rightarrow> e | None \<Rightarrow> [])
                              rows [Delete (buildDelete tableName w)]
                              [deleteLog (buildDelete tableName w)]
                       else
                         (let st = insertRowsHttp rt drv tableName columnTypes 0 data
                                     (afterDeleteHttp drv tableName w rows)
                          in (case commitError drv of
                                Some e \<Rightarrow> rolledBack drv e rows (sent st) (written st)
                              | None \<Rightarrow>
                                  \<lparr>result = Inr
                                     \<lparr>success = True,
                                      successCount = nSuccess st,
                                      errorCount = nError st,
                                      dateRange = orNA (minDate w) @ '' to '' @ orNA (maxDate w),
                                      storeList = stores w,
                                      errors = take 10 (failures st)\<rparr>,
                                   tableRows = txRows st,
                                   issued = sent st,
                                   logged = written st\<rparr>)))))"

section \<open>The ingestion driver (processFile)\<close>

record connection =
  conn_name :: string
  conn_enabled :: bool

datatype disposition = MovedToProcessed | MovedToFailed string

definition routeConnection :: "connection list \<Rightarrow> string \<Rightarrow> string + connection" where
  "routeConnection conns tableName =
     (if filter conn_enabled conns = [] then Inl ''No enabled database connections in config.json''
      else if tableName = ''SALES_INVOICE_ACCURATE_ONLINE'' then
        (case find (\<lambda>c. conn_name c = ''Database 2'') conns of
           Some db2 \<Rightarrow>
             if conn_enabled db2 then Inr db2
             else Inl ''Database 2 is not enabled for SALES_INVOICE_ACCURATE_ONLINE''
         | None \<Rightarrow> Inl ''Database 2 is not enabled for SALES_INVOICE_ACCURATE_ONLINE'')
      else
        (case find (\<lambda>c. conn_name c = ''Database 1'') conns of
           Some db1 \<Rightarrow> if conn_enabled db1 then Inr db1 else Inl ''Database 1 is not enabled''
         | None \<Rightarrow> Inl ''Database 1 is not enabled''))"

text \<open>
  \<^verbatim>\<open>processFile\<close> from the parsed records on: the file ends in the processed folder
  when the load returned, in the failed folder when anything threw. The second component
  is the destination table afterwards.
\<close>

definition processFile ::
  "jsRuntime \<Rightarrow> driver \<Rightarrow> schemas \<Rightarrow> connection list \<Rightarrow> (string \<times> string) list \<Rightarrow>
   dbrow list \<Rightarrow> jsrow list \<Rightarrow> string \<Rightarrow> disposition \<times> dbrow list" where
  "processFile rt drv reg conns liveColumns rows data fileName =
     (if data = [] then (MovedToFailed ''File is empty or has no data'', rows)
      else
        (case routeConnection conns (detectTableName fileName data) of
           Inl e \<Rightarrow> (MovedToFailed e, rows)
         | Inr conn \<Rightarrow>
             (let run = uploadToDatabase rt drv reg liveColumns rows data fileName
              in (case result run of
                    Inl e \<Rightarrow> (MovedToFailed (''Upload to '' @ conn_name conn @ '' failed: '' @ e), tableRows run)
                  | Inr r \<Rightarrow> (MovedToProcessed, tableRows run)))))"

section \<open>Observing a load\<close>

text \<open>
  The vocabulary of the properties below: the mapped records of a load, the answers of
  the store to a sequence of inserts, the state of the insert loop when it starts and
  ends, the dates the window and the store read, and tests on log lines and statements.
  Everything here is computed from the definitions above.
\<close>

text \<open>
  The records after the column mapping, as the watcher computes them; there are none
  when the mapping threw.
\<close>

definition mappedRows :: "schemas \<Rightarrow> jsrow list \<Rightarrow> string \<Rightarrow> jsrow list" where
  "mappedRows reg data fileName =
     (case mapAll reg (detectTableName fileName data) data of
        Inr mappedData \<Rightarrow> mappedData
      | Inl e \<Rightarrow> [])"

definition isRowError :: "logEntry \<Rightarrow> bool" where
  "isRowError e = (case e of LogRowError i msg \<Rightarrow> True | _ \<Rightarrow> False)"

definition isNoValidColumns :: "logEntry \<Rightarrow> bool" where
  "isNoValidColumns e = (case e of LogNoValidColumns i \<Rightarrow> True | _ \<Rightarrow> False)"

definition isDelete :: "sqlStmt \<Rightarrow> bool" where
  "isDelete q = (case q of Delete d \<Rightarrow> True | Insert i \<Rightarrow> False)"

text \<open>
  The statements among what the turns of an insert loop had ready.
\<close>

fun statements :: "prepared list \<Rightarrow> insertStmt list" where
  "statements [] = []"
| "statements (p # ps) = (case p of Statement q \<Rightarrow> q # statements ps | _ \<Rightarrow> statements ps)"

text \<open>
  The answers of the store to a sequence of single-row inserts sent one after the other
  inside one transaction that sees \<open>rows\<close>: the message of a rejection, or \<open>None\<close> for an
  insert that went through and whose row the following inserts see.
\<close>

fun storeVerdicts :: "driver \<Rightarrow> dbrow list \<Rightarrow> insertStmt list \<Rightarrow> string option list" where
  "storeVerdicts drv rows [] = []"
| "storeVerdicts drv rows (q # qs) =
     (case execInsert drv rows q of
        Inl msg \<Rightarrow> Some msg # storeVerdicts drv rows qs
      | Inr rows' \<Rightarrow> None # storeVerdicts drv rows' qs)"

text \<open>
  The state in which the watcher's insert loop starts, and the one in which it ends.
\<close>

definition loadStart :: "driver \<Rightarrow> schemas \<Rightarrow> dbrow list \<Rightarrow> jsrow list \<Rightarrow> string \<Rightarrow> progress" where
  "loadStart drv reg rows data fileName =
     afterDelete drv (detectTableName fileName data)
       (findWindow (detectTableName fileName data) (mappedRows reg data fileName)) rows"

definition loadEnd ::
  "jsRuntime \<Rightarrow> driver \<Rightarrow> schemas \<Rightarrow> (string \<times> string) list \<Rightarrow> dbrow list \<Rightarrow>
   jsrow list \<Rightarrow> string \<Rightarrow> progress" where
  "loadEnd rt drv reg liveColumns rows data fileName =
     insertRows rt drv reg (detectTableName fileName data) (columnTypesOf liveColumns) 0
       (mappedRows reg data fileName) (loadStart drv reg rows data fileName)"

text \<open>
  The same for server.js.
\<close>

definition loadStartHttp :: "driver \<Rightarrow> dbrow list \<Rightarrow> jsrow list \<Rightarrow> string \<Rightarrow> progressHttp" where
  "loadStartHttp drv rows data tableName =
     afterDeleteHttp drv tableName (findWindowHttp tableName data) rows"

definition loadEndHttp ::
  "jsRuntime \<Rightarrow> driver \<Rightarrow> (string \<times> string) list \<Rightarrow> dbrow list \<Rightarrow>
   jsrow list \<Rightarrow> string \<Rightarrow> progressHttp" where
  "loadEndHttp rt drv liveColumns rows data tableName =
     insertRowsHttp rt drv tableName (columnTypesOf liveColumns) 0 data
       (loadStartHttp drv rows data tableName)"

text \<open>
  The unknown-column lines server.js writes for a record: only for the first one.
\<close>

definition skipLog :: "(string \<Rightarrow> string option) \<Rightarrow> nat \<Rightarrow> jsrow \<Rightarrow> logEntry list" where
  "skipLog ct i row =
     (if i = 0 then map LogSkipUnknownColumn (filter (\<lambda>col. \<not> isValidColumn ct col) (map fst row))
      else [])"

text \<open>
  A driver that reports no failure outside single-row inserts.
\<close>

definition healthy :: "driver \<Rightarrow> bool" where
  "healthy drv =
     (connectError drv = None \<and> provisionError drv = None \<and> metadataError drv = None \<and>
      beginError drv = None \<and> deleteError drv = None \<and> commitError drv = None)"

text \<open>
  The date text the watcher reads from one mapped record for the window, if any.
\<close>

definition rowDate :: "jsrow \<Rightarrow> string option" where
  "rowDate row =
     (let dateValue = js_or (getProp row ''SALES_DATE'') (getProp row ''Tanggal'')
      in if truthy dateValue then
           (case parseDate dateValue of
              None \<Rightarrow> None
            | Some d \<Rightarrow> if d = [] then None else Some d)
         else None)"

text \<open>
  The date the driver reads from that text when it is bound as a bound of the
  \<^verbatim>\<open>DELETE\<close>.
\<close>

definition windowDate :: "driver \<Rightarrow> jsrow \<Rightarrow> int option" where
  "windowDate drv row = (case rowDate row of None \<Rightarrow> None | Some d \<Rightarrow> readDate drv d)"

text \<open>
  The date the store holds in the date column of the table for the row a statement
  inserts.
\<close>

definition storedDateOf :: "driver \<Rightarrow> string \<Rightarrow> insertStmt \<Rightarrow> int option" where
  "storedDateOf drv tableName q =
     (case map_of (storedRow q) (dateColumnOf tableName) of
        None \<Rightarrow> None
      | Some p \<Rightarrow> storedDate drv p)"

section \<open>Example inputs\<close>

text \<open>
  Concrete registries, drivers and batches at which the general theorems are applied.
\<close>

definition exampleSchema :: tableSchema where
  "exampleSchema =
     \<lparr>columns = [(''Tanggal'', ''DATE''), (''Gudang'', ''NVARCHAR(100)'')],
      primaryKey = [], indexes = [],
      numericColumns = None, dateColumns = Some [''Tanggal''],
      columnMapping = Some [(''Tgl'', ''Tanggal''), (''Cabang'', ''Gudang'')]\<rparr>"

definition invoiceRegistry :: schemas where
  "invoiceRegistry = (\<lambda>n. if n = ''SALES_INVOICE_ACCURATE_ONLINE'' then Some exampleSchema else None)"

text \<open>
  An example runtime that knows one text in scientific notation.
\<close>

definition plainRuntime :: jsRuntime where
  "plainRuntime =
     \<lparr>toNumber = (\<lambda>s. if s = ''1e5'' then Finite 100000 else NaN),
      toFixed0 = (\<lambda>n. if n = Finite 100000 then ''100000'' else [])\<rparr>"

text \<open>
  An example reading of date texts as day numbers: ISO texts and month/day/year texts.
\<close>

definition dayNumber :: "string \<Rightarrow> int option" where
  "dayNumber = map_of
     [(''2024-01-01'', 19723), (''2024-12-25'', 20082), (''12/25/2024'', 20082),
      (''2025-01-05'', 20093), (''1/5/2025'', 20093), (''2025-02-01'', 20120)]"

definition rejectBad :: "insertStmt \<Rightarrow> string option" where
  "rejectBad q = (if PText ''BAD'' \<in> set (ins_params q) then Some ''constraint violation'' else None)"

definition pickyDriver :: driver where
  "pickyDriver =
     \<lparr>connectError = None, provisionError = None, metadataError = None, beginError = None,
      deleteError = None, commitError = None, rollbackError = None,
      rowError = (\<lambda>rows. rejectBad), readDate = dayNumber, castDate = dayNumber\<rparr>"

text \<open>
  An example constraint: \<^verbatim>\<open>BILL_NO\<close> is a key, so a row whose bill number the transaction
  already sees is rejected.
\<close>

definition duplicateKey :: "dbrow list \<Rightarrow> insertStmt \<Rightarrow> string option" where
  "duplicateKey rows q =
     (if map_of (storedRow q) ''BILL_NO'' \<in> (\<lambda>r. map_of r ''BILL_NO'') ` set rows
      then Some ''Violation of PRIMARY KEY constraint'' else None)"

definition keyedDriver :: driver where
  "keyedDriver =
     \<lparr>connectError = None, provisionError = None, metadataError = None, beginError = None,
      deleteError = None, commitError = None, rollbackError = None,
      rowError = duplicateKey, readDate = dayNumber, castDate = dayNumber\<rparr>"

definition detailSchema :: tableSchema where
  "detailSchema =
     \<lparr>columns = [(''BILL_NO'', ''NVARCHAR(50)''), (''SALES_DATE'', ''DATE''),
                 (''ORG_CODE_NAME'', ''NVARCHAR(100)'')],
      primaryKey = [], indexes = [''SALES_DATE''],
      numericColumns = None, dateColumns = Some [''SALES_DATE''], columnMapping = None\<rparr>"

definition detailRegistry :: schemas where
  "detailRegistry = (\<lambda>n. if n = ''SNJ_SRP_DETAIL'' then Some detailSchema else None)"

definition detailColumns :: "(string \<times> string) list" where
  "detailColumns = [(''BILL_NO'', ''nvarchar''), (''SALES_DATE'', ''date''), (''ORG_CODE_NAME'', ''nvarchar'')]"

definition threeBills :: "jsrow list" where
  "threeBills =
     [[(''BILL_NO'', JStr ''B1''), (''ORG_CODE_NAME'', JStr ''S1'')],
      [(''BILL_NO'', JStr ''BAD''), (''ORG_CODE_NAME'', JStr ''S1'')],
      [(''BILL_NO'', JStr ''B3''), (''ORG_CODE_NAME'', JStr ''S1'')]]"

definition repeatedBill :: "jsrow list" where
  "repeatedBill =
     [[(''BILL_NO'', JStr ''B1''), (''ORG_CODE_NAME'', JStr ''S1'')],
      [(''BILL_NO'', JStr ''B1''), (''ORG_CODE_NAME'', JStr ''S2'')],
      [(''BILL_NO'', JStr ''B3''), (''ORG_CODE_NAME'', JStr ''S1'')]]"

definition oldRows :: "dbrow list" where
  "oldRows = [[(''BILL_NO'', PText ''A1'')], [(''BILL_NO'', PText ''A2'')]]"

definition billStatement :: "string \<Rightarrow> string \<Rightarrow> insertStmt" where
  "billStatement bill store =
     \<lparr>ins_table = ''SNJ_SRP_DETAIL'', ins_columns = [''BILL_NO'', ''ORG_CODE_NAME''],
      ins_params = [PText bill, PText store]\<rparr>"

definition noteOnly :: "jsrow list" where
  "noteOnly = [[(''NOTE'', JStr ''x'')]]"

definition inheritedName :: "jsrow list" where
  "inheritedName = [[(''toString'', JStr ''x'')]]"

definition lockedDriver :: driver where
  "lockedDriver =
     \<lparr>connectError = None, provisionError = None, metadataError = None, beginError = None,
      deleteError = Some ''deadlock victim'', commitError = None, rollbackError = None,
      rowError = (\<lambda>rows q. None), readDate = dayNumber, castDate = dayNumber\<rparr>"

definition datedBill :: "jsrow list" where
  "datedBill = [[(''BILL_NO'', JStr ''B9''), (''SALES_DATE'', JStr ''5 Jan 2025'')]]"

definition twoDatabases :: "connection list" where
  "twoDatabases =
     [\<lparr>conn_name = ''Database 1'', conn_enabled = True\<rparr>,
      \<lparr>conn_name = ''Database 2'', conn_enabled = True\<rparr>]"

definition tanggalOnly :: "jsrow list" where
  "tanggalOnly = [[(''Tanggal'', JStr ''2025-01-05'')]]"

definition extraColumn :: "jsrow list" where
  "extraColumn = [[(''BILL_NO'', JStr ''B1''), (''EXTRA'', JStr ''x'')]]"

definition acceptingDriver :: driver where
  "acceptingDriver =
     \<lparr>connectError = None, provisionError = None, metadataError = None, beginError = None,
      deleteError = None, commitError = None, rollbackError = None,
      rowError = (\<lambda>rows q. None), readDate = dayNumber, castDate = dayNumber\<rparr>"

definition invoiceSchema :: tableSchema where
  "invoiceSchema =
     \<lparr>columns = [(''Tanggal'', ''DATE''), (''SALES_DATE'', ''DATE''), (''Gudang'', ''NVARCHAR(100)'')],
      primaryKey = [], indexes = [],
      numericColumns = None, dateColumns = Some [''Tanggal'', ''SALES_DATE''],
      columnMapping = None\<rparr>"

definition bothRegistry :: schemas where
  "bothRegistry =
     (\<lambda>n. if n = ''SNJ_SRP_DETAIL'' then Some detailSchema
          else if n = ''SALES_INVOICE_ACCURATE_ONLINE'' then Some invoiceSchema else None)"

definition invoiceColumns :: "(string \<times> string) list" where
  "invoiceColumns = [(''Tanggal'', ''date''), (''SALES_DATE'', ''date''), (''Gudang'', ''nvarchar'')]"

definition mixedStores :: "jsrow list" where
  "mixedStores =
     [[(''SALES_DATE'', JStr ''2025-01-05''), (''ORG_CODE_NAME'', JStr ''S1'')],
      [(''SALES_DATE'', JStr ''2025-01-05''), (''ORG_CODE_NAME'', JStr [])]]"

definition slashDates :: "jsrow list" where
  "slashDates = [[(''SALES_DATE'', JStr ''1/5/2025'')], [(''SALES_DATE'', JStr ''12/25/2024'')]]"

definition twoDateColumns :: "jsrow list" where
  "twoDateColumns = [[(''Tanggal'', JStr ''2025-01-05''), (''SALES_DATE'', JStr ''2024-01-01'')]]"

definition exponentStore :: "jsrow list" where
  "exponentStore = [[(''SALES_DATE'', JStr ''2025-01-05''), (''ORG_CODE_NAME'', JStr ''1e5'')]]"

definition twoStores :: "jsrow list" where
  "twoStores =
     [[(''SALES_DATE'', JStr ''5 Jan 2025''), (''ORG_CODE_NAME'', JStr ''S1'')],
      [(''SALES_DATE'', JStr ''2025-02-01''), (''ORG_CODE_NAME'', JStr ''S2'')]]"

section \<open>Properties of the value coercion\<close>

lemmas numeric_eval =
  parseNumeric_def normalizeSeparators_def lastIndexOf_def trim_def is_space_def parseFloat_def
  is_digit_def digitsValue_def exponentPart_def scale10_def isNaN_def

lemmas date_eval =
  parseDate_def trim_def is_space_def matchDateHere_def is_digit_def is_alpha_def monthMap_def
  toLowerCase_def toLowerChar_def padStart2_def Let_def

lemma trim_around:
  "\<not> is_space c \<Longrightarrow> trim (a @ c # b) = dropWhile is_space a @ c # rev (dropWhile is_space (rev b))"
  by (simp add: trim_def dropWhile_append3)

lemma lastIndexFrom_absent: "c \<notin> set s \<Longrightarrow> lastIndexFrom i c s found = found"
  by (induction s arbitrary: i found) auto

lemma lastIndexFrom_last:
  "c \<notin> set y \<Longrightarrow> lastIndexFrom i c (x @ c # y) found = int (i + length x)"
  by (induction x arbitrary: i found) (auto simp: lastIndexFrom_absent)

lemma lastIndexOf_absent: "c \<notin> set s \<Longrightarrow> lastIndexOf s c = - 1"
  by (simp add: lastIndexOf_def lastIndexFrom_absent)

lemma lastIndexOf_last: "c \<notin> set y \<Longrightarrow> lastIndexOf (x @ c # y) c = int (length x)"
  by (simp add: lastIndexOf_def lastIndexFrom_last)

lemma lastIndexOf_before:
  assumes "c \<notin> set y" "c \<noteq> d"
  shows "lastIndexOf (x @ d # y) c < int (length x)"
proof (cases "c \<in> set x")
  case False
  with assms have "c \<notin> set (x @ d # y)" by auto
  then show ?thesis by (simp add: lastIndexOf_absent)
next
  case True
  then obtain p q where x: "x = p @ c # q" and "c \<notin> set q"
    by (meson split_list_last)
  with assms have "c \<notin> set (q @ d # y)" by auto
  then have "lastIndexOf (p @ c # (q @ d # y)) c = int (length p)"
    by (rule lastIndexOf_last)
  then show ?thesis by (simp add: x)
qed

lemma filter_absent: "c \<notin> set s \<Longrightarrow> filter (\<lambda>x. x \<noteq> c) s = s"
  by (induction s) auto

lemma replaceFirst_first: "a \<notin> set x \<Longrightarrow> replaceFirst a b (x @ a # y) = x @ b # y"
  by (induction x) auto

lemma normalize_dot_decimal:
  assumes "CHR ''.'' \<notin> set y" "CHR '','' \<notin> set y"
  shows "normalizeSeparators (x @ CHR ''.'' # y) = filter (\<lambda>c. c \<noteq> CHR '','') x @ CHR ''.'' # y"
proof -
  have "lastIndexOf (x @ CHR ''.'' # y) CHR ''.'' = int (length x)"
    using assms by (simp add: lastIndexOf_last)
  moreover have "lastIndexOf (x @ CHR ''.'' # y) CHR '','' < int (length x)"
    using assms by (intro lastIndexOf_before) auto
  ultimately show ?thesis
    using assms by (simp add: normalizeSeparators_def filter_absent)
qed

lemma normalize_comma_decimal:
  assumes "CHR ''.'' \<notin> set y" "CHR '','' \<notin> set y" "CHR '','' \<notin> set x"
  shows "normalizeSeparators (x @ CHR '','' # y) = filter (\<lambda>c. c \<noteq> CHR ''.'') x @ CHR ''.'' # y"
proof -
  have "lastIndexOf (x @ CHR '','' # y) CHR '','' = int (length x)"
    using assms by (simp add: lastIndexOf_last)
  moreover have "lastIndexOf (x @ CHR '','' # y) CHR ''.'' < int (length x)"
    using assms by (intro lastIndexOf_before) auto
  moreover have "CHR '','' \<notin> set (filter (\<lambda>c. c \<noteq> CHR ''.'') x)"
    using assms by auto
  ultimately show ?thesis
    using assms by (simp add: normalizeSeparators_def filter_absent replaceFirst_first)
qed

lemma set_dropWhile_subset: "set (dropWhile P xs) \<subseteq> set xs"
  by (induction xs) auto

lemma single_separator_text:
  assumes "CHR ''.'' \<notin> set (a @ b)" "CHR '','' \<notin> set (a @ b)"
  shows "normalizeSeparators (trim (a @ CHR ''.'' # b)) = normalizeSeparators (trim (a @ CHR '','' # b))"
proof -
  let ?a = "dropWhile is_space a" and ?b = "rev (dropWhile is_space (rev b))"
  have sa: "set ?a \<subseteq> set a" by (rule set_dropWhile_subset)
  have "set (dropWhile is_space (rev b)) \<subseteq> set (rev b)" by (rule set_dropWhile_subset)
  then have sb: "set ?b \<subseteq> set b" by simp
  have ta: "trim (a @ CHR ''.'' # b) = ?a @ CHR ''.'' # ?b"
    by (rule trim_around) (simp add: is_space_def)
  have tb: "trim (a @ CHR '','' # b) = ?a @ CHR '','' # ?b"
    by (rule trim_around) (simp add: is_space_def)
  have na: "CHR ''.'' \<notin> set ?a" "CHR '','' \<notin> set ?a" using assms sa by auto
  have nb: "CHR ''.'' \<notin> set ?b" "CHR '','' \<notin> set ?b" using assms sb by auto
  show ?thesis
    unfolding ta tb using na nb
    by (simp add: normalize_dot_decimal normalize_comma_decimal filter_absent)
qed

text \<open>
  Claim C6. \<^verbatim>\<open>parseNumeric\<close> takes the separator that occurs last as the decimal
  mark: \<^verbatim>\<open>"55,000.50"\<close> and \<^verbatim>\<open>"55.000,50"\<close> both give 55000.50; a text with a single
  separator and no other one gives the same result whether the separator is a dot or a
  comma; and in general a last dot strips the commas before it, a last comma strips the
  dots before it and becomes the dot.
\<close>

theorem parseNumeric_separators:
  "parseNumeric (JStr ''55,000.50'') = Some (Finite (55000.50)) \<and>
   parseNumeric (JStr ''55.000,50'') = Some (Finite (55000.50)) \<and>
   (\<forall>a b. CHR ''.'' \<notin> set (a @ b) \<and> CHR '','' \<notin> set (a @ b) \<longrightarrow>
      parseNumeric (JStr (a @ ''.'' @ b)) = parseNumeric (JStr (a @ '','' @ b))) \<and>
   (\<forall>x y. CHR ''.'' \<notin> set y \<and> CHR '','' \<notin> set y \<longrightarrow>
      normalizeSeparators (x @ ''.'' @ y) = filter (\<lambda>c. c \<noteq> CHR '','') x @ ''.'' @ y) \<and>
   (\<forall>x y. CHR ''.'' \<notin> set y \<and> CHR '','' \<notin> set y \<and> CHR '','' \<notin> set x \<longrightarrow>
      normalizeSeparators (x @ '','' @ y) = filter (\<lambda>c. c \<noteq> CHR ''.'') x @ ''.'' @ y)"
proof (intro conjI allI impI)
  show "parseNumeric (JStr ''55,000.50'') = Some (Finite (55000.50))"
    by (simp add: numeric_eval)
  show "parseNumeric (JStr ''55.000,50'') = Some (Finite (55000.50))"
    by (simp add: numeric_eval)
next
  fix a b assume "CHR ''.'' \<notin> set (a @ b) \<and> CHR '','' \<notin> set (a @ b)"
  then have "normalizeSeparators (trim (a @ CHR ''.'' # b)) = normalizeSeparators (trim (a @ CHR '','' # b))"
    by (intro single_separator_text) auto
  then show "parseNumeric (JStr (a @ ''.'' @ b)) = parseNumeric (JStr (a @ '','' @ b))"
    by (simp add: parseNumeric_def)
next
  fix x y assume "CHR ''.'' \<notin> set y \<and> CHR '','' \<notin> set y"
  then show "normalizeSeparators (x @ ''.'' @ y) = filter (\<lambda>c. c \<noteq> CHR '','') x @ ''.'' @ y"
    by (simp add: normalize_dot_decimal)
next
  fix x y assume "CHR ''.'' \<notin> set y \<and> CHR '','' \<notin> set y \<and> CHR '','' \<notin> set x"
  then show "normalizeSeparators (x @ '','' @ y) = filter (\<lambda>c. c \<noteq> CHR ''.'') x @ ''.'' @ y"
    by (simp add: normalize_comma_decimal)
qed

text \<open>
  The general parts of C6 at concrete texts.
\<close>

theorem parseNumeric_separators_witness:
  "parseNumeric (JStr ''12.5'') = parseNumeric (JStr ''12,5'') \<and>
   parseNumeric (JStr ''12,5'') = Some (Finite 12.5) \<and>
   normalizeSeparators ''1,234,567.25'' = ''1234567.25'' \<and>
   normalizeSeparators ''1.234.567,25'' = ''1234567.25''"
proof -
  note t = parseNumeric_separators [THEN conjunct2, THEN conjunct2]
  have a: "parseNumeric (JStr (''12'' @ ''.'' @ ''5'')) = parseNumeric (JStr (''12'' @ '','' @ ''5''))"
    using t [THEN conjunct1, rule_format, of "''12''" "''5''"] by simp
  have b: "parseNumeric (JStr ''12,5'') = Some (Finite 12.5)" by (simp add: numeric_eval)
  have c: "normalizeSeparators (''1,234,567'' @ ''.'' @ ''25'') = filter (\<lambda>c. c \<noteq> CHR '','') ''1,234,567'' @ ''.'' @ ''25''"
    using t [THEN conjunct2, THEN conjunct1, rule_format, of "''25''" "''1,234,567''"] by simp
  have d: "normalizeSeparators (''1.234.567'' @ '','' @ ''25'') = filter (\<lambda>c. c \<noteq> CHR ''.'') ''1.234.567'' @ ''.'' @ ''25''"
    using t [THEN conjunct2, THEN conjunct2, rule_format, of "''25''" "''1.234.567''"] by simp
  from a b c d show ?thesis by simp
qed


text \<open>
  Claim C7 as stated fails: the text \<^verbatim>\<open>Infinity\<close> does not parse as a finite number, and
  \<^verbatim>\<open>parseNumeric\<close> returns the infinity, because its guard is \<^verbatim>\<open>isNaN\<close>.
\<close>

theorem parseNumeric_infinity_counterexample:
  "parseFloat (normalizeSeparators (trim ''Infinity'')) = PosInfinity \<and>
   parseNumeric (JStr ''Infinity'') = Some PosInfinity"
  by (simp add: numeric_eval)

text \<open>
  Claim C7, amended. \<^verbatim>\<open>parseNumeric\<close> has no failing branch; it returns \<^verbatim>\<open>null\<close> for
  \<^verbatim>\<open>null\<close>, \<^verbatim>\<open>undefined\<close> and the empty text, and for every other text exactly when the
  normalised text parses to \<^verbatim>\<open>NaN\<close>; otherwise it returns what \<^verbatim>\<open>parseFloat\<close> read. It
  never returns \<^verbatim>\<open>NaN\<close>.
\<close>

theorem parseNumeric_null_iff_nan:
  "parseNumeric JNull = None \<and> parseNumeric JUndefined = None \<and> parseNumeric (JStr []) = None \<and>
   (\<forall>s. s \<noteq> [] \<and> parseFloat (normalizeSeparators (trim s)) = NaN \<longrightarrow>
      parseNumeric (JStr s) = None) \<and>
   (\<forall>s. s \<noteq> [] \<and> parseFloat (normalizeSeparators (trim s)) \<noteq> NaN \<longrightarrow>
      parseNumeric (JStr s) = Some (parseFloat (normalizeSeparators (trim s)))) \<and>
   (\<forall>v. parseNumeric v \<noteq> Some NaN)"
  by (auto simp: parseNumeric_def isNaN_def Let_def split: jsval.splits if_splits)

text \<open>
  The amended C7 at a text that is no number and at one that is.
\<close>

theorem parseNumeric_null_iff_nan_witness:
  "parseNumeric (JStr ''abc'') = None \<and> parseNumeric (JStr ''1.234,5'') = Some (Finite 1234.5)"
proof -
  have a: "parseFloat (normalizeSeparators (trim ''abc'')) = NaN" by (simp add: numeric_eval)
  have b: "parseFloat (normalizeSeparators (trim ''1.234,5'')) = Finite 1234.5"
    by (simp add: numeric_eval)
  note t = parseNumeric_null_iff_nan [THEN conjunct2, THEN conjunct2, THEN conjunct2]
  from t [THEN conjunct1, rule_format, of "''abc''"] a
  have "parseNumeric (JStr ''abc'') = None" by simp
  moreover from t [THEN conjunct2, THEN conjunct1, rule_format, of "''1.234,5''"] b
  have "parseNumeric (JStr ''1.234,5'') = Some (Finite 1234.5)" by simp
  ultimately show ?thesis by simp
qed

lemma matchDateHere_shape:
  "matchDateHere s = Some (d, m, y) \<Longrightarrow> d \<noteq> [] \<and> length d \<le> 2 \<and> length y = 4"
  by (auto simp: matchDateHere_def Let_def split: if_splits)

lemma matchDate_shape:
  "matchDate s = Some (d, m, y) \<Longrightarrow> d \<noteq> [] \<and> length d \<le> 2 \<and> length y = 4"
proof (induction s)
  case Nil
  then show ?case by simp
next
  case (Cons c cs)
  show ?case
  proof (cases "matchDateHere (c # cs)")
    case None
    with Cons show ?thesis by simp
  next
    case (Some t)
    with Cons.prems have "matchDateHere (c # cs) = Some (d, m, y)" by simp
    then show ?thesis by (rule matchDateHere_shape)
  qed
qed

lemma monthMap_two_digits: "monthMap k = Some mm \<Longrightarrow> length mm = 2"
  by (auto simp: monthMap_def split: if_splits)

lemma padStart2_length: "d \<noteq> [] \<Longrightarrow> length d \<le> 2 \<Longrightarrow> length (padStart2 d) = 2"
  by (auto simp: padStart2_def)

lemma takeWhile_none: "\<forall>c \<in> set xs. \<not> P c \<Longrightarrow> takeWhile P xs = []"
  by (cases xs) simp_all

lemma matchDateHere_needs_letter:
  assumes "\<forall>c \<in> set s. \<not> is_alpha c"
  shows "matchDateHere s = None"
proof -
  have "set (dropWhile is_space (drop n s)) \<subseteq> set s" for n
    using set_dropWhile_subset [of is_space "drop n s"] set_drop_subset [of n s] by blast
  with assms have "\<forall>c \<in> set (dropWhile is_space (drop n s)). \<not> is_alpha c" for n by blast
  then have "takeWhile is_alpha (dropWhile is_space (drop n s)) = []" for n
    by (rule takeWhile_none)
  then show ?thesis by (simp add: matchDateHere_def Let_def)
qed

lemma matchDate_needs_letter: "\<forall>c \<in> set s. \<not> is_alpha c \<Longrightarrow> matchDate s = None"
  by (induction s) (simp_all add: matchDateHere_needs_letter)

lemma digit_not_alpha: "is_digit c \<Longrightarrow> \<not> is_alpha c"
  by (auto simp: is_digit_def is_alpha_def Let_def)

lemma isDayMonthYear_no_letter:
  assumes "isDayMonthYear s"
  shows "\<forall>c \<in> set s. \<not> is_alpha c"
proof
  fix c assume "c \<in> set s"
  from assms have len: "length s = 10"
    and d1: "list_all is_digit (take 2 s)" and d2: "list_all is_digit (take 2 (drop 3 s))"
    and d3: "list_all is_digit (drop 6 s)" and h1: "s ! 2 = CHR ''-''" and h2: "s ! 5 = CHR ''-''"
    by (simp_all add: isDayMonthYear_def)
  from \<open>c \<in> set s\<close> len obtain i where i: "i < 10" "s ! i = c"
    by (auto simp: in_set_conv_nth)
  have hy: "\<not> is_alpha CHR ''-''" by (simp add: is_alpha_def)
  consider "i < 2" | "i = 2" | "3 \<le> i \<and> i < 5" | "i = 5" | "6 \<le> i" by linarith
  then show "\<not> is_alpha c"
  proof cases
    case 1
    with d1 len have "is_digit (take 2 s ! i)" by (simp add: list_all_length)
    with 1 i show ?thesis by (simp add: digit_not_alpha)
  next
    case 2
    with h1 i hy show ?thesis by simp
  next
    case 3
    from d2 len have "\<forall>n<2. is_digit (s ! (3 + n))" by (simp add: list_all_length)
    moreover from 3 have "i - 3 < 2" by linarith
    moreover from 3 have "3 + (i - 3) = i" by linarith
    ultimately have "is_digit (s ! i)" by metis
    with i show ?thesis by (simp add: digit_not_alpha)
  next
    case 4
    with h2 i hy show ?thesis by simp
  next
    case 5
    from d3 len have "\<forall>n<4. is_digit (s ! (6 + n))" by (simp add: list_all_length)
    moreover from 5 i have "i - 6 < 4" by linarith
    moreover from 5 have "6 + (i - 6) = i" by linarith
    ultimately have "is_digit (s ! i)" by metis
    with i show ?thesis by (simp add: digit_not_alpha)
  qed
qed

text \<open>
  Claim C8, refuted as stated: \<^verbatim>\<open>parseDate("25-11-2025")\<close> is \<^verbatim>\<open>"25-11-2025"\<close>, not
  \<^verbatim>\<open>"2025-11-25"\<close>. The \<^verbatim>\<open>DD-MM-YYYY\<close> rewrite is a step of the window computation of
  server.js alone, which does not call \<^verbatim>\<open>parseDate\<close>, reads no month name and does not
  trim: it leaves \<^verbatim>\<open>"25 Nov 2025"\<close> and \<^verbatim>\<open>" 25-11-2025"\<close> as they are. No function of
  the program has all the properties the claim gives to \<^verbatim>\<open>coerceDate\<close>.
\<close>

theorem parseDate_day_month_year_counterexample:
  "parseDate (JStr ''25-11-2025'') = Some ''25-11-2025'' \<and>
   fixDateFormat ''25 Nov 2025'' = ''25 Nov 2025'' \<and>
   fixDateFormat '' 25-11-2025'' = '' 25-11-2025''"
proof (intro conjI)
  show "parseDate (JStr ''25-11-2025'') = Some ''25-11-2025''" by (simp add: date_eval)
  show "fixDateFormat ''25 Nov 2025'' = ''25 Nov 2025''"
    by (simp add: fixDateFormat_def isDayMonthYear_def)
  show "fixDateFormat '' 25-11-2025'' = '' 25-11-2025''"
    by (simp add: fixDateFormat_def isDayMonthYear_def)
qed

text \<open>
  Claim C8, amended. \<^verbatim>\<open>parseDate("25 Nov 2025")\<close> is \<^verbatim>\<open>"2025-11-25"\<close> and the empty
  text, \<^verbatim>\<open>null\<close> and \<^verbatim>\<open>undefined\<close> give \<^verbatim>\<open>null\<close>. Whenever the day, month-name, year
  pattern matches with a month name of the table, the result is \<^verbatim>\<open>YYYY-MM-DD\<close> with a
  two-digit day. Every other non-empty text comes back trimmed and otherwise unchanged:
  a text the pattern does not match, a text it matches with a word that is no month
  name, and in particular every \<^verbatim>\<open>DD-MM-YYYY\<close> text. The \<^verbatim>\<open>DD-MM-YYYY\<close> rewrite belongs
  to server.js: there \<^verbatim>\<open>"25-11-2025"\<close> becomes \<^verbatim>\<open>"2025-11-25"\<close> and any text that is not
  exactly of that form is kept.
\<close>

theorem parseDate_named_month_or_trimmed:
  "parseDate (JStr ''25 Nov 2025'') = Some ''2025-11-25'' \<and>
   parseDate (JStr ''5 Nov 2025'') = Some ''2025-11-05'' \<and>
   parseDate (JStr []) = None \<and> parseDate JNull = None \<and> parseDate JUndefined = None \<and>
   (\<forall>s day mon year month.
      s \<noteq> [] \<and> matchDate (trim s) = Some (day, mon, year) \<and>
      monthMap (take 3 (toLowerCase mon)) = Some month \<longrightarrow>
      parseDate (JStr s) = Some (year @ ''-'' @ month @ ''-'' @ padStart2 day) \<and>
      length year = 4 \<and> length month = 2 \<and> length (padStart2 day) = 2) \<and>
   (\<forall>s. s \<noteq> [] \<and> \<not> namedMonthDate (trim s) \<longrightarrow> parseDate (JStr s) = Some (trim s)) \<and>
   (\<forall>s. isDayMonthYear (trim s) \<longrightarrow> parseDate (JStr s) = Some (trim s)) \<and>
   fixDateFormat ''25-11-2025'' = ''2025-11-25'' \<and>
   (\<forall>s. \<not> isDayMonthYear s \<longrightarrow> fixDateFormat s = s)"
proof (intro conjI allI impI)
  show "parseDate (JStr ''25 Nov 2025'') = Some ''2025-11-25''" by (simp add: date_eval)
  show "parseDate (JStr ''5 Nov 2025'') = Some ''2025-11-05''" by (simp add: date_eval)
  show "parseDate (JStr []) = None" "parseDate JNull = None" "parseDate JUndefined = None"
    by (simp_all add: parseDate_def)
  show "fixDateFormat ''25-11-2025'' = ''2025-11-25''"
    by (simp add: fixDateFormat_def isDayMonthYear_def is_digit_def)
next
  fix s day mon year month
  assume h: "s \<noteq> [] \<and> matchDate (trim s) = Some (day, mon, year) \<and>
             monthMap (take 3 (toLowerCase mon)) = Some month"
  then show "parseDate (JStr s) = Some (year @ ''-'' @ month @ ''-'' @ padStart2 day)"
    by (simp add: parseDate_def)
  from h have sh: "day \<noteq> [] \<and> length day \<le> 2 \<and> length year = 4"
    by (intro matchDate_shape [of "trim s" day mon year]) simp
  then show "length year = 4" by simp
  from h show "length month = 2" by (intro monthMap_two_digits [of "take 3 (toLowerCase mon)"]) simp
  from sh show "length (padStart2 day) = 2" by (simp add: padStart2_length)
next
  fix s assume "s \<noteq> [] \<and> \<not> namedMonthDate (trim s)"
  then show "parseDate (JStr s) = Some (trim s)"
    by (auto simp: parseDate_def namedMonthDate_def split: option.splits)
next
  fix s assume h: "isDayMonthYear (trim s)"
  then have "trim s \<noteq> []" by (auto simp: isDayMonthYear_def)
  then have "s \<noteq> []" by (auto simp: trim_def)
  moreover from h have "matchDate (trim s) = None"
    by (intro matchDate_needs_letter isDayMonthYear_no_letter)
  ultimately show "parseDate (JStr s) = Some (trim s)" by (simp add: parseDate_def)
next
  fix s assume "\<not> isDayMonthYear s"
  then show "fixDateFormat s = s" by (simp add: fixDateFormat_def)
qed

text \<open>
  The general parts of the amended C8 at concrete texts: a month name of the table, a
  word that is no month name, a text without letters, a \<^verbatim>\<open>DD-MM-YYYY\<close> text with blanks
  around it, and an ISO text in the rewrite of server.js.
\<close>

theorem parseDate_named_month_or_trimmed_witness:
  "parseDate (JStr ''  7 agustus 2024 '') = Some ''2024-08-07'' \<and>
   parseDate (JStr ''25 Foo 2025'') = Some ''25 Foo 2025'' \<and>
   parseDate (JStr '' 2025/11/25 '') = Some ''2025/11/25'' \<and>
   parseDate (JStr '' 25-11-2025 '') = Some ''25-11-2025'' \<and>
   fixDateFormat ''2025-11-25'' = ''2025-11-25''"
proof -
  note t = parseDate_named_month_or_trimmed [THEN conjunct2, THEN conjunct2, THEN conjunct2,
      THEN conjunct2, THEN conjunct2]
  have m: "matchDate (trim ''  7 agustus 2024 '') = Some (''7'', ''agustus'', ''2024'')"
    by (simp add: date_eval)
  have k: "monthMap (take 3 (toLowerCase ''agustus'')) = Some ''08''" by (simp add: date_eval)
  have f: "trim ''25 Foo 2025'' = ''25 Foo 2025''" "\<not> namedMonthDate ''25 Foo 2025''"
    by (simp_all add: namedMonthDate_def date_eval)
  have n: "trim '' 2025/11/25 '' = ''2025/11/25''" "\<not> namedMonthDate ''2025/11/25''"
    by (simp_all add: namedMonthDate_def date_eval)
  have d: "trim '' 25-11-2025 '' = ''25-11-2025''" "isDayMonthYear ''25-11-2025''"
    by (simp_all add: isDayMonthYear_def date_eval)
  have i: "\<not> isDayMonthYear ''2025-11-25''" by (simp add: isDayMonthYear_def is_digit_def)
  from t [THEN conjunct1, rule_format, of "''  7 agustus 2024 ''" "''7''" "''agustus''" "''2024''" "''08''"] m k
  have a: "parseDate (JStr ''  7 agustus 2024 '') = Some ''2024-08-07''"
    by (simp add: padStart2_def)
  from t [THEN conjunct2, THEN conjunct1, rule_format, of "''25 Foo 2025''"] f
  have b: "parseDate (JStr ''25 Foo 2025'') = Some ''25 Foo 2025''" by simp
  from t [THEN conjunct2, THEN conjunct1, rule_format, of "'' 2025/11/25 ''"] n
  have c: "parseDate (JStr '' 2025/11/25 '') = Some ''2025/11/25''" by simp
  from t [THEN conjunct2, THEN conjunct2, THEN conjunct1, rule_format, of "'' 25-11-2025 ''"] d
  have e: "parseDate (JStr '' 25-11-2025 '') = Some ''25-11-2025''" by simp
  from t [THEN conjunct2, THEN conjunct2, THEN conjunct2, THEN conjunct2, rule_format,
      of "''2025-11-25''"] i
  have g: "fixDateFormat ''2025-11-25'' = ''2025-11-25''" by simp
  from a b c e g show ?thesis by simp
qed

section \<open>Column mapping and the insert loop of the watcher\<close>

lemma update_entries: "set (AList.update k v al) \<subseteq> insert (k, v) (set al)"
  by (induction al) auto

lemma mapEntry_keys:
  "fst ` set (mapEntry row e acc) =
     (if fst e \<in> fst ` set row \<and> snd e \<noteq> ''__proto__''
      then insert (snd e) (fst ` set acc) else fst ` set acc)"
proof (cases "map_of row (fst e)")
  case None
  then have "fst e \<notin> fst ` set row" by (simp add: map_of_eq_None_iff)
  with None show ?thesis by (simp add: mapEntry_def)
next
  case (Some v)
  then have "fst e \<in> fst ` set row" by (metis map_of_eq_None_iff option.distinct(1))
  with Some show ?thesis by (simp add: mapEntry_def dom_update)
qed

lemma fold_mapEntry_keys:
  "fst ` set (fold (mapEntry row) m acc) =
     fst ` set acc \<union> {d. \<exists>s. (s, d) \<in> set m \<and> s \<in> fst ` set row \<and> d \<noteq> ''__proto__''}"
proof (induction m arbitrary: acc)
  case Nil
  then show ?case by simp
next
  case (Cons e m)
  obtain s d where e: "e = (s, d)" by (cases e)
  show ?case
    unfolding fold_simps Cons.IH mapEntry_keys e by auto
qed

lemma fold_mapEntry_distinct:
  "distinct (map fst acc) \<Longrightarrow> distinct (map fst (fold (mapEntry row) m acc))"
proof (induction m arbitrary: acc)
  case Nil
  then show ?case by simp
next
  case (Cons e m)
  have "distinct (map fst (mapEntry row e acc))"
    using Cons.prems by (simp add: mapEntry_def distinct_update split: option.splits)
  then show ?case by (simp add: Cons.IH)
qed

lemma fold_mapEntry_values:
  assumes "\<forall>(d, v) \<in> set acc. \<exists>s. (s, d) \<in> M \<and> map_of row s = Some v" "set m \<subseteq> M"
  shows "\<forall>(d, v) \<in> set (fold (mapEntry row) m acc). \<exists>s. (s, d) \<in> M \<and> map_of row s = Some v"
  using assms
proof (induction m arbitrary: acc)
  case Nil
  then show ?case by simp
next
  case (Cons e m)
  have "\<forall>(d, v) \<in> set (mapEntry row e acc). \<exists>s. (s, d) \<in> M \<and> map_of row s = Some v"
  proof (cases "map_of row (fst e)")
    case None
    with Cons.prems show ?thesis by (simp add: mapEntry_def)
  next
    case (Some v)
    have "(fst e, snd e) \<in> M" using Cons.prems(2) by auto
    show ?thesis
    proof (clarify)
      fix d w assume "(d, w) \<in> set (mapEntry row e acc)"
      with Some have "(d, w) \<in> set (AList.update (snd e) v acc) \<or> (d, w) \<in> set acc"
        by (simp add: mapEntry_def split: if_splits)
      with update_entries [of "snd e" v acc] have "(d, w) = (snd e, v) \<or> (d, w) \<in> set acc"
        by auto
      then show "\<exists>s. (s, d) \<in> M \<and> map_of row s = Some w"
      proof
        assume "(d, w) = (snd e, v)"
        then have "d = snd e" "w = v" by simp_all
        with Some \<open>(fst e, snd e) \<in> M\<close> have "(fst e, d) \<in> M \<and> map_of row (fst e) = Some w"
          by simp
        then show ?thesis by (rule exI)
      next
        assume "(d, w) \<in> set acc"
        with Cons.prems(1) show ?thesis by auto
      qed
    qed
  qed
  moreover have "set m \<subseteq> M" using Cons.prems(2) by simp
  ultimately show ?case by (simp add: Cons.IH)
qed

text \<open>
  What \<^verbatim>\<open>mapColumns\<close> does for a record that has no column named \<^verbatim>\<open>hasOwnProperty\<close>: the
  mapped record has exactly the destination names of the mapping entries whose source
  key the record has (the name \<^verbatim>\<open>__proto__\<close> apart), each once, and each value is the
  record's value of such a source key.
\<close>

lemma mapColumns_projects:
  assumes "reg t = Some schema" "columnMapping schema = Some mapping"
    and "map_of row ''hasOwnProperty'' = None"
  shows "\<exists>m. mapColumns reg row t = Inr m \<and>
             fst ` set m = {d. \<exists>s. (s, d) \<in> set mapping \<and> s \<in> fst ` set row \<and> d \<noteq> ''__proto__''} \<and>
             distinct (map fst m) \<and>
             (\<forall>(d, v) \<in> set m. \<exists>s. (s, d) \<in> set mapping \<and> map_of row s = Some v)"
proof -
  from assms have mc: "mapColumns reg row t = Inr (fold (mapEntry row) mapping [])"
    by (simp add: mapColumns_def)
  have "fst ` set (fold (mapEntry row) mapping []) =
          {d. \<exists>s. (s, d) \<in> set mapping \<and> s \<in> fst ` set row \<and> d \<noteq> ''__proto__''}"
    unfolding fold_mapEntry_keys by simp
  moreover have "distinct (map fst (fold (mapEntry row) mapping []))"
    by (rule fold_mapEntry_distinct) simp
  moreover have "\<forall>(d, v) \<in> set (fold (mapEntry row) mapping []).
                   \<exists>s. (s, d) \<in> set mapping \<and> map_of row s = Some v"
    by (rule fold_mapEntry_values) simp_all
  ultimately show ?thesis using mc by blast
qed

lemma mapColumns_passes_through:
  assumes "reg t = None \<or> (\<exists>schema. reg t = Some schema \<and> columnMapping schema = None)"
  shows "mapColumns reg row t = Inr row"
  using assms by (auto simp: mapColumns_def)

lemma mapAll_passes_through:
  assumes "reg t = None \<or> (\<exists>schema. reg t = Some schema \<and> columnMapping schema = None)"
  shows "mapAll reg t data = Inr data"
proof -
  have "mapColumns reg row t = Inr row" for row
    using assms by (auto simp: mapColumns_def)
  then show ?thesis by (induction data) simp_all
qed

lemma mapAll_length: "mapAll reg t data = Inr m \<Longrightarrow> length m = length data"
  by (induction data arbitrary: m) (auto split: sum.splits)

lemma mappedRows_returned: "mapAll reg (detectTableName f data) data = Inr m \<Longrightarrow> mappedRows reg data f = m"
  by (simp add: mappedRows_def)

text \<open>
  Claim C10 at a record that has a column named \<^verbatim>\<open>hasOwnProperty\<close>, under a schema with
  a \<^verbatim>\<open>columnMapping\<close>: \<^verbatim>\<open>csvRow.hasOwnProperty(csvCol)\<close> calls the cell of that column,
  which is no function, so \<^verbatim>\<open>mapColumns\<close> throws a \<^verbatim>\<open>TypeError\<close> instead of returning
  the projection. The same record without that column is projected to the two mapped
  columns.
\<close>

theorem mapColumns_shadowed_hasOwnProperty:
  "mapColumns invoiceRegistry
     [(''Tgl'', JStr ''2025-01-02''), (''Cabang'', JStr ''X''), (''hasOwnProperty'', JStr ''yes'')]
     ''SALES_INVOICE_ACCURATE_ONLINE'' = Inl ''csvRow.hasOwnProperty is not a function'' \<and>
   mapColumns invoiceRegistry
     [(''Tgl'', JStr ''2025-01-02''), (''Cabang'', JStr ''X'')]
     ''SALES_INVOICE_ACCURATE_ONLINE'' =
     Inr [(''Tanggal'', JStr ''2025-01-02''), (''Gudang'', JStr ''X'')]"
  by (simp add: mapColumns_def invoiceRegistry_def exampleSchema_def mapEntry_def)

lemma buildInsert_cases:
  obtains (stmt) q where "buildInsert rt reg t ct row = Statement q"
  | (err) msg where "buildInsert rt reg t ct row = BindError msg"
  by (cases "bindColumns (bindValue rt reg t ct) row") (simp_all add: buildInsert_def)

lemma insertRow_cases:
  obtains (ok) q where "buildInsert rt reg t ct row = Statement q"
      "rowError drv (txRows st) q = None"
      "txRows (insertRow rt drv reg t ct i row st) = txRows st @ [storedRow q]"
      "sent (insertRow rt drv reg t ct i row st) = sent st @ [Insert q]"
      "nSuccess (insertRow rt drv reg t ct i row st) = Suc (nSuccess st)"
      "nError (insertRow rt drv reg t ct i row st) = nError st"
      "written (insertRow rt drv reg t ct i row st) = written st"
  | (bad) q msg where "buildInsert rt reg t ct row = Statement q"
      "rowError drv (txRows st) q = Some msg"
      "txRows (insertRow rt drv reg t ct i row st) = txRows st"
      "sent (insertRow rt drv reg t ct i row st) = sent st @ [Insert q]"
      "nSuccess (insertRow rt drv reg t ct i row st) = nSuccess st"
      "nError (insertRow rt drv reg t ct i row st) = Suc (nError st)"
      "written (insertRow rt drv reg t ct i row st) = written st @ [LogRowError (Suc i) msg]"
  | (thrown) msg where "buildInsert rt reg t ct row = BindError msg"
      "txRows (insertRow rt drv reg t ct i row st) = txRows st"
      "sent (insertRow rt drv reg t ct i row st) = sent st"
      "nSuccess (insertRow rt drv reg t ct i row st) = nSuccess st"
      "nError (insertRow rt drv reg t ct i row st) = Suc (nError st)"
      "written (insertRow rt drv reg t ct i row st) = written st @ [LogRowError (Suc i) msg]"
proof (cases rule: buildInsert_cases [of rt reg t ct row])
  case (stmt q)
  show ?thesis
  proof (cases "rowError drv (txRows st) q")
    case None
    with stmt show ?thesis using ok [of q] by (simp add: insertRow_def execInsert_def)
  next
    case (Some msg)
    with stmt show ?thesis using bad [of q msg] by (simp add: insertRow_def execInsert_def)
  qed
next
  case (err msg)
  then show ?thesis using thrown [of msg] by (simp add: insertRow_def)
qed

lemma insertRows_counts:
  "nSuccess (insertRows rt drv reg t ct i xs st) + nError (insertRows rt drv reg t ct i xs st) =
     nSuccess st + nError st + length xs"
proof (induction xs arbitrary: i st)
  case Nil
  then show ?case by simp
next
  case (Cons row rest)
  show ?case
    by (cases rule: insertRow_cases [of rt reg t ct row drv st i]) (simp_all add: Cons.IH)
qed

lemma insertRows_sent:
  "sent (insertRows rt drv reg t ct i xs st) =
     sent st @ map Insert (statements (map (buildInsert rt reg t ct) xs))"
proof (induction xs arbitrary: i st)
  case Nil
  then show ?case by simp
next
  case (Cons row rest)
  show ?case
    by (cases rule: insertRow_cases [of rt reg t ct row drv st i]) (simp_all add: Cons.IH)
qed

lemma insertRows_grows:
  "\<exists>new. txRows (insertRows rt drv reg t ct i xs st) = txRows st @ new \<and>
         nSuccess (insertRows rt drv reg t ct i xs st) = nSuccess st + length new"
proof (induction xs arbitrary: i st)
  case Nil
  then show ?case by simp
next
  case (Cons row rest)
  let ?st = "insertRow rt drv reg t ct i row st"
  from Cons.IH [of "Suc i" ?st] obtain new where
    n: "txRows (insertRows rt drv reg t ct (Suc i) rest ?st) = txRows ?st @ new"
       "nSuccess (insertRows rt drv reg t ct (Suc i) rest ?st) = nSuccess ?st + length new"
    by blast
  show ?case
  proof (cases rule: insertRow_cases [of rt reg t ct row drv st i])
    case (ok q)
    with n show ?thesis by (intro exI [of _ "storedRow q # new"]) simp
  next
    case (bad q msg)
    with n show ?thesis by (intro exI [of _ new]) simp
  next
    case (thrown msg)
    with n show ?thesis by (intro exI [of _ new]) simp
  qed
qed

lemma storeVerdicts_accepted_head:
  assumes "storeVerdicts drv rows (q # qs) = None # vs"
  shows "rowError drv rows q = None \<and> storeVerdicts drv (rows @ [storedRow q]) qs = vs"
  using assms by (cases "rowError drv rows q") (simp_all add: execInsert_def)

lemma storeVerdicts_rejected_head:
  assumes "storeVerdicts drv rows (q # qs) = Some msg # vs"
  shows "rowError drv rows q = Some msg \<and> storeVerdicts drv rows qs = vs"
  using assms by (cases "rowError drv rows q") (simp_all add: execInsert_def)

lemma insertRows_accepted:
  assumes "map (buildInsert rt reg t ct) xs = map Statement qs"
    and "storeVerdicts drv (txRows st) qs = replicate (length qs) None"
  shows "txRows (insertRows rt drv reg t ct i xs st) = txRows st @ map storedRow qs \<and>
         nSuccess (insertRows rt drv reg t ct i xs st) = nSuccess st + length xs \<and>
         nError (insertRows rt drv reg t ct i xs st) = nError st \<and>
         written (insertRows rt drv reg t ct i xs st) = written st"
  using assms
proof (induction xs arbitrary: qs i st)
  case Nil
  then show ?case by simp
next
  case (Cons row rest)
  from Cons.prems(1) obtain q qs' where qs: "qs = q # qs'"
    and b: "buildInsert rt reg t ct row = Statement q"
    and r: "map (buildInsert rt reg t ct) rest = map Statement qs'"
    by (cases qs) auto
  from Cons.prems(2) have "storeVerdicts drv (txRows st) (q # qs') = None # replicate (length qs') None"
    by (simp add: qs)
  from storeVerdicts_accepted_head [OF this]
  have v: "rowError drv (txRows st) q = None"
    and vs: "storeVerdicts drv (txRows st @ [storedRow q]) qs' = replicate (length qs') None"
    by simp_all
  let ?st = "insertRow rt drv reg t ct i row st"
  show ?case
  proof (cases rule: insertRow_cases [of rt reg t ct row drv st i])
    case (ok q')
    with b have q': "q' = q" by simp
    from vs ok(3) q' have "storeVerdicts drv (txRows ?st) qs' = replicate (length qs') None" by simp
    from Cons.IH [OF r this, of "Suc i"] ok q' qs show ?thesis by simp
  next
    case (bad q' msg)
    with b v show ?thesis by simp
  next
    case (thrown msg)
    with b show ?thesis by simp
  qed
qed

lemma insertRows_one_rejected:
  assumes "map (buildInsert rt reg t ct) xs = map Statement qs"
    and "1 \<le> K" "K \<le> length xs"
    and "storeVerdicts drv (txRows st) qs =
           replicate (K - 1) None @ [Some msg] @ replicate (length xs - K) None"
  shows "txRows (insertRows rt drv reg t ct i xs st) =
           txRows st @ map storedRow (take (K - 1) qs @ drop K qs) \<and>
         nSuccess (insertRows rt drv reg t ct i xs st) = nSuccess st + (length xs - 1) \<and>
         nError (insertRows rt drv reg t ct i xs st) = Suc (nError st) \<and>
         written (insertRows rt drv reg t ct i xs st) = written st @ [LogRowError (i + K) msg]"
  using assms
proof (induction xs arbitrary: qs i st K)
  case Nil
  then show ?case by simp
next
  case (Cons row rest)
  from Cons.prems(1) obtain q qs' where qs: "qs = q # qs'"
    and b: "buildInsert rt reg t ct row = Statement q"
    and r: "map (buildInsert rt reg t ct) rest = map Statement qs'"
    by (cases qs) auto
  from r have len: "length qs' = length rest" by (metis length_map)
  let ?st = "insertRow rt drv reg t ct i row st"
  show ?case
  proof (cases "K = 1")
    case True
    with Cons.prems(4) have "storeVerdicts drv (txRows st) (q # qs') =
        Some msg # replicate (length qs') None"
      by (simp add: qs len)
    from storeVerdicts_rejected_head [OF this]
    have v: "rowError drv (txRows st) q = Some msg"
      and vs: "storeVerdicts drv (txRows st) qs' = replicate (length qs') None"
      by simp_all
    show ?thesis
    proof (cases rule: insertRow_cases [of rt reg t ct row drv st i])
      case (ok q')
      with b v show ?thesis by simp
    next
      case (bad q' msg')
      with b v have e: "q' = q" "msg' = msg" by simp_all
      from vs bad(3) have "storeVerdicts drv (txRows ?st) qs' = replicate (length qs') None" by simp
      from insertRows_accepted [OF r this, of "Suc i"] bad e qs True show ?thesis by simp
    next
      case (thrown msg')
      with b show ?thesis by simp
    qed
  next
    case False
    with Cons.prems(2) obtain K' where K': "K = Suc K'" "1 \<le> K'" by (cases K) auto
    with Cons.prems(3) have K'len: "K' \<le> length rest" by simp
    from Cons.prems(4) K' have "storeVerdicts drv (txRows st) (q # qs') =
        None # (replicate (K' - 1) None @ [Some msg] @ replicate (length rest - K') None)"
      by (cases K') (simp_all add: qs)
    from storeVerdicts_accepted_head [OF this]
    have v: "rowError drv (txRows st) q = None"
      and vs: "storeVerdicts drv (txRows st @ [storedRow q]) qs' =
                 replicate (K' - 1) None @ [Some msg] @ replicate (length rest - K') None"
      by simp_all
    show ?thesis
    proof (cases rule: insertRow_cases [of rt reg t ct row drv st i])
      case (ok q')
      with b have q': "q' = q" by simp
      from vs ok(3) q' have "storeVerdicts drv (txRows ?st) qs' =
          replicate (K' - 1) None @ [Some msg] @ replicate (length rest - K') None" by simp
      from Cons.IH [OF r K'(2) K'len this, of "Suc i"] ok q' qs K' K'len show ?thesis
        by (cases K') simp_all
    next
      case (bad q' msg')
      with b v show ?thesis by simp
    next
      case (thrown msg')
      with b show ?thesis by simp
    qed
  qed
qed

section \<open>What a load returns, and the insert loop of the HTTP path\<close>

lemma upload_returned:
  assumes "result (uploadToDatabase rt drv reg live rows data f) = Inr out"
  shows "successCount out = nSuccess (loadEnd rt drv reg live rows data f) \<and>
         errorCount out = nError (loadEnd rt drv reg live rows data f) \<and>
         storeList out = stores (findWindow (detectTableName f data) (mappedRows reg data f)) \<and>
         tableRows (uploadToDatabase rt drv reg live rows data f) =
           txRows (loadEnd rt drv reg live rows data f) \<and>
         issued (uploadToDatabase rt drv reg live rows data f) =
           sent (loadEnd rt drv reg live rows data f) \<and>
         logged (uploadToDatabase rt drv reg live rows data f) =
           written (loadEnd rt drv reg live rows data f) \<and>
         length (mappedRows reg data f) = length data"
  using assms
  by (auto simp: uploadToDatabase_def loadEnd_def loadStart_def mappedRows_def thrown_def
        rolledBack_def Let_def mapAll_length split: option.splits if_splits sum.splits)

lemma upload_thrown:
  assumes "result (uploadToDatabase rt drv reg live rows data f) = Inl msg"
  shows "tableRows (uploadToDatabase rt drv reg live rows data f) = rows"
  using assms
  by (auto simp: uploadToDatabase_def thrown_def rolledBack_def Let_def
        split: option.splits if_splits sum.splits)

lemma upload_succeeds:
  assumes "healthy drv" "reg (detectTableName f data) \<noteq> None"
    and "mapAll reg (detectTableName f data) data = Inr m"
  shows "\<exists>out. result (uploadToDatabase rt drv reg live rows data f) = Inr out"
  using assms by (auto simp: healthy_def uploadToDatabase_def Let_def)

lemma uploadHttp_returned:
  assumes "result (uploadToDatabaseHttp rt drv live rows data t) = Inr out"
  shows "successCount out = nSuccess (loadEndHttp rt drv live rows data t) \<and>
         errorCount out = nError (loadEndHttp rt drv live rows data t) \<and>
         errors out = take 10 (failures (loadEndHttp rt drv live rows data t)) \<and>
         tableRows (uploadToDatabaseHttp rt drv live rows data t) =
           txRows (loadEndHttp rt drv live rows data t) \<and>
         issued (uploadToDatabaseHttp rt drv live rows data t) =
           sent (loadEndHttp rt drv live rows data t) \<and>
         logged (uploadToDatabaseHttp rt drv live rows data t) =
           written (loadEndHttp rt drv live rows data t)"
  using assms
  by (auto simp: uploadToDatabaseHttp_def loadEndHttp_def loadStartHttp_def thrown_def
        rolledBack_def Let_def split: option.splits if_splits)

lemma uploadHttp_thrown:
  assumes "result (uploadToDatabaseHttp rt drv live rows data t) = Inl msg"
  shows "tableRows (uploadToDatabaseHttp rt drv live rows data t) = rows"
  using assms
  by (auto simp: uploadToDatabaseHttp_def thrown_def rolledBack_def Let_def
        split: option.splits if_splits)

lemma uploadHttp_succeeds:
  assumes "healthy drv"
  shows "\<exists>out. result (uploadToDatabaseHttp rt drv live rows data t) = Inr out"
  using assms by (auto simp: healthy_def uploadToDatabaseHttp_def Let_def)

lemma buildInsertHttp_cases:
  obtains (novalid) "validCells ct row = []" "buildInsertHttp rt t ct row = NoValidColumns"
  | (stmt) q where "validCells ct row \<noteq> []" "buildInsertHttp rt t ct row = Statement q"
  | (err) msg where "validCells ct row \<noteq> []" "buildInsertHttp rt t ct row = BindError msg"
proof (cases "validCells ct row = []")
  case True
  then show ?thesis using novalid by (simp add: buildInsertHttp_def)
next
  case False
  then show ?thesis using stmt err
    by (cases "bindColumns (bindValueHttp rt ct) (validCells ct row)")
       (simp_all add: buildInsertHttp_def)
qed

lemma insertRowHttp_cases:
  obtains (skip) "validCells ct row = []" "buildInsertHttp rt t ct row = NoValidColumns"
      "txRows (insertRowHttp rt drv t ct i row st) = txRows st"
      "sent (insertRowHttp rt drv t ct i row st) = sent st"
      "nSuccess (insertRowHttp rt drv t ct i row st) = nSuccess st"
      "nError (insertRowHttp rt drv t ct i row st) = nError st"
      "failures (insertRowHttp rt drv t ct i row st) = failures st"
      "written (insertRowHttp rt drv t ct i row st) =
         written st @ skipLog ct i row @ [LogNoValidColumns (Suc i)]"
  | (ok) q where "validCells ct row \<noteq> []" "buildInsertHttp rt t ct row = Statement q"
      "rowError drv (txRows st) q = None"
      "txRows (insertRowHttp rt drv t ct i row st) = txRows st @ [storedRow q]"
      "sent (insertRowHttp rt drv t ct i row st) = sent st @ [Insert q]"
      "nSuccess (insertRowHttp rt drv t ct i row st) = Suc (nSuccess st)"
      "nError (insertRowHttp rt drv t ct i row st) = nError st"
      "failures (insertRowHttp rt drv t ct i row st) = failures st"
      "written (insertRowHttp rt drv t ct i row st) = written st @ skipLog ct i row"
  | (bad) q msg where "validCells ct row \<noteq> []" "buildInsertHttp rt t ct row = Statement q"
      "rowError drv (txRows st) q = Some msg"
      "txRows (insertRowHttp rt drv t ct i row st) = txRows st"
      "sent (insertRowHttp rt drv t ct i row st) = sent st @ [Insert q]"
      "nSuccess (insertRowHttp rt drv t ct i row st) = nSuccess st"
      "nError (insertRowHttp rt drv t ct i row st) = Suc (nError st)"
      "failures (insertRowHttp rt drv t ct i row st) =
         failures st @ [\<lparr>fail_row = Suc i, fail_error = msg, fail_data = row\<rparr>]"
      "written (insertRowHttp rt drv t ct i row st) =
         written st @ skipLog ct i row @ [LogRowError (Suc i) msg]"
  | (thrown) msg where "validCells ct row \<noteq> []" "buildInsertHttp rt t ct row = BindError msg"
      "txRows (insertRowHttp rt drv t ct i row st) = txRows st"
      "sent (insertRowHttp rt drv t ct i row st) = sent st"
      "nSuccess (insertRowHttp rt drv t ct i row st) = nSuccess st"
      "nError (insertRowHttp rt drv t ct i row st) = Suc (nError st)"
      "failures (insertRowHttp rt drv t ct i row st) =
         failures st @ [\<lparr>fail_row = Suc i, fail_error = msg, fail_data = row\<rparr>]"
      "written (insertRowHttp rt drv t ct i row st) =
         written st @ skipLog ct i row @ [LogRowError (Suc i) msg]"
proof (cases rule: buildInsertHttp_cases [of ct row rt t])
  case novalid
  then show ?thesis using skip by (simp add: insertRowHttp_def skipLog_def Let_def)
next
  case (stmt q)
  show ?thesis
  proof (cases "rowError drv (txRows st) q")
    case None
    with stmt show ?thesis using ok [of q]
      by (simp add: insertRowHttp_def skipLog_def Let_def execInsert_def)
  next
    case (Some msg)
    with stmt show ?thesis using bad [of q msg]
      by (simp add: insertRowHttp_def skipLog_def Let_def execInsert_def)
  qed
next
  case (err msg)
  then show ?thesis using thrown [of msg] by (simp add: insertRowHttp_def skipLog_def Let_def)
qed

lemma isNoValidColumns_simps:
  "isNoValidColumns (LogNoValidColumns n)" "\<not> isNoValidColumns (LogRowError n msg)"
  "\<not> isNoValidColumns (LogSkipUnknownColumn c)" "\<not> isNoValidColumns (LogDeleted n)"
  "\<not> isNoValidColumns LogDeleteByDateOnly" "\<not> isNoValidColumns (LogDeleteByStores ss)"
  by (simp_all add: isNoValidColumns_def)

lemma isRowError_simps:
  "isRowError (LogRowError n msg)" "\<not> isRowError (LogNoValidColumns n)"
  "\<not> isRowError (LogSkipUnknownColumn c)" "\<not> isRowError (LogDeleted n)"
  "\<not> isRowError LogDeleteByDateOnly" "\<not> isRowError (LogDeleteByStores ss)"
  by (simp_all add: isRowError_def)

lemma skipLog_not_counted: "filter isNoValidColumns (skipLog ct i row) = []"
  by (simp add: skipLog_def isNoValidColumns_simps)

lemma insertRowsHttp_skipped:
  "length (filter isNoValidColumns (written (insertRowsHttp rt drv t ct i xs st))) =
   length (filter isNoValidColumns (written st)) + length (filter (\<lambda>row. validCells ct row = []) xs)"
proof (induction xs arbitrary: i st)
  case Nil
  then show ?case by simp
next
  case (Cons row rest)
  show ?case
    by (cases rule: insertRowHttp_cases [of ct row rt t drv i st])
       (simp_all add: Cons.IH skipLog_not_counted isNoValidColumns_simps)
qed

lemma insertRowsHttp_counts:
  "nSuccess (insertRowsHttp rt drv t ct i xs st) + nError (insertRowsHttp rt drv t ct i xs st) =
   nSuccess st + nError st + length (filter (\<lambda>row. validCells ct row \<noteq> []) xs)"
proof (induction xs arbitrary: i st)
  case Nil
  then show ?case by simp
next
  case (Cons row rest)
  note ih = Cons.IH [of "Suc i" "insertRowHttp rt drv t ct i row st"]
  show ?case
    using ih by (cases rule: insertRowHttp_cases [of ct row rt t drv i st]) simp_all
qed

lemma insertRowsHttp_sent:
  "sent (insertRowsHttp rt drv t ct i xs st) =
     sent st @ map Insert (statements (map (buildInsertHttp rt t ct) xs))"
proof (induction xs arbitrary: i st)
  case Nil
  then show ?case by simp
next
  case (Cons row rest)
  show ?case
    by (cases rule: insertRowHttp_cases [of ct row rt t drv i st]) (simp_all add: Cons.IH)
qed

lemma insertRowsHttp_accepted:
  assumes "map (buildInsertHttp rt t ct) xs = map Statement qs"
    and "storeVerdicts drv (txRows st) qs = replicate (length qs) None"
  shows "txRows (insertRowsHttp rt drv t ct i xs st) = txRows st @ map storedRow qs \<and>
         nSuccess (insertRowsHttp rt drv t ct i xs st) = nSuccess st + length xs \<and>
         nError (insertRowsHttp rt drv t ct i xs st) = nError st \<and>
         failures (insertRowsHttp rt drv t ct i xs st) = failures st"
  using assms
proof (induction xs arbitrary: qs i st)
  case Nil
  then show ?case by simp
next
  case (Cons row rest)
  from Cons.prems(1) obtain q qs' where qs: "qs = q # qs'"
    and b: "buildInsertHttp rt t ct row = Statement q"
    and r: "map (buildInsertHttp rt t ct) rest = map Statement qs'"
    by (cases qs) auto
  from Cons.prems(2) have "storeVerdicts drv (txRows st) (q # qs') = None # replicate (length qs') None"
    by (simp add: qs)
  from storeVerdicts_accepted_head [OF this]
  have v: "rowError drv (txRows st) q = None"
    and vs: "storeVerdicts drv (txRows st @ [storedRow q]) qs' = replicate (length qs') None"
    by simp_all
  let ?st = "insertRowHttp rt drv t ct i row st"
  show ?case
  proof (cases rule: insertRowHttp_cases [of ct row rt t drv i st])
    case skip
    with b show ?thesis by simp
  next
    case (ok q')
    with b have q': "q' = q" by simp
    from vs ok(4) q' have "storeVerdicts drv (txRows ?st) qs' = replicate (length qs') None" by simp
    from Cons.IH [OF r this, of "Suc i"] ok q' qs show ?thesis by simp
  next
    case (bad q' msg)
    with b v show ?thesis by simp
  next
    case (thrown msg)
    with b show ?thesis by simp
  qed
qed

lemma insertRowsHttp_one_rejected:
  assumes "map (buildInsertHttp rt t ct) xs = map Statement qs"
    and "1 \<le> K" "K \<le> length xs"
    and "storeVerdicts drv (txRows st) qs =
           replicate (K - 1) None @ [Some msg] @ replicate (length xs - K) None"
  shows "txRows (insertRowsHttp rt drv t ct i xs st) =
           txRows st @ map storedRow (take (K - 1) qs @ drop K qs) \<and>
         nSuccess (insertRowsHttp rt drv t ct i xs st) = nSuccess st + (length xs - 1) \<and>
         nError (insertRowsHttp rt drv t ct i xs st) = Suc (nError st) \<and>
         failures (insertRowsHttp rt drv t ct i xs st) =
           failures st @ [\<lparr>fail_row = i + K, fail_error = msg, fail_data = xs ! (K - 1)\<rparr>]"
  using assms
proof (induction xs arbitrary: qs i st K)
  case Nil
  then show ?case by simp
next
  case (Cons row rest)
  from Cons.prems(1) obtain q qs' where qs: "qs = q # qs'"
    and b: "buildInsertHttp rt t ct row = Statement q"
    and r: "map (buildInsertHttp rt t ct) rest = map Statement qs'"
    by (cases qs) auto
  from r have len: "length qs' = length rest" by (metis length_map)
  let ?st = "insertRowHttp rt drv t ct i row st"
  show ?case
  proof (cases "K = 1")
    case True
    with Cons.prems(4) have "storeVerdicts drv (txRows st) (q # qs') =
        Some msg # replicate (length qs') None"
      by (simp add: qs len)
    from storeVerdicts_rejected_head [OF this]
    have v: "rowError drv (txRows st) q = Some msg"
      and vs: "storeVerdicts drv (txRows st) qs' = replicate (length qs') None"
      by simp_all
    show ?thesis
    proof (cases rule: insertRowHttp_cases [of ct row rt t drv i st])
      case skip
      with b show ?thesis by simp
    next
      case (ok q')
      with b v show ?thesis by simp
    next
      case (bad q' msg')
      with b v have e: "q' = q" "msg' = msg" by simp_all
      from vs bad(4) have "storeVerdicts drv (txRows ?st) qs' = replicate (length qs') None" by simp
      from insertRowsHttp_accepted [OF r this, of "Suc i"] bad e qs True show ?thesis by simp
    next
      case (thrown msg')
      with b show ?thesis by simp
    qed
  next
    case False
    with Cons.prems(2) obtain K' where K': "K = Suc K'" "1 \<le> K'" by (cases K) auto
    with Cons.prems(3) have K'len: "K' \<le> length rest" by simp
    from Cons.prems(4) K' have "storeVerdicts drv (txRows st) (q # qs') =
        None # (replicate (K' - 1) None @ [Some msg] @ replicate (length rest - K') None)"
      by (cases K') (simp_all add: qs)
    from storeVerdicts_accepted_head [OF this]
    have v: "rowError drv (txRows st) q = None"
      and vs: "storeVerdicts drv (txRows st @ [storedRow q]) qs' =
                 replicate (K' - 1) None @ [Some msg] @ replicate (length rest - K') None"
      by simp_all
    show ?thesis
    proof (cases rule: insertRowHttp_cases [of ct row rt t drv i st])
      case skip
      with b show ?thesis by simp
    next
      case (ok q')
      with b have q': "q' = q" by simp
      from vs ok(4) q' have "storeVerdicts drv (txRows ?st) qs' =
          replicate (K' - 1) None @ [Some msg] @ replicate (length rest - K') None" by simp
      from Cons.IH [OF r K'(2) K'len this, of "Suc i"] ok q' qs K' K'len show ?thesis
        by (cases K') simp_all
    next
      case (bad q' msg')
      with b v show ?thesis by simp
    next
      case (thrown msg')
      with b show ?thesis by simp
    qed
  qed
qed

lemma afterDelete_fields:
  "nSuccess (afterDelete drv t w rows) = 0" "nError (afterDelete drv t w rows) = 0"
  "filter isNoValidColumns (written (afterDelete drv t w rows)) = []"
  "filter isRowError (written (afterDelete drv t w rows)) = []"
  by (simp_all add: afterDelete_def Let_def isNoValidColumns_simps isRowError_simps deleteLog_def)

lemma afterDeleteHttp_fields:
  "nSuccess (afterDeleteHttp drv t w rows) = 0" "nError (afterDeleteHttp drv t w rows) = 0"
  "failures (afterDeleteHttp drv t w rows) = []"
  "txRows (afterDeleteHttp drv t w rows) = txRows (afterDelete drv t w rows)"
  "filter isNoValidColumns (written (afterDeleteHttp drv t w rows)) = []"
  by (simp_all add: afterDeleteHttp_def afterDelete_fields Let_def)

lemma loadStart_fields:
  "nSuccess (loadStart drv reg rows data f) = 0" "nError (loadStart drv reg rows data f) = 0"
  "filter isRowError (written (loadStart drv reg rows data f)) = []"
  by (simp_all add: loadStart_def afterDelete_fields)

lemma loadStartHttp_fields:
  "nSuccess (loadStartHttp drv rows data t) = 0" "nError (loadStartHttp drv rows data t) = 0"
  "failures (loadStartHttp drv rows data t) = []"
  by (simp_all add: loadStartHttp_def afterDeleteHttp_fields)

lemma afterDelete_no_window:
  "\<not> hasWindow w \<Longrightarrow> txRows (afterDelete drv t w rows) = rows \<and> sent (afterDelete drv t w rows) = []"
  by (simp add: afterDelete_def)

lemma afterDelete_window:
  "hasWindow w \<Longrightarrow> txRows (afterDelete drv t w rows) = execDelete drv (buildDelete t w) rows \<and>
     sent (afterDelete drv t w rows) = [Delete (buildDelete t w)]"
  by (simp add: afterDelete_def Let_def)

section \<open>The load window and row-level isolation\<close>

lemma windowStep_rowDate:
  "windowStep t row w =
     (case rowDate row of
        None \<Rightarrow> w
      | Some d \<Rightarrow> w\<lparr>minDate := lowerBound (minDate w) d, maxDate := upperBound (maxDate w) d\<rparr>)
     \<lparr>stores := collectStore t row
                  (stores (case rowDate row of
                             None \<Rightarrow> w
                           | Some d \<Rightarrow> w\<lparr>minDate := lowerBound (minDate w) d,
                                         maxDate := upperBound (maxDate w) d\<rparr>))\<rparr>"
  by (simp add: windowStep_def rowDate_def Let_def split: option.splits)

lemma windowStep_no_date:
  "rowDate row = None \<Longrightarrow>
     minDate (windowStep t row w) = minDate w \<and> maxDate (windowStep t row w) = maxDate w"
  by (simp add: windowStep_rowDate)

lemma fold_windowStep_no_date:
  "\<forall>row \<in> set xs. rowDate row = None \<Longrightarrow>
     minDate (fold (windowStep t) xs w) = minDate w \<and> maxDate (fold (windowStep t) xs w) = maxDate w"
  by (induction xs arbitrary: w) (simp_all add: windowStep_no_date)

lemma no_date_no_window:
  assumes "\<forall>row \<in> set xs. rowDate row = None"
  shows "\<not> hasWindow (findWindow t xs)"
  using fold_windowStep_no_date [OF assms, of t emptyWindow]
  by (simp add: findWindow_def hasWindow_def emptyWindow_def)

lemma falsy_rowDate:
  "\<not> truthy (getProp row ''SALES_DATE'') \<Longrightarrow> \<not> truthy (getProp row ''Tanggal'') \<Longrightarrow> rowDate row = None"
  by (simp add: rowDate_def js_or_def)

lemma no_date_window:
  assumes "\<forall>row \<in> set xs. rowDate row = None"
  shows "minDate (findWindow t xs) = None" "maxDate (findWindow t xs) = None"
  using fold_windowStep_no_date [OF assms, of t emptyWindow]
  by (simp_all add: findWindow_def emptyWindow_def)

lemma upload_outcome:
  assumes "healthy drv" "reg (detectTableName f data) \<noteq> None"
    and "mapAll reg (detectTableName f data) data = Inr m"
  shows "result (uploadToDatabase rt drv reg live rows data f) =
           Inr \<lparr>success = True,
                successCount = nSuccess (loadEnd rt drv reg live rows data f),
                errorCount = nError (loadEnd rt drv reg live rows data f),
                dateRange = showDate (minDate (findWindow (detectTableName f data) m)) @ '' to '' @
                            showDate (maxDate (findWindow (detectTableName f data) m)),
                storeList = stores (findWindow (detectTableName f data) m)\<rparr>"
  using assms
  by (auto simp: healthy_def uploadToDatabase_def Let_def loadEnd_def loadStart_def mappedRows_def)

lemma uploadHttp_outcome:
  assumes "healthy drv"
  shows "result (uploadToDatabaseHttp rt drv live rows data t) =
           Inr \<lparr>success = True,
                successCount = nSuccess (loadEndHttp rt drv live rows data t),
                errorCount = nError (loadEndHttp rt drv live rows data t),
                dateRange = orNA (minDate (findWindowHttp t data)) @ '' to '' @
                            orNA (maxDate (findWindowHttp t data)),
                storeList = stores (findWindowHttp t data),
                errors = take 10 (failures (loadEndHttp rt drv live rows data t))\<rparr>"
  using assms
  by (auto simp: healthy_def uploadToDatabaseHttp_def Let_def loadEndHttp_def loadStartHttp_def)

text \<open>
  Claim C3, amended. A load in which nothing but single-row inserts can fail has \<open>N\<close>
  records, every record yields a statement, and of these statements, sent in order
  inside the transaction, the store rejects exactly the one at the 1-based position \<open>K\<close>,
  with message \<open>msg\<close>. Then the load returns with \<open>successCount = N - 1\<close> and
  \<open>errorCount = 1\<close>, and the table holds, after the rows the delete phase left, the rows
  of all other statements in order, those after \<open>K\<close> included. The one error entry names
  row \<open>K\<close> and \<open>msg\<close>: in server.js it is the only element of \<^verbatim>\<open>errors\<close> in the returned
  object and carries the record; in fileWatcher.js it is the only \<^verbatim>\<open>Row K error\<close> line
  of the log.
\<close>

theorem one_rejected_row_is_isolated:
  "(healthy drv \<and> reg (detectTableName f data) \<noteq> None \<and>
    mapAll reg (detectTableName f data) data = Inr mapped \<and>
    map (buildInsert rt reg (detectTableName f data) (columnTypesOf live)) mapped = map Statement qs \<and>
    1 \<le> K \<and> K \<le> length data \<and>
    storeVerdicts drv (txRows (loadStart drv reg rows data f)) qs =
      replicate (K - 1) None @ [Some msg] @ replicate (length data - K) None \<longrightarrow>
    (\<exists>out. result (uploadToDatabase rt drv reg live rows data f) = Inr out \<and>
           successCount out = length data - 1 \<and> errorCount out = 1) \<and>
    filter isRowError (logged (uploadToDatabase rt drv reg live rows data f)) = [LogRowError K msg] \<and>
    tableRows (uploadToDatabase rt drv reg live rows data f) =
      txRows (loadStart drv reg rows data f) @ map storedRow (take (K - 1) qs @ drop K qs)) \<and>
   (healthy drv \<and>
    map (buildInsertHttp rt t (columnTypesOf live)) data = map Statement qs \<and>
    1 \<le> K \<and> K \<le> length data \<and>
    storeVerdicts drv (txRows (loadStartHttp drv rows data t)) qs =
      replicate (K - 1) None @ [Some msg] @ replicate (length data - K) None \<longrightarrow>
    (\<exists>out. result (uploadToDatabaseHttp rt drv live rows data t) = Inr out \<and>
           successCount out = length data - 1 \<and> errorCount out = 1 \<and>
           errors out = [\<lparr>fail_row = K, fail_error = msg, fail_data = data ! (K - 1)\<rparr>]) \<and>
    tableRows (uploadToDatabaseHttp rt drv live rows data t) =
      txRows (loadStartHttp drv rows data t) @ map storedRow (take (K - 1) qs @ drop K qs))"
proof (intro conjI impI)
  let ?run = "uploadToDatabase rt drv reg live rows data f"
  assume h: "healthy drv \<and> reg (detectTableName f data) \<noteq> None \<and>
    mapAll reg (detectTableName f data) data = Inr mapped \<and>
    map (buildInsert rt reg (detectTableName f data) (columnTypesOf live)) mapped = map Statement qs \<and>
    1 \<le> K \<and> K \<le> length data \<and>
    storeVerdicts drv (txRows (loadStart drv reg rows data f)) qs =
      replicate (K - 1) None @ [Some msg] @ replicate (length data - K) None"
  then have ma: "mapAll reg (detectTableName f data) data = Inr mapped" by simp
  note m = mappedRows_returned [OF ma] and len = mapAll_length [OF ma]
  from h have b: "map (buildInsert rt reg (detectTableName f data) (columnTypesOf live)) mapped =
      map Statement qs" by simp
  from h len have K: "1 \<le> K" "K \<le> length mapped" by simp_all
  from h len have v: "storeVerdicts drv (txRows (loadStart drv reg rows data f)) qs =
      replicate (K - 1) None @ [Some msg] @ replicate (length mapped - K) None" by simp
  note e = insertRows_one_rejected [OF b K v, of 0]
  from h upload_succeeds [of drv reg f data mapped rt live rows]
  obtain out where o: "result ?run = Inr out" by blast
  note u = upload_returned [OF o]
  from u e len have "successCount out = length data - 1 \<and> errorCount out = 1"
    by (simp add: loadEnd_def m loadStart_def afterDelete_fields)
  with o show "\<exists>out. result ?run = Inr out \<and> successCount out = length data - 1 \<and> errorCount out = 1"
    by blast
  from u e show "filter isRowError (logged ?run) = [LogRowError K msg]"
    by (simp add: loadEnd_def m loadStart_def afterDelete_fields isRowError_simps)
  from u e show "tableRows ?run =
      txRows (loadStart drv reg rows data f) @ map storedRow (take (K - 1) qs @ drop K qs)"
    by (simp add: loadEnd_def m)
next
  let ?run = "uploadToDatabaseHttp rt drv live rows data t"
  assume h: "healthy drv \<and>
    map (buildInsertHttp rt t (columnTypesOf live)) data = map Statement qs \<and>
    1 \<le> K \<and> K \<le> length data \<and>
    storeVerdicts drv (txRows (loadStartHttp drv rows data t)) qs =
      replicate (K - 1) None @ [Some msg] @ replicate (length data - K) None"
  then have b: "map (buildInsertHttp rt t (columnTypesOf live)) data = map Statement qs"
    and K: "1 \<le> K" "K \<le> length data"
    and v: "storeVerdicts drv (txRows (loadStartHttp drv rows data t)) qs =
      replicate (K - 1) None @ [Some msg] @ replicate (length data - K) None"
    by simp_all
  note e = insertRowsHttp_one_rejected [OF b K v, of 0]
  from h uploadHttp_succeeds [of drv rt live rows data t]
  obtain out where o: "result ?run = Inr out" by blast
  note u = uploadHttp_returned [OF o]
  from u e have "successCount out = length data - 1 \<and> errorCount out = 1 \<and>
           errors out = [\<lparr>fail_row = K, fail_error = msg, fail_data = data ! (K - 1)\<rparr>]"
    by (simp add: loadEndHttp_def loadStartHttp_def afterDeleteHttp_fields)
  with o show "\<exists>out. result ?run = Inr out \<and>
           successCount out = length data - 1 \<and> errorCount out = 1 \<and>
           errors out = [\<lparr>fail_row = K, fail_error = msg, fail_data = data ! (K - 1)\<rparr>]"
    by blast
  from u e show "tableRows ?run =
      txRows (loadStartHttp drv rows data t) @ map storedRow (take (K - 1) qs @ drop K qs)"
    by (simp add: loadEndHttp_def)
qed

section \<open>Row-level isolation at a concrete batch\<close>

lemmas string_eval =
  toLowerCase_def toLowerChar_def trim_def is_space_def is_digit_def is_alpha_def

lemmas bind_eval =
  buildInsert_def bindValue_def isEmptyCell_def getColumnType_def isNumericType_def
  lookupType_def columnTypesOf_def objectPrototypeNames_def textValue_def toText_def
  buildInsertHttp_def bindValueHttp_def validCells_def isValidColumn_def

lemma picky_healthy: "healthy pickyDriver" "rowError pickyDriver = (\<lambda>rows. rejectBad)"
  by (simp_all add: healthy_def pickyDriver_def)

lemma keyed_healthy: "healthy keyedDriver"
  by (simp add: healthy_def keyedDriver_def)

lemma detail_schema: "detailRegistry ''SNJ_SRP_DETAIL'' \<noteq> None"
  by (simp add: detailRegistry_def)

lemma detail_passes: "mapAll detailRegistry ''SNJ_SRP_DETAIL'' data = Inr data"
  by (rule mapAll_passes_through) (simp add: detailRegistry_def detailSchema_def)

lemma repeatedBill_table: "detectTableName ''snj_jan.csv'' repeatedBill = ''SNJ_SRP_DETAIL''"
  by (simp add: detectTableName_def string_eval)

lemma repeatedBill_mapped: "mappedRows detailRegistry repeatedBill ''snj_jan.csv'' = repeatedBill"
  by (simp add: mappedRows_def repeatedBill_table detail_passes)

lemma repeatedBill_statements:
  "map (buildInsert plainRuntime detailRegistry ''SNJ_SRP_DETAIL'' (columnTypesOf detailColumns))
     repeatedBill =
   map Statement [billStatement ''B1'' ''S1'', billStatement ''B1'' ''S2'', billStatement ''B3'' ''S1'']"
  by (simp add: repeatedBill_def billStatement_def bind_eval detailRegistry_def detailSchema_def
        detailColumns_def plainRuntime_def)

lemma repeatedBill_statementsHttp:
  "map (buildInsertHttp plainRuntime ''SNJ_SRP_DETAIL'' (columnTypesOf detailColumns)) repeatedBill =
   map Statement [billStatement ''B1'' ''S1'', billStatement ''B1'' ''S2'', billStatement ''B3'' ''S1'']"
  by (simp add: repeatedBill_def billStatement_def bind_eval detailColumns_def plainRuntime_def)

lemma repeatedBill_no_dates: "\<forall>row \<in> set repeatedBill. rowDate row = None"
  by (simp add: repeatedBill_def falsy_rowDate getProp_def truthy_def)

lemma repeatedBill_start:
  "txRows (loadStart keyedDriver detailRegistry oldRows repeatedBill ''snj_jan.csv'') = oldRows"
  using no_date_no_window [OF repeatedBill_no_dates, of "''SNJ_SRP_DETAIL''"]
  by (simp add: loadStart_def repeatedBill_table repeatedBill_mapped afterDelete_no_window)

lemma repeatedBill_windowHttp:
  "findWindowHttp ''SNJ_SRP_DETAIL'' repeatedBill =
     \<lparr>minDate = None, maxDate = None, stores = [''S1'', ''S2'']\<rparr>"
  by (simp add: findWindowHttp_def windowStepHttp_def repeatedBill_def js_or_def getProp_def
        truthy_def collectStore_def addStore_def toText_def emptyWindow_def)

lemma repeatedBill_startHttp:
  "txRows (loadStartHttp keyedDriver oldRows repeatedBill ''SNJ_SRP_DETAIL'') = oldRows"
  by (simp add: loadStartHttp_def repeatedBill_windowHttp afterDeleteHttp_fields afterDelete_def
        hasWindow_def)

lemma repeatedBill_verdicts:
  "storeVerdicts keyedDriver oldRows
     [billStatement ''B1'' ''S1'', billStatement ''B1'' ''S2'', billStatement ''B3'' ''S1''] =
   [None, Some ''Violation of PRIMARY KEY constraint'', None]"
  by (simp add: execInsert_def keyedDriver_def duplicateKey_def storedRow_def billStatement_def
        oldRows_def)

lemma repeatedBill_window:
  "findWindow ''SNJ_SRP_DETAIL'' repeatedBill =
     \<lparr>minDate = None, maxDate = None, stores = [''S1'', ''S2'']\<rparr>"
  by (simp add: findWindow_def windowStep_def repeatedBill_def js_or_def getProp_def
        truthy_def collectStore_def addStore_def toText_def emptyWindow_def)

text \<open>
  Claim C3 as stated fails for fileWatcher.js. The store rejects the second of three
  statements and accepts the others; the object the load returns has the two counters,
  the date range and the stores and nothing else: it contains no error entry. Row 2 and
  the message are in the log only.
\<close>

theorem watcher_outcome_has_no_error_entry_counterexample:
  "storeVerdicts keyedDriver
     (txRows (loadStart keyedDriver detailRegistry oldRows repeatedBill ''snj_jan.csv''))
     [billStatement ''B1'' ''S1'', billStatement ''B1'' ''S2'', billStatement ''B3'' ''S1''] =
     [None, Some ''Violation of PRIMARY KEY constraint'', None] \<and>
   result (uploadToDatabase plainRuntime keyedDriver detailRegistry detailColumns oldRows
             repeatedBill ''snj_jan.csv'') =
     Inr \<lparr>success = True, successCount = 2, errorCount = 1, dateRange = ''null to null'',
          storeList = [''S1'', ''S2'']\<rparr> \<and>
   logged (uploadToDatabase plainRuntime keyedDriver detailRegistry detailColumns oldRows
             repeatedBill ''snj_jan.csv'') =
     [LogRowError 2 ''Violation of PRIMARY KEY constraint'']"
proof (intro conjI)
  let ?W = "uploadToDatabase plainRuntime keyedDriver detailRegistry detailColumns oldRows
              repeatedBill ''snj_jan.csv''"
  let ?qs = "[billStatement ''B1'' ''S1'', billStatement ''B1'' ''S2'', billStatement ''B3'' ''S1'']"
  show v: "storeVerdicts keyedDriver
     (txRows (loadStart keyedDriver detailRegistry oldRows repeatedBill ''snj_jan.csv'')) ?qs =
     [None, Some ''Violation of PRIMARY KEY constraint'', None]"
    by (simp only: repeatedBill_start repeatedBill_verdicts)
  have len: "length repeatedBill = 3" by (simp add: repeatedBill_def)
  have v': "storeVerdicts keyedDriver
     (txRows (loadStart keyedDriver detailRegistry oldRows repeatedBill ''snj_jan.csv'')) ?qs =
     replicate (2 - 1) None @ [Some ''Violation of PRIMARY KEY constraint''] @
     replicate (length repeatedBill - 2) None"
    unfolding v len by (simp add: numeral_2_eq_2)
  have K: "(1::nat) \<le> 2" "2 \<le> length repeatedBill" by (simp_all add: len)
  note e = insertRows_one_rejected [OF repeatedBill_statements K v', of 0]
  have st: "written (loadStart keyedDriver detailRegistry oldRows repeatedBill ''snj_jan.csv'') = []"
    using no_date_no_window [OF repeatedBill_no_dates, of "''SNJ_SRP_DETAIL''"]
    by (simp add: loadStart_def repeatedBill_table repeatedBill_mapped afterDelete_def)
  have r: "detailRegistry (detectTableName ''snj_jan.csv'' repeatedBill) \<noteq> None"
    "mapAll detailRegistry (detectTableName ''snj_jan.csv'' repeatedBill) repeatedBill = Inr repeatedBill"
    by (simp_all add: repeatedBill_table detail_schema detail_passes)
  from e have c: "nSuccess (loadEnd plainRuntime keyedDriver detailRegistry detailColumns oldRows
                     repeatedBill ''snj_jan.csv'') = 2"
    "nError (loadEnd plainRuntime keyedDriver detailRegistry detailColumns oldRows
                     repeatedBill ''snj_jan.csv'') = 1"
    "written (loadEnd plainRuntime keyedDriver detailRegistry detailColumns oldRows
                     repeatedBill ''snj_jan.csv'') = [LogRowError 2 ''Violation of PRIMARY KEY constraint'']"
    by (simp_all add: loadEnd_def repeatedBill_table repeatedBill_mapped len st loadStart_fields)
  show "result ?W = Inr \<lparr>success = True, successCount = 2, errorCount = 1,
          dateRange = ''null to null'', storeList = [''S1'', ''S2'']\<rparr>"
    unfolding upload_outcome [OF keyed_healthy r] c
    by (simp add: repeatedBill_table repeatedBill_window showDate_def)
  from upload_outcome [OF keyed_healthy r, of plainRuntime detailColumns oldRows]
  have "logged ?W = written (loadEnd plainRuntime keyedDriver detailRegistry detailColumns oldRows
                     repeatedBill ''snj_jan.csv'')"
    using upload_returned [of plainRuntime keyedDriver detailRegistry detailColumns oldRows
        repeatedBill "''snj_jan.csv''"] by simp
  with c show "logged ?W = [LogRowError 2 ''Violation of PRIMARY KEY constraint'']" by simp
qed

text \<open>
  The amended C3 at a table that holds two rows and a batch of three bills whose second
  one repeats the key of the first: on both paths the rows of the first and the third
  bill are stored after the two old rows.
\<close>

theorem one_rejected_row_is_isolated_witness:
  "((\<exists>out. result (uploadToDatabase plainRuntime keyedDriver detailRegistry detailColumns oldRows
               repeatedBill ''snj_jan.csv'') = Inr out \<and>
           successCount out = 2 \<and> errorCount out = 1) \<and>
    filter isRowError (logged (uploadToDatabase plainRuntime keyedDriver detailRegistry
       detailColumns oldRows repeatedBill ''snj_jan.csv'')) =
      [LogRowError 2 ''Violation of PRIMARY KEY constraint''] \<and>
    tableRows (uploadToDatabase plainRuntime keyedDriver detailRegistry detailColumns oldRows
                 repeatedBill ''snj_jan.csv'') =
      [[(''BILL_NO'', PText ''A1'')], [(''BILL_NO'', PText ''A2'')],
       [(''BILL_NO'', PText ''B1''), (''ORG_CODE_NAME'', PText ''S1'')],
       [(''BILL_NO'', PText ''B3''), (''ORG_CODE_NAME'', PText ''S1'')]]) \<and>
   ((\<exists>out. result (uploadToDatabaseHttp plainRuntime keyedDriver detailColumns oldRows
               repeatedBill ''SNJ_SRP_DETAIL'') = Inr out \<and>
           successCount out = 2 \<and> errorCount out = 1 \<and>
           errors out = [\<lparr>fail_row = 2, fail_error = ''Violation of PRIMARY KEY constraint'',
                          fail_data = [(''BILL_NO'', JStr ''B1''), (''ORG_CODE_NAME'', JStr ''S2'')]\<rparr>]) \<and>
    tableRows (uploadToDatabaseHttp plainRuntime keyedDriver detailColumns oldRows
                 repeatedBill ''SNJ_SRP_DETAIL'') =
      [[(''BILL_NO'', PText ''A1'')], [(''BILL_NO'', PText ''A2'')],
       [(''BILL_NO'', PText ''B1''), (''ORG_CODE_NAME'', PText ''S1'')],
       [(''BILL_NO'', PText ''B3''), (''ORG_CODE_NAME'', PText ''S1'')]])"
proof -
  let ?qs = "[billStatement ''B1'' ''S1'', billStatement ''B1'' ''S2'', billStatement ''B3'' ''S1'']"
  let ?msg = "''Violation of PRIMARY KEY constraint''"
  have len: "length repeatedBill = 3" by (simp add: repeatedBill_def)
  have K: "(1::nat) \<le> 2 \<and> 2 \<le> length repeatedBill" by (simp add: len)
  have vw: "storeVerdicts keyedDriver
     (txRows (loadStart keyedDriver detailRegistry oldRows repeatedBill ''snj_jan.csv'')) ?qs =
     replicate (2 - 1) None @ [Some ?msg] @ replicate (length repeatedBill - 2) None"
    unfolding repeatedBill_start repeatedBill_verdicts len by (simp add: numeral_2_eq_2)
  have vh: "storeVerdicts keyedDriver
     (txRows (loadStartHttp keyedDriver oldRows repeatedBill ''SNJ_SRP_DETAIL'')) ?qs =
     replicate (2 - 1) None @ [Some ?msg] @ replicate (length repeatedBill - 2) None"
    unfolding repeatedBill_startHttp repeatedBill_verdicts len by (simp add: numeral_2_eq_2)
  have hw: "healthy keyedDriver \<and>
    detailRegistry (detectTableName ''snj_jan.csv'' repeatedBill) \<noteq> None \<and>
    mapAll detailRegistry (detectTableName ''snj_jan.csv'' repeatedBill) repeatedBill = Inr repeatedBill \<and>
    map (buildInsert plainRuntime detailRegistry (detectTableName ''snj_jan.csv'' repeatedBill)
           (columnTypesOf detailColumns)) repeatedBill = map Statement ?qs \<and>
    1 \<le> (2::nat) \<and> 2 \<le> length repeatedBill \<and>
    storeVerdicts keyedDriver
     (txRows (loadStart keyedDriver detailRegistry oldRows repeatedBill ''snj_jan.csv'')) ?qs =
     replicate (2 - 1) None @ [Some ?msg] @ replicate (length repeatedBill - 2) None"
    using keyed_healthy K vw repeatedBill_statements
    by (simp add: repeatedBill_table detail_schema detail_passes)
  have hh: "healthy keyedDriver \<and>
    map (buildInsertHttp plainRuntime ''SNJ_SRP_DETAIL'' (columnTypesOf detailColumns)) repeatedBill =
      map Statement ?qs \<and>
    1 \<le> (2::nat) \<and> 2 \<le> length repeatedBill \<and>
    storeVerdicts keyedDriver
     (txRows (loadStartHttp keyedDriver oldRows repeatedBill ''SNJ_SRP_DETAIL'')) ?qs =
     replicate (2 - 1) None @ [Some ?msg] @ replicate (length repeatedBill - 2) None"
    using keyed_healthy K vh repeatedBill_statementsHttp by simp
  have stored: "map storedRow (take (2 - 1) ?qs @ drop 2 ?qs) =
      [[(''BILL_NO'', PText ''B1''), (''ORG_CODE_NAME'', PText ''S1'')],
       [(''BILL_NO'', PText ''B3''), (''ORG_CODE_NAME'', PText ''S1'')]]"
    by (simp add: storedRow_def billStatement_def)
  have nth: "repeatedBill ! (2 - 1) = [(''BILL_NO'', JStr ''B1''), (''ORG_CODE_NAME'', JStr ''S2'')]"
    by (simp add: repeatedBill_def)
  note t = one_rejected_row_is_isolated [of keyedDriver detailRegistry "''snj_jan.csv''" repeatedBill
      repeatedBill plainRuntime detailColumns ?qs 2 oldRows ?msg "''SNJ_SRP_DETAIL''"]
  from t [THEN conjunct1, THEN mp, OF hw]
  have a: "(\<exists>out. result (uploadToDatabase plainRuntime keyedDriver detailRegistry detailColumns oldRows
               repeatedBill ''snj_jan.csv'') = Inr out \<and>
           successCount out = 2 \<and> errorCount out = 1) \<and>
    filter isRowError (logged (uploadToDatabase plainRuntime keyedDriver detailRegistry
       detailColumns oldRows repeatedBill ''snj_jan.csv'')) = [LogRowError 2 ?msg] \<and>
    tableRows (uploadToDatabase plainRuntime keyedDriver detailRegistry detailColumns oldRows
                 repeatedBill ''snj_jan.csv'') =
      [[(''BILL_NO'', PText ''A1'')], [(''BILL_NO'', PText ''A2'')],
       [(''BILL_NO'', PText ''B1''), (''ORG_CODE_NAME'', PText ''S1'')],
       [(''BILL_NO'', PText ''B3''), (''ORG_CODE_NAME'', PText ''S1'')]]"
    unfolding repeatedBill_start stored len by (simp add: oldRows_def)
  from t [THEN conjunct2, THEN mp, OF hh]
  have b: "(\<exists>out. result (uploadToDatabaseHttp plainRuntime keyedDriver detailColumns oldRows
               repeatedBill ''SNJ_SRP_DETAIL'') = Inr out \<and>
           successCount out = 2 \<and> errorCount out = 1 \<and>
           errors out = [\<lparr>fail_row = 2, fail_error = ?msg,
                          fail_data = [(''BILL_NO'', JStr ''B1''), (''ORG_CODE_NAME'', JStr ''S2'')]\<rparr>]) \<and>
    tableRows (uploadToDatabaseHttp plainRuntime keyedDriver detailColumns oldRows
                 repeatedBill ''SNJ_SRP_DETAIL'') =
      [[(''BILL_NO'', PText ''A1'')], [(''BILL_NO'', PText ''A2'')],
       [(''BILL_NO'', PText ''B1''), (''ORG_CODE_NAME'', PText ''S1'')],
       [(''BILL_NO'', PText ''B3''), (''ORG_CODE_NAME'', PText ''S1'')]]"
    unfolding repeatedBill_startHttp stored len nth by (simp add: oldRows_def)
  from a b show ?thesis by blast
qed

section \<open>Accounting for every record, and failed loads\<close>

lemma picky_fields:
  "connectError pickyDriver = None" "provisionError pickyDriver = None"
  "metadataError pickyDriver = None" "beginError pickyDriver = None"
  "deleteError pickyDriver = None" "commitError pickyDriver = None"
  by (simp_all add: pickyDriver_def)

lemma noteOnly_window:
  "findWindowHttp ''SNJ_SRP_DETAIL'' noteOnly = \<lparr>minDate = None, maxDate = None, stores = []\<rparr>"
  by (simp add: findWindowHttp_def windowStepHttp_def noteOnly_def js_or_def getProp_def truthy_def
        collectStore_def emptyWindow_def)

lemma noteOnly_end:
  "insertRowsHttp plainRuntime pickyDriver ''SNJ_SRP_DETAIL'' (columnTypesOf detailColumns) 0 noteOnly
     (afterDeleteHttp pickyDriver ''SNJ_SRP_DETAIL'' \<lparr>minDate = None, maxDate = None, stores = []\<rparr> []) =
   \<lparr>txRows = [], sent = [], nSuccess = 0, nError = 0,
    written = [LogSkipUnknownColumn ''NOTE'', LogNoValidColumns 1], failures = []\<rparr>"
  by (simp add: noteOnly_def insertRowHttp_def bind_eval detailColumns_def
        afterDeleteHttp_def afterDelete_def hasWindow_def)

text \<open>
  Claim C4 as stated fails on the HTTP path: a record none of whose columns the
  destination declares is skipped by \<^verbatim>\<open>continue\<close>; the load of this one-record batch
  returns with both counters at 0.
\<close>

theorem record_without_known_column_counterexample:
  "result (uploadToDatabaseHttp plainRuntime pickyDriver detailColumns [] noteOnly ''SNJ_SRP_DETAIL'') =
     Inr \<lparr>success = True, successCount = 0, errorCount = 0, dateRange = ''N/A to N/A'',
          storeList = [], errors = []\<rparr> \<and>
   length noteOnly = 1"
proof
  show "result (uploadToDatabaseHttp plainRuntime pickyDriver detailColumns [] noteOnly ''SNJ_SRP_DETAIL'') =
     Inr \<lparr>success = True, successCount = 0, errorCount = 0, dateRange = ''N/A to N/A'',
          storeList = [], errors = []\<rparr>"
    by (simp add: uploadToDatabaseHttp_def picky_fields noteOnly_window noteOnly_end hasWindow_def
          orNA_def Let_def)
  show "length noteOnly = 1" by (simp add: noteOnly_def)
qed

lemma inheritedName_window:
  "findWindowHttp ''SNJ_SRP_DETAIL'' inheritedName = \<lparr>minDate = None, maxDate = None, stores = []\<rparr>"
  by (simp add: findWindowHttp_def windowStepHttp_def inheritedName_def js_or_def getProp_def
        truthy_def collectStore_def emptyWindow_def)

lemma inheritedName_end:
  "insertRowsHttp plainRuntime pickyDriver ''SNJ_SRP_DETAIL'' (columnTypesOf detailColumns) 0
     inheritedName
     (afterDeleteHttp pickyDriver ''SNJ_SRP_DETAIL'' \<lparr>minDate = None, maxDate = None, stores = []\<rparr> []) =
   \<lparr>txRows = [], sent = [], nSuccess = 0, nError = 1,
    written = [LogRowError 1 ''sqlType.includes is not a function''],
    failures = [\<lparr>fail_row = 1, fail_error = ''sqlType.includes is not a function'',
                 fail_data = [(''toString'', JStr ''x'')]\<rparr>]\<rparr>"
  by (simp add: inheritedName_def insertRowHttp_def bind_eval detailColumns_def
        afterDeleteHttp_def afterDelete_def hasWindow_def)

text \<open>
  A record whose only column is named like a member every object inherits is not
  skipped: \<^verbatim>\<open>columnTypes[col]\<close> is truthy, binding throws, and the record is counted as
  an error.
\<close>

lemma inherited_name_is_counted_as_error:
  "result (uploadToDatabaseHttp plainRuntime pickyDriver detailColumns [] inheritedName
             ''SNJ_SRP_DETAIL'') =
     Inr \<lparr>success = True, successCount = 0, errorCount = 1, dateRange = ''N/A to N/A'',
          storeList = [],
          errors = [\<lparr>fail_row = 1, fail_error = ''sqlType.includes is not a function'',
                      fail_data = [(''toString'', JStr ''x'')]\<rparr>]\<rparr>"
  by (simp add: uploadToDatabaseHttp_def picky_fields inheritedName_window inheritedName_end
        hasWindow_def orNA_def Let_def)

text \<open>
  Claim C4, amended. In fileWatcher.js the two counters of a load that returns add up to
  the number of records. In server.js they add up to the number of records that have at
  least one column for which \<^verbatim>\<open>columnTypes[col]\<close> is truthy; every other record is
  skipped by \<^verbatim>\<open>continue\<close> and reported by one \<^verbatim>\<open>No valid columns found\<close> log line, so the
  two counters and the number of these lines add up to the number of records.
\<close>

theorem every_record_counted_or_skipped:
  "(\<forall>out. result (uploadToDatabase rt drv reg live rows data f) = Inr out \<longrightarrow>
      successCount out + errorCount out = length data) \<and>
   (\<forall>out. result (uploadToDatabaseHttp rt drv live rows data t) = Inr out \<longrightarrow>
      successCount out + errorCount out =
        length (filter (\<lambda>row. validCells (columnTypesOf live) row \<noteq> []) data) \<and>
      length (filter isNoValidColumns (logged (uploadToDatabaseHttp rt drv live rows data t))) =
        length (filter (\<lambda>row. validCells (columnTypesOf live) row = []) data) \<and>
      successCount out + errorCount out +
        length (filter isNoValidColumns (logged (uploadToDatabaseHttp rt drv live rows data t))) =
        length data)"
proof (intro conjI allI impI)
  fix out assume "result (uploadToDatabase rt drv reg live rows data f) = Inr out"
  from upload_returned [OF this]
  show "successCount out + errorCount out = length data"
    by (simp add: loadEnd_def insertRows_counts loadStart_fields)
next
  fix out assume r: "result (uploadToDatabaseHttp rt drv live rows data t) = Inr out"
  note u = uploadHttp_returned [OF r]
  from u show a: "successCount out + errorCount out =
        length (filter (\<lambda>row. validCells (columnTypesOf live) row \<noteq> []) data)"
    by (simp add: loadEndHttp_def insertRowsHttp_counts loadStartHttp_fields)
  from u show b: "length (filter isNoValidColumns (logged (uploadToDatabaseHttp rt drv live rows data t))) =
        length (filter (\<lambda>row. validCells (columnTypesOf live) row = []) data)"
    by (simp add: loadEndHttp_def insertRowsHttp_skipped loadStartHttp_def afterDeleteHttp_fields)
  have "length (filter (\<lambda>row. validCells (columnTypesOf live) row \<noteq> []) data) +
        length (filter (\<lambda>row. validCells (columnTypesOf live) row = []) data) = length data"
    using sum_length_filter_compl [of "\<lambda>row. validCells (columnTypesOf live) row \<noteq> []" data]
    by simp
  with a b show "successCount out + errorCount out +
        length (filter isNoValidColumns (logged (uploadToDatabaseHttp rt drv live rows data t))) =
        length data" by simp
qed

lemma threeBills_table: "detectTableName ''snj_jan.csv'' threeBills = ''SNJ_SRP_DETAIL''"
  by (simp add: detectTableName_def string_eval)

lemma threeBills_mapped: "mappedRows detailRegistry threeBills ''snj_jan.csv'' = threeBills"
  by (simp add: mappedRows_def threeBills_table detail_passes)

lemma threeBills_loads:
  "\<exists>out. result (uploadToDatabase plainRuntime pickyDriver detailRegistry detailColumns rows
             threeBills ''snj_jan.csv'') = Inr out"
  by (rule upload_succeeds [OF picky_healthy(1)])
     (simp_all add: threeBills_table detail_schema detail_passes)

text \<open>
  The amended C4 at three bills, and at the same bills followed by a record of unknown
  columns only and a record whose only column is named \<^verbatim>\<open>toString\<close>.
\<close>

theorem every_record_counted_or_skipped_witness:
  "(\<exists>out. result (uploadToDatabase plainRuntime pickyDriver detailRegistry detailColumns []
              threeBills ''snj_jan.csv'') = Inr out \<and>
          successCount out + errorCount out = 3) \<and>
   (\<exists>out. result (uploadToDatabaseHttp plainRuntime pickyDriver detailColumns []
              (threeBills @ noteOnly @ inheritedName) ''SNJ_SRP_DETAIL'') = Inr out \<and>
          successCount out + errorCount out = 4 \<and>
          length (filter isNoValidColumns (logged (uploadToDatabaseHttp plainRuntime pickyDriver
             detailColumns [] (threeBills @ noteOnly @ inheritedName) ''SNJ_SRP_DETAIL''))) = 1)"
proof -
  from threeBills_loads [of "[]"]
  obtain out where o: "result (uploadToDatabase plainRuntime pickyDriver detailRegistry
      detailColumns [] threeBills ''snj_jan.csv'') = Inr out" by blast
  from every_record_counted_or_skipped [THEN conjunct1, rule_format, OF o]
  have a: "successCount out + errorCount out = 3" by (simp add: threeBills_def)
  from uploadHttp_succeeds [of pickyDriver plainRuntime detailColumns "[]"
      "threeBills @ noteOnly @ inheritedName" "''SNJ_SRP_DETAIL''", OF picky_healthy(1)]
  obtain outH where oh: "result (uploadToDatabaseHttp plainRuntime pickyDriver detailColumns []
      (threeBills @ noteOnly @ inheritedName) ''SNJ_SRP_DETAIL'') = Inr outH" by blast
  have v: "map (\<lambda>row. validCells (columnTypesOf detailColumns) row = [])
             (threeBills @ noteOnly @ inheritedName) = [False, False, False, True, False]"
    by (simp add: threeBills_def noteOnly_def inheritedName_def bind_eval detailColumns_def)
  have sk: "length (filter (\<lambda>row. validCells (columnTypesOf detailColumns) row = [])
               (threeBills @ noteOnly @ inheritedName)) = 1"
    "length (filter (\<lambda>row. validCells (columnTypesOf detailColumns) row \<noteq> [])
               (threeBills @ noteOnly @ inheritedName)) = 4"
    using v by (simp_all add: threeBills_def noteOnly_def inheritedName_def)
  from every_record_counted_or_skipped [THEN conjunct2, rule_format, OF oh] sk
  have b: "successCount outH + errorCount outH = 4 \<and>
          length (filter isNoValidColumns (logged (uploadToDatabaseHttp plainRuntime pickyDriver
             detailColumns [] (threeBills @ noteOnly @ inheritedName) ''SNJ_SRP_DETAIL''))) = 1"
    by simp
  from o a oh b show ?thesis by blast
qed

text \<open>
  Claim C2. Whenever the load throws, the destination table holds exactly the rows it
  held before the attempt, and \<^verbatim>\<open>processFile\<close> moves the file to the failed folder. A
  failing delete makes the load throw, and no insert was sent; a failing commit makes the
  load throw as well.
\<close>

theorem failed_load_leaves_table_unchanged:
  "(\<forall>msg. result (uploadToDatabase rt drv reg live rows data f) = Inl msg \<longrightarrow>
      tableRows (uploadToDatabase rt drv reg live rows data f) = rows \<and>
      length (tableRows (uploadToDatabase rt drv reg live rows data f)) = length rows \<and>
      (\<exists>m. processFile rt drv reg conns live rows data f = (MovedToFailed m, rows))) \<and>
   (deleteError drv \<noteq> None \<and>
    hasWindow (findWindow (detectTableName f data) (mappedRows reg data f)) \<longrightarrow>
      (\<exists>msg. result (uploadToDatabase rt drv reg live rows data f) = Inl msg) \<and>
      filter (\<lambda>q. \<not> isDelete q) (issued (uploadToDatabase rt drv reg live rows data f)) = []) \<and>
   (commitError drv \<noteq> None \<longrightarrow>
      (\<exists>msg. result (uploadToDatabase rt drv reg live rows data f) = Inl msg))"
proof (intro conjI allI impI)
  fix msg assume r: "result (uploadToDatabase rt drv reg live rows data f) = Inl msg"
  from upload_thrown [OF r]
  show t: "tableRows (uploadToDatabase rt drv reg live rows data f) = rows" .
  then show "length (tableRows (uploadToDatabase rt drv reg live rows data f)) = length rows"
    by simp
  from r t show "\<exists>m. processFile rt drv reg conns live rows data f = (MovedToFailed m, rows)"
    by (auto simp: processFile_def Let_def split: sum.splits)
next
  assume h: "deleteError drv \<noteq> None \<and>
    hasWindow (findWindow (detectTableName f data) (mappedRows reg data f))"
  then show "\<exists>msg. result (uploadToDatabase rt drv reg live rows data f) = Inl msg"
    by (auto simp: uploadToDatabase_def thrown_def rolledBack_def Let_def mappedRows_def
          split: option.splits sum.splits)
  from h show "filter (\<lambda>q. \<not> isDelete q) (issued (uploadToDatabase rt drv reg live rows data f)) = []"
    by (auto simp: uploadToDatabase_def thrown_def rolledBack_def Let_def mappedRows_def
          isDelete_def split: option.splits sum.splits)
next
  assume "commitError drv \<noteq> None"
  then show "\<exists>msg. result (uploadToDatabase rt drv reg live rows data f) = Inl msg"
    by (auto simp: uploadToDatabase_def thrown_def rolledBack_def Let_def
          split: option.splits sum.splits)
qed

lemma datedBill_table: "detectTableName ''snj_jan.csv'' datedBill = ''SNJ_SRP_DETAIL''"
  by (simp add: detectTableName_def string_eval)

lemma datedBill_mapped: "mappedRows detailRegistry datedBill ''snj_jan.csv'' = datedBill"
  by (simp add: mappedRows_def datedBill_table detail_passes)

lemma parseDate_5_jan: "parseDate (JStr ''5 Jan 2025'') = Some ''2025-01-05''"
  by (simp add: date_eval)

lemma datedBill_window:
  "findWindow ''SNJ_SRP_DETAIL'' datedBill =
     \<lparr>minDate = Some ''2025-01-05'', maxDate = Some ''2025-01-05'', stores = []\<rparr>"
  by (simp add: findWindow_def windowStep_def datedBill_def js_or_def getProp_def truthy_def
        parseDate_5_jan lowerBound_def upperBound_def collectStore_def emptyWindow_def)

text \<open>
  C2 at a driver whose delete fails, a dated bill and a table that holds two rows.
\<close>

theorem failed_load_leaves_table_unchanged_witness:
  "deleteError lockedDriver \<noteq> None \<and>
   hasWindow (findWindow (detectTableName ''snj_jan.csv'' datedBill)
                (mappedRows detailRegistry datedBill ''snj_jan.csv'')) \<and>
   tableRows (uploadToDatabase plainRuntime lockedDriver detailRegistry detailColumns oldRows
                datedBill ''snj_jan.csv'') = oldRows \<and>
   (\<exists>m. processFile plainRuntime lockedDriver detailRegistry twoDatabases detailColumns oldRows
           datedBill ''snj_jan.csv'' = (MovedToFailed m, oldRows))"
proof -
  let ?W = "uploadToDatabase plainRuntime lockedDriver detailRegistry detailColumns oldRows
              datedBill ''snj_jan.csv''"
  have d: "deleteError lockedDriver \<noteq> None" by (simp add: lockedDriver_def)
  have w: "hasWindow (findWindow (detectTableName ''snj_jan.csv'' datedBill)
                (mappedRows detailRegistry datedBill ''snj_jan.csv''))"
    by (simp add: datedBill_table datedBill_mapped datedBill_window hasWindow_def)
  note t = failed_load_leaves_table_unchanged [of plainRuntime lockedDriver detailRegistry
      detailColumns oldRows datedBill "''snj_jan.csv''" twoDatabases]
  from t [THEN conjunct2, THEN conjunct1] d w obtain msg where m: "result ?W = Inl msg"
    by blast
  from t [THEN conjunct1, rule_format, OF m] d w show ?thesis by blast
qed

section \<open>Loads without a window, and the columns an insert names\<close>

lemma isDelete_simps: "isDelete (Delete d)" "\<not> isDelete (Insert q)"
  by (simp_all add: isDelete_def)

lemma filter_isDelete_inserts: "filter isDelete (map Insert qs) = []"
  by (induction qs) (simp_all add: isDelete_simps)

lemma statements_set: "q \<in> set (statements ps) \<longleftrightarrow> Statement q \<in> set ps"
  by (induction ps) (auto split: prepared.splits)

lemma upload_issued_cases:
  "issued (uploadToDatabase rt drv reg live rows data f) = [] \<or>
   (hasWindow (findWindow (detectTableName f data) (mappedRows reg data f)) \<and>
    issued (uploadToDatabase rt drv reg live rows data f) =
      [Delete (buildDelete (detectTableName f data)
                 (findWindow (detectTableName f data) (mappedRows reg data f)))]) \<or>
   issued (uploadToDatabase rt drv reg live rows data f) = sent (loadEnd rt drv reg live rows data f)"
  by (auto simp: uploadToDatabase_def thrown_def rolledBack_def Let_def mappedRows_def
        loadEnd_def loadStart_def split: option.splits sum.splits)

lemma loadEnd_sent:
  "sent (loadEnd rt drv reg live rows data f) =
     sent (loadStart drv reg rows data f) @
     map Insert (statements (map (buildInsert rt reg (detectTableName f data) (columnTypesOf live))
                               (mappedRows reg data f)))"
  by (simp add: loadEnd_def insertRows_sent)

lemma upload_issued_no_window:
  assumes "\<not> hasWindow (findWindow (detectTableName f data) (mappedRows reg data f))"
  shows "filter isDelete (issued (uploadToDatabase rt drv reg live rows data f)) = []"
proof -
  from assms have "sent (loadStart drv reg rows data f) = []"
    by (simp add: loadStart_def afterDelete_no_window)
  then have "filter isDelete (sent (loadEnd rt drv reg live rows data f)) = []"
    by (simp add: loadEnd_sent filter_isDelete_inserts)
  with assms upload_issued_cases [of rt drv reg live rows data f] show ?thesis by auto
qed

lemma tanggalOnly_table: "detectTableName ''snj_jan.csv'' tanggalOnly = ''SNJ_SRP_DETAIL''"
  by (simp add: detectTableName_def string_eval)

lemma tanggalOnly_mapped: "mappedRows detailRegistry tanggalOnly ''snj_jan.csv'' = tanggalOnly"
  by (simp add: mappedRows_def tanggalOnly_table detail_passes)

lemma parseDate_iso: "parseDate (JStr ''2025-01-05'') = Some ''2025-01-05''"
  by (simp add: date_eval)

lemma tanggalOnly_window:
  "findWindow ''SNJ_SRP_DETAIL'' tanggalOnly =
     \<lparr>minDate = Some ''2025-01-05'', maxDate = Some ''2025-01-05'', stores = []\<rparr>"
  by (simp add: findWindow_def windowStep_def tanggalOnly_def js_or_def getProp_def truthy_def
        parseDate_iso lowerBound_def upperBound_def collectStore_def emptyWindow_def)

text \<open>
  Claim C5 as stated fails. The file name routes this batch to \<^verbatim>\<open>SNJ_SRP_DETAIL\<close>, whose
  date column is \<^verbatim>\<open>SALES_DATE\<close>; no record carries a value there, yet the window is read
  from \<^verbatim>\<open>Tanggal\<close> (\<^verbatim>\<open>row.SALES_DATE || row.Tanggal\<close>) and a \<^verbatim>\<open>DELETE\<close> is sent.
\<close>

theorem other_date_column_counterexample:
  "dateColumnOf (detectTableName ''snj_jan.csv'' tanggalOnly) = ''SALES_DATE'' \<and>
   map (\<lambda>row. getProp row ''SALES_DATE'') (mappedRows detailRegistry tanggalOnly ''snj_jan.csv'') =
     [JUndefined] \<and>
   filter isDelete (issued (uploadToDatabase plainRuntime pickyDriver detailRegistry detailColumns []
                              tanggalOnly ''snj_jan.csv'')) =
     [Delete \<lparr>del_table = ''SNJ_SRP_DETAIL'', del_dateColumn = ''SALES_DATE'',
              del_minDate = ''2025-01-05'', del_maxDate = ''2025-01-05'',
              del_storeColumn = ''ORG_CODE_NAME'', del_stores = []\<rparr>]"
proof (intro conjI)
  let ?W = "uploadToDatabase plainRuntime pickyDriver detailRegistry detailColumns [] tanggalOnly
              ''snj_jan.csv''"
  show "dateColumnOf (detectTableName ''snj_jan.csv'' tanggalOnly) = ''SALES_DATE''"
    by (simp add: tanggalOnly_table dateColumnOf_def)
  show "map (\<lambda>row. getProp row ''SALES_DATE'') (mappedRows detailRegistry tanggalOnly ''snj_jan.csv'') =
     [JUndefined]"
    by (simp add: tanggalOnly_mapped) (simp add: tanggalOnly_def getProp_def)
  have "\<exists>out. result ?W = Inr out"
    by (rule upload_succeeds [OF picky_healthy(1)])
       (simp_all add: tanggalOnly_table detail_schema detail_passes)
  then obtain out where o: "result ?W = Inr out" by blast
  have w: "hasWindow (findWindow ''SNJ_SRP_DETAIL'' tanggalOnly)"
    by (simp add: tanggalOnly_window hasWindow_def)
  have iss: "issued ?W = sent (loadEnd plainRuntime pickyDriver detailRegistry detailColumns []
                            tanggalOnly ''snj_jan.csv'')"
    using upload_returned [OF o] by simp
  have st: "sent (loadStart pickyDriver detailRegistry [] tanggalOnly ''snj_jan.csv'') =
      [Delete (buildDelete ''SNJ_SRP_DETAIL'' (findWindow ''SNJ_SRP_DETAIL'' tanggalOnly))]"
    using afterDelete_window [OF w, of pickyDriver "''SNJ_SRP_DETAIL''" "[]"]
    by (simp add: loadStart_def tanggalOnly_table tanggalOnly_mapped)
  have bd: "buildDelete ''SNJ_SRP_DETAIL'' (findWindow ''SNJ_SRP_DETAIL'' tanggalOnly) =
      \<lparr>del_table = ''SNJ_SRP_DETAIL'', del_dateColumn = ''SALES_DATE'',
       del_minDate = ''2025-01-05'', del_maxDate = ''2025-01-05'',
       del_storeColumn = ''ORG_CODE_NAME'', del_stores = []\<rparr>"
    by (simp add: tanggalOnly_window buildDelete_def dateColumnOf_def storeColumnOf_def)
  show "filter isDelete (issued ?W) =
     [Delete \<lparr>del_table = ''SNJ_SRP_DETAIL'', del_dateColumn = ''SALES_DATE'',
              del_minDate = ''2025-01-05'', del_maxDate = ''2025-01-05'',
              del_storeColumn = ''ORG_CODE_NAME'', del_stores = []\<rparr>]"
    unfolding iss loadEnd_sent st bd by (simp add: filter_isDelete_inserts isDelete_simps)
qed

text \<open>
  Claim C5, amended. If no mapped record carries a value in either of the two columns the
  window is read from (\<^verbatim>\<open>SALES_DATE\<close>, \<^verbatim>\<open>Tanggal\<close>), there is no window, no
  \<^verbatim>\<open>DELETE\<close> is sent, and a load that returns has appended its inserted rows to the rows
  the table held: as many as \<open>successCount\<close>.
\<close>

theorem no_date_value_no_delete:
  "(\<forall>row \<in> set (mappedRows reg data f).
      \<not> truthy (getProp row ''SALES_DATE'') \<and> \<not> truthy (getProp row ''Tanggal'')) \<longrightarrow>
   \<not> hasWindow (findWindow (detectTableName f data) (mappedRows reg data f)) \<and>
   filter isDelete (issued (uploadToDatabase rt drv reg live rows data f)) = [] \<and>
   (\<forall>out. result (uploadToDatabase rt drv reg live rows data f) = Inr out \<longrightarrow>
      (\<exists>new. tableRows (uploadToDatabase rt drv reg live rows data f) = rows @ new \<and>
             length new = successCount out))"
proof (intro impI conjI allI)
  assume h: "\<forall>row \<in> set (mappedRows reg data f).
      \<not> truthy (getProp row ''SALES_DATE'') \<and> \<not> truthy (getProp row ''Tanggal'')"
  then have "\<forall>row \<in> set (mappedRows reg data f). rowDate row = None"
    by (simp add: falsy_rowDate)
  then show nw: "\<not> hasWindow (findWindow (detectTableName f data) (mappedRows reg data f))"
    by (rule no_date_no_window)
  then show "filter isDelete (issued (uploadToDatabase rt drv reg live rows data f)) = []"
    by (rule upload_issued_no_window)
  fix out assume r: "result (uploadToDatabase rt drv reg live rows data f) = Inr out"
  from nw have s: "txRows (loadStart drv reg rows data f) = rows"
    "nSuccess (loadStart drv reg rows data f) = 0"
    by (simp_all add: loadStart_def afterDelete_no_window afterDelete_fields)
  from insertRows_grows [of rt drv reg "detectTableName f data" "columnTypesOf live" 0
      "mappedRows reg data f" "loadStart drv reg rows data f"]
  obtain new where "txRows (loadEnd rt drv reg live rows data f) = rows @ new"
    "nSuccess (loadEnd rt drv reg live rows data f) = length new"
    unfolding loadEnd_def s by auto
  with upload_returned [OF r]
  show "\<exists>new. tableRows (uploadToDatabase rt drv reg live rows data f) = rows @ new \<and>
             length new = successCount out"
    by auto
qed

lemma threeBills_no_dates:
  "\<forall>row \<in> set (mappedRows detailRegistry threeBills ''snj_jan.csv'').
      \<not> truthy (getProp row ''SALES_DATE'') \<and> \<not> truthy (getProp row ''Tanggal'')"
  unfolding threeBills_mapped by (simp add: threeBills_def getProp_def truthy_def)

text \<open>
  The amended C5 at three bills without dates and a table that holds two rows.
\<close>

theorem no_date_value_no_delete_witness:
  "filter isDelete (issued (uploadToDatabase plainRuntime pickyDriver detailRegistry detailColumns
      oldRows threeBills ''snj_jan.csv'')) = [] \<and>
   (\<exists>out new.
      result (uploadToDatabase plainRuntime pickyDriver detailRegistry detailColumns
         oldRows threeBills ''snj_jan.csv'') = Inr out \<and>
      tableRows (uploadToDatabase plainRuntime pickyDriver detailRegistry detailColumns
         oldRows threeBills ''snj_jan.csv'') = oldRows @ new \<and> length new = successCount out)"
proof -
  let ?W = "uploadToDatabase plainRuntime pickyDriver detailRegistry detailColumns oldRows
              threeBills ''snj_jan.csv''"
  note t = no_date_value_no_delete [of detailRegistry threeBills "''snj_jan.csv''" plainRuntime
      pickyDriver detailColumns oldRows, THEN mp, OF threeBills_no_dates]
  from threeBills_loads [of oldRows] obtain out where o: "result ?W = Inr out" by blast
  from t o show ?thesis by blast
qed

lemma isValidColumn_iff:
  "isValidColumn ct col \<longleftrightarrow>
     (\<exists>t. ct col = Some t \<and> t \<noteq> []) \<or> (ct col = None \<and> col \<in> set objectPrototypeNames)"
  by (auto simp: isValidColumn_def lookupType_def split: option.splits)

lemma buildInsertHttp_valid:
  "buildInsertHttp rt t ct row = Statement q \<Longrightarrow> set (ins_columns q) \<subseteq> {col. isValidColumn ct col}"
  by (auto simp: buildInsertHttp_def validCells_def split: if_splits sum.splits)

lemma uploadHttp_issued_cases:
  "issued (uploadToDatabaseHttp rt drv live rows data t) = [] \<or>
   issued (uploadToDatabaseHttp rt drv live rows data t) =
     [Delete (buildDelete t (findWindowHttp t data))] \<or>
   issued (uploadToDatabaseHttp rt drv live rows data t) = sent (loadEndHttp rt drv live rows data t)"
  by (auto simp: uploadToDatabaseHttp_def thrown_def rolledBack_def Let_def
        loadEndHttp_def loadStartHttp_def split: option.splits)

lemma afterDeleteHttp_sent: "Insert q \<notin> set (sent (afterDeleteHttp drv t w rows))"
  by (simp add: afterDeleteHttp_def afterDelete_def Let_def)

text \<open>
  Every column an \<^verbatim>\<open>INSERT\<close> of server.js names passed \<^verbatim>\<open>if (columnTypes[col])\<close>: the
  live metadata declares it with a non-empty type, or it is undeclared and named like a
  member every object inherits.
\<close>

lemma http_insert_names_valid_columns:
  assumes "Insert q \<in> set (issued (uploadToDatabaseHttp rt drv live rows data t))"
  shows "\<forall>col \<in> set (ins_columns q).
           (\<exists>ty. columnTypesOf live col = Some ty \<and> ty \<noteq> []) \<or>
           (columnTypesOf live col = None \<and> col \<in> set objectPrototypeNames)"
proof -
  from assms uploadHttp_issued_cases [of rt drv live rows data t]
  have "Insert q \<in> set (sent (loadEndHttp rt drv live rows data t))" by auto
  then have "q \<in> set (statements (map (buildInsertHttp rt t (columnTypesOf live)) data))"
    using afterDeleteHttp_sent [of q drv t "findWindowHttp t data" rows]
    by (auto simp: loadEndHttp_def insertRowsHttp_sent loadStartHttp_def)
  then obtain row where "buildInsertHttp rt t (columnTypesOf live) row = Statement q"
    by (auto simp: statements_set)
  from buildInsertHttp_valid [OF this] show ?thesis by (auto simp: isValidColumn_iff)
qed

lemma extraColumn_table: "detectTableName ''snj_jan.csv'' extraColumn = ''SNJ_SRP_DETAIL''"
  by (simp add: detectTableName_def string_eval)

lemma extraColumn_mapped: "mappedRows detailRegistry extraColumn ''snj_jan.csv'' = extraColumn"
  by (simp add: mappedRows_def extraColumn_table detail_passes)

lemma extraColumn_no_dates: "\<forall>row \<in> set extraColumn. rowDate row = None"
  by (simp add: extraColumn_def falsy_rowDate getProp_def truthy_def)

text \<open>
  Claim C9 at a record with a column the destination does not declare. fileWatcher.js
  names the column \<^verbatim>\<open>EXTRA\<close> in its \<^verbatim>\<open>INSERT\<close>; server.js, on the same record and
  metadata, drops it (see \<open>http_insert_names_valid_columns\<close> for every batch).
\<close>

theorem watcher_insert_names_undeclared_column:
  "issued (uploadToDatabase plainRuntime pickyDriver detailRegistry detailColumns [] extraColumn
             ''snj_jan.csv'') =
     [Insert \<lparr>ins_table = ''SNJ_SRP_DETAIL'', ins_columns = [''BILL_NO'', ''EXTRA''],
              ins_params = [PText ''B1'', PText ''x'']\<rparr>] \<and>
   ''EXTRA'' \<notin> fst ` set detailColumns \<and>
   issued (uploadToDatabaseHttp plainRuntime pickyDriver detailColumns [] extraColumn
             ''SNJ_SRP_DETAIL'') =
     [Insert \<lparr>ins_table = ''SNJ_SRP_DETAIL'', ins_columns = [''BILL_NO''],
              ins_params = [PText ''B1'']\<rparr>]"
proof (intro conjI)
  let ?W = "uploadToDatabase plainRuntime pickyDriver detailRegistry detailColumns [] extraColumn
              ''snj_jan.csv''"
  let ?H = "uploadToDatabaseHttp plainRuntime pickyDriver detailColumns [] extraColumn
              ''SNJ_SRP_DETAIL''"
  have "\<exists>out. result ?W = Inr out"
    by (rule upload_succeeds [OF picky_healthy(1)])
       (simp_all add: extraColumn_table detail_schema detail_passes)
  then obtain out where o: "result ?W = Inr out" by blast
  have nw: "\<not> hasWindow (findWindow ''SNJ_SRP_DETAIL'' extraColumn)"
    using extraColumn_no_dates by (rule no_date_no_window)
  have i1: "issued ?W = sent (loadEnd plainRuntime pickyDriver detailRegistry detailColumns []
                            extraColumn ''snj_jan.csv'')"
    using upload_returned [OF o] by simp
  have i2: "sent (loadEnd plainRuntime pickyDriver detailRegistry detailColumns []
                            extraColumn ''snj_jan.csv'') =
        map Insert (statements (map (buildInsert plainRuntime detailRegistry ''SNJ_SRP_DETAIL''
                                       (columnTypesOf detailColumns)) extraColumn))"
    using afterDelete_no_window [OF nw, of pickyDriver "''SNJ_SRP_DETAIL''" "[]"]
    by (simp add: loadEnd_sent loadStart_def extraColumn_table extraColumn_mapped)
  have i3: "map (buildInsert plainRuntime detailRegistry ''SNJ_SRP_DETAIL''
                   (columnTypesOf detailColumns)) extraColumn =
        [Statement \<lparr>ins_table = ''SNJ_SRP_DETAIL'', ins_columns = [''BILL_NO'', ''EXTRA''],
              ins_params = [PText ''B1'', PText ''x'']\<rparr>]"
    by (simp add: extraColumn_def bind_eval detailRegistry_def detailSchema_def detailColumns_def
          plainRuntime_def)
  show "issued ?W = [Insert \<lparr>ins_table = ''SNJ_SRP_DETAIL'',
      ins_columns = [''BILL_NO'', ''EXTRA''], ins_params = [PText ''B1'', PText ''x'']\<rparr>]"
    unfolding i1 i2 i3 by simp
  show "''EXTRA'' \<notin> fst ` set detailColumns" by (simp add: detailColumns_def)
  from uploadHttp_succeeds [of pickyDriver plainRuntime detailColumns "[]" extraColumn
      "''SNJ_SRP_DETAIL''", OF picky_healthy(1)]
  obtain outH where oh: "result ?H = Inr outH" by blast
  have wh: "findWindowHttp ''SNJ_SRP_DETAIL'' extraColumn = \<lparr>minDate = None, maxDate = None, stores = []\<rparr>"
    by (simp add: findWindowHttp_def windowStepHttp_def extraColumn_def js_or_def getProp_def
          truthy_def collectStore_def emptyWindow_def)
  have h1: "issued ?H = sent (loadEndHttp plainRuntime pickyDriver detailColumns [] extraColumn
                            ''SNJ_SRP_DETAIL'')"
    using uploadHttp_returned [OF oh] by simp
  have h3: "map (buildInsertHttp plainRuntime ''SNJ_SRP_DETAIL'' (columnTypesOf detailColumns))
              extraColumn =
        [Statement \<lparr>ins_table = ''SNJ_SRP_DETAIL'', ins_columns = [''BILL_NO''],
              ins_params = [PText ''B1'']\<rparr>]"
    by (simp add: extraColumn_def bind_eval detailColumns_def plainRuntime_def)
  have h2: "sent (loadEndHttp plainRuntime pickyDriver detailColumns [] extraColumn
                            ''SNJ_SRP_DETAIL'') =
        [Insert \<lparr>ins_table = ''SNJ_SRP_DETAIL'', ins_columns = [''BILL_NO''],
              ins_params = [PText ''B1'']\<rparr>]"
    by (simp add: loadEndHttp_def insertRowsHttp_sent h3 loadStartHttp_def wh afterDeleteHttp_def
          afterDelete_def hasWindow_def)
  show "issued ?H = [Insert \<lparr>ins_table = ''SNJ_SRP_DETAIL'', ins_columns = [''BILL_NO''],
              ins_params = [PText ''B1'']\<rparr>]"
    unfolding h1 h2 by simp
qed

section \<open>Loading the same batch twice\<close>

lemma rowDate_nonempty: "rowDate row = Some d \<Longrightarrow> d \<noteq> []"
  by (auto simp: rowDate_def Let_def split: if_splits option.splits)

lemma windowStep_widens:
  assumes "minDate w = Some lo" "lo \<noteq> []" "maxDate w = Some hi" "hi \<noteq> []"
  shows "\<exists>lo' hi'. minDate (windowStep t row w) = Some lo' \<and> lo' \<noteq> [] \<and> lo' \<le> lo \<and>
                   maxDate (windowStep t row w) = Some hi' \<and> hi' \<noteq> [] \<and> hi \<le> hi'"
proof (cases "rowDate row")
  case None
  with assms show ?thesis by (simp add: windowStep_rowDate)
next
  case (Some d)
  then have "d \<noteq> []" by (rule rowDate_nonempty)
  with Some assms show ?thesis
    by (auto simp: windowStep_rowDate lowerBound_def upperBound_def)
qed

lemma fold_windowStep_widens:
  assumes "minDate w = Some lo" "lo \<noteq> []" "maxDate w = Some hi" "hi \<noteq> []"
  shows "\<exists>lo' hi'. minDate (fold (windowStep t) xs w) = Some lo' \<and> lo' \<noteq> [] \<and> lo' \<le> lo \<and>
                   maxDate (fold (windowStep t) xs w) = Some hi' \<and> hi' \<noteq> [] \<and> hi \<le> hi'"
  using assms
proof (induction xs arbitrary: w lo hi)
  case Nil
  then show ?case by simp
next
  case (Cons row rest)
  from windowStep_widens [OF Cons.prems, of t row] obtain lo1 hi1 where
    s: "minDate (windowStep t row w) = Some lo1" "lo1 \<noteq> []" "lo1 \<le> lo"
       "maxDate (windowStep t row w) = Some hi1" "hi1 \<noteq> []" "hi \<le> hi1"
    by blast
  from Cons.IH [OF s(1) s(2) s(4) s(5)] obtain lo' hi' where
    "minDate (fold (windowStep t) rest (windowStep t row w)) = Some lo'" "lo' \<noteq> []" "lo' \<le> lo1"
    "maxDate (fold (windowStep t) rest (windowStep t row w)) = Some hi'" "hi' \<noteq> []" "hi1 \<le> hi'"
    by blast
  with s show ?case by (intro exI [of _ lo'] exI [of _ hi']) auto
qed

lemma windowStep_takes_date:
  assumes "rowDate row = Some d"
  shows "\<exists>lo hi. minDate (windowStep t row w) = Some lo \<and> lo \<noteq> [] \<and> lo \<le> d \<and>
                 maxDate (windowStep t row w) = Some hi \<and> hi \<noteq> [] \<and> d \<le> hi"
proof -
  from assms have "d \<noteq> []" by (rule rowDate_nonempty)
  with assms show ?thesis
    by (auto simp: windowStep_rowDate lowerBound_def upperBound_def split: option.splits)
qed

lemma fold_windowStep_covers:
  assumes "row \<in> set xs" "rowDate row = Some d"
  shows "\<exists>lo hi. minDate (fold (windowStep t) xs w) = Some lo \<and> lo \<noteq> [] \<and> lo \<le> d \<and>
                 maxDate (fold (windowStep t) xs w) = Some hi \<and> hi \<noteq> [] \<and> d \<le> hi"
  using assms(1)
proof (induction xs arbitrary: w)
  case Nil
  then show ?case by simp
next
  case (Cons x rest)
  show ?case
  proof (cases "row \<in> set rest")
    case True
    from Cons.IH [OF True, of "windowStep t x w"] show ?thesis by simp
  next
    case False
    with Cons.prems have "x = row" by simp
    from windowStep_takes_date [OF assms(2), of t w] obtain lo hi where
      s: "minDate (windowStep t row w) = Some lo" "lo \<noteq> []" "lo \<le> d"
         "maxDate (windowStep t row w) = Some hi" "hi \<noteq> []" "d \<le> hi"
      by blast
    from fold_windowStep_widens [OF s(1) s(2) s(4) s(5), of t rest] obtain lo' hi' where
      "minDate (fold (windowStep t) rest (windowStep t row w)) = Some lo'" "lo' \<noteq> []" "lo' \<le> lo"
      "maxDate (fold (windowStep t) rest (windowStep t row w)) = Some hi'" "hi' \<noteq> []" "hi \<le> hi'"
      by blast
    with s \<open>x = row\<close> show ?thesis by (intro exI [of _ lo'] exI [of _ hi']) auto
  qed
qed

lemma windowStep_bound_from:
  "(minDate (windowStep t row w) = minDate w \<or> minDate (windowStep t row w) = rowDate row) \<and>
   (maxDate (windowStep t row w) = maxDate w \<or> maxDate (windowStep t row w) = rowDate row)"
  by (cases "rowDate row")
     (auto simp: windowStep_rowDate lowerBound_def upperBound_def split: option.splits)

lemma fold_windowStep_attained:
  "(minDate (fold (windowStep t) xs w) = minDate w \<or>
    (\<exists>a \<in> set xs. rowDate a = minDate (fold (windowStep t) xs w))) \<and>
   (maxDate (fold (windowStep t) xs w) = maxDate w \<or>
    (\<exists>b \<in> set xs. rowDate b = maxDate (fold (windowStep t) xs w)))"
proof (induction xs arbitrary: w)
  case Nil
  then show ?case by simp
next
  case (Cons x rest)
  from Cons.IH [of "windowStep t x w"] windowStep_bound_from [of t x w]
  show ?case by (simp del: fold_simps add: fold_simps) metis
qed

lemma window_bounds_attained:
  assumes "minDate (findWindow t xs) = Some lo" "maxDate (findWindow t xs) = Some hi"
  shows "(\<exists>a \<in> set xs. rowDate a = Some lo) \<and> (\<exists>b \<in> set xs. rowDate b = Some hi)"
  using fold_windowStep_attained [of t xs emptyWindow] assms
  by (auto simp: findWindow_def emptyWindow_def)

lemma dated_row_gives_window:
  assumes "row \<in> set xs" "rowDate row = Some d"
  shows "hasWindow (findWindow t xs)"
  using fold_windowStep_covers [OF assms, of t emptyWindow]
  by (auto simp: findWindow_def hasWindow_def)

lemma detectTableName_range:
  "detectTableName f data = ''SNJ_SRP_DETAIL'' \<or>
   detectTableName f data = ''SALES_INVOICE_ACCURATE_ONLINE''"
  by (auto simp: detectTableName_def Let_def split: list.splits)

lemma collectStore_column:
  assumes "t = ''SNJ_SRP_DETAIL'' \<or> t = ''SALES_INVOICE_ACCURATE_ONLINE''"
  shows "collectStore t row ss =
           (if truthy (getProp row (storeColumnOf t))
            then addStore (toText (getProp row (storeColumnOf t))) ss else ss)"
  using assms by (auto simp: collectStore_def storeColumnOf_def)

lemma stores_windowStep: "stores (windowStep t row w) = collectStore t row (stores w)"
  by (simp add: windowStep_rowDate split: option.splits)

lemma set_addStore: "set (addStore s ss) = insert s (set ss)"
  by (auto simp: addStore_def)

lemma fold_windowStep_stores:
  assumes "t = ''SNJ_SRP_DETAIL'' \<or> t = ''SALES_INVOICE_ACCURATE_ONLINE''"
  shows "set (stores (fold (windowStep t) xs w)) =
           set (stores w) \<union>
           {toText (getProp row (storeColumnOf t)) | row. row \<in> set xs \<and> truthy (getProp row (storeColumnOf t))}"
proof (induction xs arbitrary: w)
  case Nil
  then show ?case by simp
next
  case (Cons x rest)
  show ?case
    unfolding fold_simps Cons.IH stores_windowStep collectStore_column [OF assms]
    by (auto simp: set_addStore)
qed

lemma no_store_value_no_store_list:
  assumes "t = ''SNJ_SRP_DETAIL'' \<or> t = ''SALES_INVOICE_ACCURATE_ONLINE''"
    and "\<forall>row \<in> set xs. \<not> truthy (getProp row (storeColumnOf t))"
  shows "stores (findWindow t xs) = []"
proof -
  from assms(2) have "set (stores (findWindow t xs)) = {}"
    unfolding findWindow_def fold_windowStep_stores [OF assms(1)] by (simp add: emptyWindow_def)
  then show ?thesis by simp
qed

lemma store_value_in_store_list:
  assumes "t = ''SNJ_SRP_DETAIL'' \<or> t = ''SALES_INVOICE_ACCURATE_ONLINE''"
    and "row \<in> set xs" "truthy (getProp row (storeColumnOf t))"
  shows "toText (getProp row (storeColumnOf t)) \<in> set (stores (findWindow t xs))"
  using assms(2,3) unfolding findWindow_def fold_windowStep_stores [OF assms(1)] by auto

lemma execDelete_all: "\<forall>r \<in> set rows. deleteMatches drv d r \<Longrightarrow> execDelete drv d rows = []"
  by (simp add: execDelete_def)

lemma loadStart_empty_table: "txRows (loadStart drv reg [] data f) = []"
  by (simp add: loadStart_def afterDelete_def execDelete_def Let_def)

lemma upload_all_accepted:
  assumes "healthy drv" "reg (detectTableName f data) \<noteq> None"
    and "mapAll reg (detectTableName f data) data = Inr mapped"
    and "map (buildInsert rt reg (detectTableName f data) (columnTypesOf live)) mapped =
           map Statement qs"
    and "storeVerdicts drv (txRows (loadStart drv reg rows data f)) qs = replicate (length qs) None"
  shows "result (uploadToDatabase rt drv reg live rows data f) =
           Inr \<lparr>success = True, successCount = length data, errorCount = 0,
                dateRange = showDate (minDate (findWindow (detectTableName f data) mapped)) @
                            '' to '' @
                            showDate (maxDate (findWindow (detectTableName f data) mapped)),
                storeList = stores (findWindow (detectTableName f data) mapped)\<rparr> \<and>
         tableRows (uploadToDatabase rt drv reg live rows data f) =
           txRows (loadStart drv reg rows data f) @ map storedRow qs"
proof -
  note m = mappedRows_returned [OF assms(3)] and len = mapAll_length [OF assms(3)]
  note a = insertRows_accepted [OF assms(4,5), of 0]
  note o = upload_outcome [OF assms(1,2,3), of rt live rows]
  from a len have c: "nSuccess (loadEnd rt drv reg live rows data f) = length data"
    "nError (loadEnd rt drv reg live rows data f) = 0"
    "txRows (loadEnd rt drv reg live rows data f) = txRows (loadStart drv reg rows data f) @ map storedRow qs"
    by (simp_all add: loadEnd_def m loadStart_fields)
  from o c upload_returned [of rt drv reg live rows data f] show ?thesis by simp
qed

text \<open>
  Claim C1, amended. Nothing but single-row inserts can fail, every record yields a
  statement and the store accepts all of them. Further: (1) for every record, the text
  the window reads from it is a date for the driver, and the store holds that same date
  in the date column of the row inserted for the record; (2) among the window texts of
  the batch, the order of the texts agrees with the order of the dates; (3) either no
  record has a store value, or every record has one and the store column of its row is
  bound to that text. Then the first load into the empty table leaves \<open>N\<close> rows, the
  delete of the second load removes all of them, and the second load leaves the same
  \<open>N\<close> rows.
\<close>

theorem reload_replaces_own_rows:
  assumes "healthy drv" and "reg (detectTableName f data) \<noteq> None"
    and "mapAll reg (detectTableName f data) data = Inr mapped"
    and "map (buildInsert rt reg (detectTableName f data) (columnTypesOf live)) mapped =
           map Statement qs"
    and "storeVerdicts drv [] qs = replicate (length qs) None"
    and "list_all2 (\<lambda>row q. windowDate drv row \<noteq> None \<and>
                            storedDateOf drv (detectTableName f data) q = windowDate drv row)
           mapped qs"
    and "\<forall>a \<in> set mapped. \<forall>b \<in> set mapped. \<forall>da db xa xb.
           rowDate a = Some da \<and> rowDate b = Some db \<and> da \<le> db \<and>
           readDate drv da = Some xa \<and> readDate drv db = Some xb \<longrightarrow> xa \<le> xb"
    and "(\<forall>row \<in> set mapped. \<not> truthy (getProp row (storeColumnOf (detectTableName f data)))) \<or>
         list_all2 (\<lambda>row q. truthy (getProp row (storeColumnOf (detectTableName f data))) \<and>
                             map_of (storedRow q) (storeColumnOf (detectTableName f data)) =
                               Some (PText (toText (getProp row (storeColumnOf (detectTableName f data))))))
           mapped qs"
  shows "length (tableRows (uploadToDatabase rt drv reg live [] data f)) = length data \<and>
         txRows (loadStart drv reg (tableRows (uploadToDatabase rt drv reg live [] data f)) data f) = [] \<and>
         tableRows (uploadToDatabase rt drv reg live
                      (tableRows (uploadToDatabase rt drv reg live [] data f)) data f) =
           tableRows (uploadToDatabase rt drv reg live [] data f) \<and>
         length (tableRows (uploadToDatabase rt drv reg live
                      (tableRows (uploadToDatabase rt drv reg live [] data f)) data f)) = length data"
proof -
  let ?t = "detectTableName f data"
  let ?w = "findWindow ?t mapped"
  let ?d = "buildDelete ?t ?w"
  let ?stored = "map storedRow qs"
  let ?run1 = "uploadToDatabase rt drv reg live [] data f"
  note range = detectTableName_range [of f data]
  note m = mappedRows_returned [OF assms(3)]
  have lenq: "length qs = length mapped" using assms(4) by (metis length_map)
  have lend: "length mapped = length data" using assms(3) by (rule mapAll_length)
  have v1: "storeVerdicts drv (txRows (loadStart drv reg [] data f)) qs = replicate (length qs) None"
    using assms(5) by (simp add: loadStart_empty_table)
  have first: "tableRows ?run1 = ?stored"
    using upload_all_accepted [OF assms(1,2,3,4) v1] by (simp add: loadStart_empty_table)
  have matches: "deleteMatches drv ?d (storedRow (qs ! i))" if i: "i < length mapped" for i
  proof -
    let ?row = "mapped ! i" and ?q = "qs ! i"
    from i have mem: "?row \<in> set mapped" by simp
    from assms(6) i have wd: "windowDate drv ?row \<noteq> None"
      and sd: "storedDateOf drv ?t ?q = windowDate drv ?row"
      by (simp_all add: list_all2_conv_all_nth)
    from wd obtain di xi where di: "rowDate ?row = Some di" and xi: "readDate drv di = Some xi"
      by (auto simp: windowDate_def split: option.splits)
    from fold_windowStep_covers [OF mem di, of ?t emptyWindow] obtain lo hi where
      w: "minDate ?w = Some lo" "lo \<le> di" "maxDate ?w = Some hi" "di \<le> hi"
      unfolding findWindow_def by blast
    from window_bounds_attained [OF w(1) w(3)] obtain a b where
      a: "a \<in> set mapped" "rowDate a = Some lo" and b: "b \<in> set mapped" "rowDate b = Some hi"
      by blast
    from a obtain ia where "ia < length mapped" "mapped ! ia = a" by (auto simp: in_set_conv_nth)
    with assms(6) have "windowDate drv a \<noteq> None" by (auto simp: list_all2_conv_all_nth)
    with a(2) obtain xa where xa: "readDate drv lo = Some xa"
      by (auto simp: windowDate_def)
    from b obtain ib where "ib < length mapped" "mapped ! ib = b" by (auto simp: in_set_conv_nth)
    with assms(6) have "windowDate drv b \<noteq> None" by (auto simp: list_all2_conv_all_nth)
    with b(2) obtain xb where xb: "readDate drv hi = Some xb"
      by (auto simp: windowDate_def)
    from assms(7) a mem di w(2) xa xi have le1: "xa \<le> xi" by blast
    from assms(7) b mem di w(4) xb xi have le2: "xi \<le> xb" by blast
    from sd di xi obtain p where p: "map_of (storedRow ?q) (dateColumnOf ?t) = Some p"
      "storedDate drv p = Some xi"
      by (auto simp: storedDateOf_def windowDate_def split: option.splits)
    have dr: "inDateRange drv ?d (storedRow ?q)"
      using p w xa xb le1 le2 by (simp add: inDateRange_def buildDelete_def)
    from assms(8) have "del_stores ?d = [] \<or> inStoreList ?d (storedRow ?q)"
    proof
      assume "\<forall>row \<in> set mapped. \<not> truthy (getProp row (storeColumnOf ?t))"
      with range have "stores ?w = []" by (rule no_store_value_no_store_list)
      then show ?thesis by (simp add: buildDelete_def)
    next
      assume "list_all2 (\<lambda>row q. truthy (getProp row (storeColumnOf ?t)) \<and>
                             map_of (storedRow q) (storeColumnOf ?t) =
                               Some (PText (toText (getProp row (storeColumnOf ?t))))) mapped qs"
      with i have tr: "truthy (getProp ?row (storeColumnOf ?t))"
        and st: "map_of (storedRow ?q) (storeColumnOf ?t) =
                   Some (PText (toText (getProp ?row (storeColumnOf ?t))))"
        by (simp_all add: list_all2_conv_all_nth)
      from store_value_in_store_list [OF range mem tr] st
      have "inStoreList ?d (storedRow ?q)" by (simp add: inStoreList_def buildDelete_def)
      then show ?thesis by simp
    qed
    with dr show ?thesis by (simp add: deleteMatches_def)
  qed
  have all: "\<forall>r \<in> set ?stored. deleteMatches drv ?d r"
  proof
    fix r assume "r \<in> set ?stored"
    then obtain i where "i < length qs" "r = storedRow (qs ! i)"
      by (auto simp: in_set_conv_nth)
    with matches lenq show "deleteMatches drv ?d r" by simp
  qed
  have start2: "txRows (loadStart drv reg ?stored data f) = []"
  proof (cases "mapped = []")
    case True
    with lenq have "qs = []" by simp
    then show ?thesis by (simp add: loadStart_empty_table)
  next
    case False
    then obtain row where row: "row \<in> set mapped" by (cases mapped) auto
    then obtain i where "i < length mapped" "mapped ! i = row" by (auto simp: in_set_conv_nth)
    with assms(6) have "windowDate drv row \<noteq> None" by (auto simp: list_all2_conv_all_nth)
    then obtain dd where "rowDate row = Some dd" by (auto simp: windowDate_def split: option.splits)
    with row have "hasWindow ?w" by (rule dated_row_gives_window)
    then have "txRows (loadStart drv reg ?stored data f) = execDelete drv ?d ?stored"
      by (simp add: loadStart_def m afterDelete_window)
    with all show ?thesis by (simp add: execDelete_all)
  qed
  have v2: "storeVerdicts drv (txRows (loadStart drv reg ?stored data f)) qs = replicate (length qs) None"
    using assms(5) by (simp add: start2)
  have second: "tableRows (uploadToDatabase rt drv reg live ?stored data f) = ?stored"
    using upload_all_accepted [OF assms(1,2,3,4) v2] by (simp add: start2)
  from first lenq lend start2 second show ?thesis by simp
qed

section \<open>Two loads at concrete batches\<close>

lemma accepting_healthy: "healthy acceptingDriver"
  by (simp add: healthy_def acceptingDriver_def)

lemma accepting_verdicts: "storeVerdicts acceptingDriver rows qs = replicate (length qs) None"
  by (induction qs arbitrary: rows) (simp_all add: execInsert_def acceptingDriver_def)

lemma accepted_load:
  assumes "reg (detectTableName f data) \<noteq> None"
    and "mapAll reg (detectTableName f data) data = Inr mapped"
    and "map (buildInsert rt reg (detectTableName f data) (columnTypesOf live)) mapped =
           map Statement qs"
  shows "result (uploadToDatabase rt acceptingDriver reg live rows data f) =
           Inr \<lparr>success = True, successCount = length data, errorCount = 0,
                dateRange = showDate (minDate (findWindow (detectTableName f data) mapped)) @
                            '' to '' @
                            showDate (maxDate (findWindow (detectTableName f data) mapped)),
                storeList = stores (findWindow (detectTableName f data) mapped)\<rparr> \<and>
         tableRows (uploadToDatabase rt acceptingDriver reg live rows data f) =
           txRows (loadStart acceptingDriver reg rows data f) @ map storedRow qs"
  by (rule upload_all_accepted [OF accepting_healthy assms accepting_verdicts])

lemmas window_eval =
  findWindow_def windowStep_def js_or_def getProp_def truthy_def lowerBound_def upperBound_def
  collectStore_def addStore_def toText_def emptyWindow_def less_char_def

lemma dayNumber_eval:
  "dayNumber ''2024-01-01'' = Some 19723" "dayNumber ''2024-12-25'' = Some 20082"
  "dayNumber ''12/25/2024'' = Some 20082" "dayNumber ''2025-01-05'' = Some 20093"
  "dayNumber ''1/5/2025'' = Some 20093" "dayNumber ''2025-02-01'' = Some 20120"
  by (simp_all add: dayNumber_def)

lemma accepting_dates: "readDate acceptingDriver = dayNumber" "castDate acceptingDriver = dayNumber"
  by (simp_all add: acceptingDriver_def)

lemmas delete_eval =
  afterDelete_def hasWindow_def buildDelete_def dateColumnOf_def storeColumnOf_def
  execDelete_def deleteMatches_def inDateRange_def inStoreList_def storedDate_def
  accepting_dates dayNumber_eval Let_def

lemma parseDate_texts:
  "parseDate (JStr ''2025-02-01'') = Some ''2025-02-01''"
  "parseDate (JStr ''2024-01-01'') = Some ''2024-01-01''"
  "parseDate (JStr ''1/5/2025'') = Some ''1/5/2025''"
  "parseDate (JStr ''12/25/2024'') = Some ''12/25/2024''"
  by (simp_all add: date_eval)

lemma both_schema:
  "bothRegistry ''SNJ_SRP_DETAIL'' \<noteq> None" "bothRegistry ''SALES_INVOICE_ACCURATE_ONLINE'' \<noteq> None"
  by (simp_all add: bothRegistry_def)

lemma both_passes: "mapAll bothRegistry ''SALES_INVOICE_ACCURATE_ONLINE'' data = Inr data"
  by (rule mapAll_passes_through) (simp add: bothRegistry_def invoiceSchema_def)

lemma mixedStores_table: "detectTableName ''snj_jan.csv'' mixedStores = ''SNJ_SRP_DETAIL''"
  by (simp add: detectTableName_def string_eval)

lemma mixedStores_mapped: "mappedRows detailRegistry mixedStores ''snj_jan.csv'' = mixedStores"
  by (simp add: mappedRows_def mixedStores_table detail_passes)

lemma mixedStores_window:
  "findWindow ''SNJ_SRP_DETAIL'' mixedStores =
     \<lparr>minDate = Some ''2025-01-05'', maxDate = Some ''2025-01-05'', stores = [''S1'']\<rparr>"
  by (simp add: window_eval mixedStores_def parseDate_iso)

lemma mixedStores_statements:
  "map (buildInsert plainRuntime detailRegistry ''SNJ_SRP_DETAIL'' (columnTypesOf detailColumns))
     mixedStores =
   map Statement
     [\<lparr>ins_table = ''SNJ_SRP_DETAIL'', ins_columns = [''SALES_DATE'', ''ORG_CODE_NAME''],
       ins_params = [PDate (Some ''2025-01-05''), PText ''S1'']\<rparr>,
      \<lparr>ins_table = ''SNJ_SRP_DETAIL'', ins_columns = [''SALES_DATE'', ''ORG_CODE_NAME''],
       ins_params = [PDate (Some ''2025-01-05''), PNull]\<rparr>]"
  by (simp add: mixedStores_def bind_eval detailRegistry_def detailSchema_def detailColumns_def
        plainRuntime_def parseDate_iso)

lemma mixedStores_second_start:
  "txRows (loadStart acceptingDriver detailRegistry
      [[(''SALES_DATE'', PDate (Some ''2025-01-05'')), (''ORG_CODE_NAME'', PText ''S1'')],
       [(''SALES_DATE'', PDate (Some ''2025-01-05'')), (''ORG_CODE_NAME'', PNull)]]
      mixedStores ''snj_jan.csv'') =
   [[(''SALES_DATE'', PDate (Some ''2025-01-05'')), (''ORG_CODE_NAME'', PNull)]]"
  by (simp add: loadStart_def mixedStores_table mixedStores_mapped mixedStores_window delete_eval)

lemma mixedStores_reload:
  "result (uploadToDatabase plainRuntime acceptingDriver detailRegistry detailColumns []
             mixedStores ''snj_jan.csv'') =
     Inr \<lparr>success = True, successCount = 2, errorCount = 0,
          dateRange = ''2025-01-05 to 2025-01-05'', storeList = [''S1'']\<rparr> \<and>
   tableRows (uploadToDatabase plainRuntime acceptingDriver detailRegistry detailColumns []
                mixedStores ''snj_jan.csv'') =
     [[(''SALES_DATE'', PDate (Some ''2025-01-05'')), (''ORG_CODE_NAME'', PText ''S1'')],
      [(''SALES_DATE'', PDate (Some ''2025-01-05'')), (''ORG_CODE_NAME'', PNull)]] \<and>
   result (uploadToDatabase plainRuntime acceptingDriver detailRegistry detailColumns
             [[(''SALES_DATE'', PDate (Some ''2025-01-05'')), (''ORG_CODE_NAME'', PText ''S1'')],
              [(''SALES_DATE'', PDate (Some ''2025-01-05'')), (''ORG_CODE_NAME'', PNull)]]
             mixedStores ''snj_jan.csv'') =
     Inr \<lparr>success = True, successCount = 2, errorCount = 0,
          dateRange = ''2025-01-05 to 2025-01-05'', storeList = [''S1'']\<rparr> \<and>
   tableRows (uploadToDatabase plainRuntime acceptingDriver detailRegistry detailColumns
                [[(''SALES_DATE'', PDate (Some ''2025-01-05'')), (''ORG_CODE_NAME'', PText ''S1'')],
                 [(''SALES_DATE'', PDate (Some ''2025-01-05'')), (''ORG_CODE_NAME'', PNull)]]
                mixedStores ''snj_jan.csv'') =
     [[(''SALES_DATE'', PDate (Some ''2025-01-05'')), (''ORG_CODE_NAME'', PNull)],
      [(''SALES_DATE'', PDate (Some ''2025-01-05'')), (''ORG_CODE_NAME'', PText ''S1'')],
      [(''SALES_DATE'', PDate (Some ''2025-01-05'')), (''ORG_CODE_NAME'', PNull)]]"
proof -
  have r: "detailRegistry (detectTableName ''snj_jan.csv'' mixedStores) \<noteq> None"
    "mapAll detailRegistry (detectTableName ''snj_jan.csv'' mixedStores) mixedStores = Inr mixedStores"
    by (simp_all add: mixedStores_table detail_schema detail_passes)
  note s = mixedStores_statements [folded mixedStores_table]
  have len: "length mixedStores = 2" by (simp add: mixedStores_def)
  note a1 = accepted_load [OF r s, of "[]"]
  note a2 = accepted_load [OF r s,
      of "[[(''SALES_DATE'', PDate (Some ''2025-01-05'')), (''ORG_CODE_NAME'', PText ''S1'')],
           [(''SALES_DATE'', PDate (Some ''2025-01-05'')), (''ORG_CODE_NAME'', PNull)]]"]
  from a1 a2 show ?thesis
    by (simp add: loadStart_empty_table mixedStores_second_start len mixedStores_table
          mixedStores_window showDate_def storedRow_def)
qed

lemma slashDates_table: "detectTableName ''snj_jan.csv'' slashDates = ''SNJ_SRP_DETAIL''"
  by (simp add: detectTableName_def string_eval)

lemma slashDates_mapped: "mappedRows detailRegistry slashDates ''snj_jan.csv'' = slashDates"
  by (simp add: mappedRows_def slashDates_table detail_passes)

lemma slashDates_window:
  "findWindow ''SNJ_SRP_DETAIL'' slashDates =
     \<lparr>minDate = Some ''1/5/2025'', maxDate = Some ''12/25/2024'', stores = []\<rparr>"
  by (simp add: window_eval slashDates_def parseDate_iso parseDate_texts)

lemma slashDates_statements:
  "map (buildInsert plainRuntime detailRegistry ''SNJ_SRP_DETAIL'' (columnTypesOf detailColumns))
     slashDates =
   map Statement
     [\<lparr>ins_table = ''SNJ_SRP_DETAIL'', ins_columns = [''SALES_DATE''],
       ins_params = [PDate (Some ''1/5/2025'')]\<rparr>,
     \<lparr>ins_table = ''SNJ_SRP_DETAIL'', ins_columns = [''SALES_DATE''],
       ins_params = [PDate (Some ''12/25/2024'')]\<rparr>]"
  by (simp add: slashDates_def bind_eval detailRegistry_def detailSchema_def detailColumns_def
        plainRuntime_def parseDate_iso parseDate_texts)

lemma slashDates_second_start:
  "txRows (loadStart acceptingDriver detailRegistry
      [[(''SALES_DATE'', PDate (Some ''1/5/2025''))],
      [(''SALES_DATE'', PDate (Some ''12/25/2024''))]]
      slashDates ''snj_jan.csv'') =
   [[(''SALES_DATE'', PDate (Some ''1/5/2025''))],
   [(''SALES_DATE'', PDate (Some ''12/25/2024''))]]"
  by (simp add: loadStart_def slashDates_table slashDates_mapped slashDates_window delete_eval)

lemma slashDates_reload:
  "result (uploadToDatabase plainRuntime acceptingDriver detailRegistry detailColumns
      []
      slashDates ''snj_jan.csv'') =
     Inr \<lparr>success = True, successCount = 2, errorCount = 0,
          dateRange = ''1/5/2025 to 12/25/2024'', storeList = []\<rparr> \<and>
   tableRows (uploadToDatabase plainRuntime acceptingDriver detailRegistry detailColumns
      []
      slashDates ''snj_jan.csv'') =
     [[(''SALES_DATE'', PDate (Some ''1/5/2025''))],
      [(''SALES_DATE'', PDate (Some ''12/25/2024''))]] \<and>
   result (uploadToDatabase plainRuntime acceptingDriver detailRegistry detailColumns
      [[(''SALES_DATE'', PDate (Some ''1/5/2025''))],
      [(''SALES_DATE'', PDate (Some ''12/25/2024''))]]
      slashDates ''snj_jan.csv'') =
     Inr \<lparr>success = True, successCount = 2, errorCount = 0,
          dateRange = ''1/5/2025 to 12/25/2024'', storeList = []\<rparr> \<and>
   tableRows (uploadToDatabase plainRuntime acceptingDriver detailRegistry detailColumns
      [[(''SALES_DATE'', PDate (Some ''1/5/2025''))],
      [(''SALES_DATE'', PDate (Some ''12/25/2024''))]]
      slashDates ''snj_jan.csv'') =
     [[(''SALES_DATE'', PDate (Some ''1/5/2025''))],
      [(''SALES_DATE'', PDate (Some ''12/25/2024''))],
      [(''SALES_DATE'', PDate (Some ''1/5/2025''))],
      [(''SALES_DATE'', PDate (Some ''12/25/2024''))]]"
proof -
  have r: "detailRegistry (detectTableName ''snj_jan.csv'' slashDates) \<noteq> None"
    "mapAll detailRegistry (detectTableName ''snj_jan.csv'' slashDates) slashDates = Inr slashDates"
    by (simp_all add: slashDates_table detail_schema detail_passes)
  note s = slashDates_statements [folded slashDates_table]
  have len: "length slashDates = 2" by (simp add: slashDates_def)
  note a1 = accepted_load [OF r s, of "[]"]
  note a2 = accepted_load [OF r s,
      of "[[(''SALES_DATE'', PDate (Some ''1/5/2025''))],
      [(''SALES_DATE'', PDate (Some ''12/25/2024''))]]"]
  from a1 a2 show ?thesis
    by (simp add: loadStart_empty_table slashDates_second_start len slashDates_table
          slashDates_window showDate_def storedRow_def)
qed

lemma twoDateColumns_table: "detectTableName ''accurate_jan.csv'' twoDateColumns = ''SALES_INVOICE_ACCURATE_ONLINE''"
  by (simp add: detectTableName_def string_eval)

lemma twoDateColumns_mapped: "mappedRows bothRegistry twoDateColumns ''accurate_jan.csv'' = twoDateColumns"
  by (simp add: mappedRows_def twoDateColumns_table both_passes)

lemma twoDateColumns_window:
  "findWindow ''SALES_INVOICE_ACCURATE_ONLINE'' twoDateColumns =
     \<lparr>minDate = Some ''2024-01-01'', maxDate = Some ''2024-01-01'', stores = []\<rparr>"
  by (simp add: window_eval twoDateColumns_def parseDate_iso parseDate_texts)

lemma twoDateColumns_statements:
  "map (buildInsert plainRuntime bothRegistry ''SALES_INVOICE_ACCURATE_ONLINE'' (columnTypesOf invoiceColumns))
     twoDateColumns =
   map Statement
     [\<lparr>ins_table = ''SALES_INVOICE_ACCURATE_ONLINE'', ins_columns = [''Tanggal'', ''SALES_DATE''],
       ins_params = [PDate (Some ''2025-01-05''), PDate (Some ''2024-01-01'')]\<rparr>]"
  by (simp add: twoDateColumns_def bind_eval bothRegistry_def invoiceSchema_def invoiceColumns_def
        plainRuntime_def parseDate_iso parseDate_texts)

lemma twoDateColumns_second_start:
  "txRows (loadStart acceptingDriver bothRegistry
      [[(''Tanggal'', PDate (Some ''2025-01-05'')), (''SALES_DATE'', PDate (Some ''2024-01-01''))]]
      twoDateColumns ''accurate_jan.csv'') =
   [[(''Tanggal'', PDate (Some ''2025-01-05'')), (''SALES_DATE'', PDate (Some ''2024-01-01''))]]"
  by (simp add: loadStart_def twoDateColumns_table twoDateColumns_mapped twoDateColumns_window delete_eval)

lemma twoDateColumns_reload:
  "result (uploadToDatabase plainRuntime acceptingDriver bothRegistry invoiceColumns
      []
      twoDateColumns ''accurate_jan.csv'') =
     Inr \<lparr>success = True, successCount = 1, errorCount = 0,
          dateRange = ''2024-01-01 to 2024-01-01'', storeList = []\<rparr> \<and>
   tableRows (uploadToDatabase plainRuntime acceptingDriver bothRegistry invoiceColumns
      []
      twoDateColumns ''accurate_jan.csv'') =
     [[(''Tanggal'', PDate (Some ''2025-01-05'')), (''SALES_DATE'', PDate (Some ''2024-01-01''))]] \<and>
   result (uploadToDatabase plainRuntime acceptingDriver bothRegistry invoiceColumns
      [[(''Tanggal'', PDate (Some ''2025-01-05'')), (''SALES_DATE'', PDate (Some ''2024-01-01''))]]
      twoDateColumns ''accurate_jan.csv'') =
     Inr \<lparr>success = True, successCount = 1, errorCount = 0,
          dateRange = ''2024-01-01 to 2024-01-01'', storeList = []\<rparr> \<and>
   tableRows (uploadToDatabase plainRuntime acceptingDriver bothRegistry invoiceColumns
      [[(''Tanggal'', PDate (Some ''2025-01-05'')), (''SALES_DATE'', PDate (Some ''2024-01-01''))]]
      twoDateColumns ''accurate_jan.csv'') =
     [[(''Tanggal'', PDate (Some ''2025-01-05'')), (''SALES_DATE'', PDate (Some ''2024-01-01''))],
      [(''Tanggal'', PDate (Some ''2025-01-05'')), (''SALES_DATE'', PDate (Some ''2024-01-01''))]]"
proof -
  have r: "bothRegistry (detectTableName ''accurate_jan.csv'' twoDateColumns) \<noteq> None"
    "mapAll bothRegistry (detectTableName ''accurate_jan.csv'' twoDateColumns) twoDateColumns = Inr twoDateColumns"
    by (simp_all add: twoDateColumns_table both_schema both_passes)
  note s = twoDateColumns_statements [folded twoDateColumns_table]
  have len: "length twoDateColumns = 1" by (simp add: twoDateColumns_def)
  note a1 = accepted_load [OF r s, of "[]"]
  note a2 = accepted_load [OF r s,
      of "[[(''Tanggal'', PDate (Some ''2025-01-05'')), (''SALES_DATE'', PDate (Some ''2024-01-01''))]]"]
  from a1 a2 show ?thesis
    by (simp add: loadStart_empty_table twoDateColumns_second_start len twoDateColumns_table
          twoDateColumns_window showDate_def storedRow_def)
qed

lemma exponentStore_table: "detectTableName ''snj_jan.csv'' exponentStore = ''SNJ_SRP_DETAIL''"
  by (simp add: detectTableName_def string_eval)

lemma exponentStore_mapped: "mappedRows detailRegistry exponentStore ''snj_jan.csv'' = exponentStore"
  by (simp add: mappedRows_def exponentStore_table detail_passes)

lemma exponentStore_window:
  "findWindow ''SNJ_SRP_DETAIL'' exponentStore =
     \<lparr>minDate = Some ''2025-01-05'', maxDate = Some ''2025-01-05'', stores = [''1e5'']\<rparr>"
  by (simp add: window_eval exponentStore_def parseDate_iso parseDate_texts)

lemma exponentStore_statements:
  "map (buildInsert plainRuntime detailRegistry ''SNJ_SRP_DETAIL'' (columnTypesOf detailColumns))
     exponentStore =
   map Statement
     [\<lparr>ins_table = ''SNJ_SRP_DETAIL'', ins_columns = [''SALES_DATE'', ''ORG_CODE_NAME''],
       ins_params = [PDate (Some ''2025-01-05''), PText ''100000'']\<rparr>]"
  by (simp add: exponentStore_def bind_eval detailRegistry_def detailSchema_def detailColumns_def
        plainRuntime_def parseDate_iso parseDate_texts isNaN_def is_digit_def)

lemma exponentStore_second_start:
  "txRows (loadStart acceptingDriver detailRegistry
      [[(''SALES_DATE'', PDate (Some ''2025-01-05'')), (''ORG_CODE_NAME'', PText ''100000'')]]
      exponentStore ''snj_jan.csv'') =
   [[(''SALES_DATE'', PDate (Some ''2025-01-05'')), (''ORG_CODE_NAME'', PText ''100000'')]]"
  by (simp add: loadStart_def exponentStore_table exponentStore_mapped exponentStore_window delete_eval)

lemma exponentStore_reload:
  "result (uploadToDatabase plainRuntime acceptingDriver detailRegistry detailColumns
      []
      exponentStore ''snj_jan.csv'') =
     Inr \<lparr>success = True, successCount = 1, errorCount = 0,
          dateRange = ''2025-01-05 to 2025-01-05'', storeList = [''1e5'']\<rparr> \<and>
   tableRows (uploadToDatabase plainRuntime acceptingDriver detailRegistry detailColumns
      []
      exponentStore ''snj_jan.csv'') =
     [[(''SALES_DATE'', PDate (Some ''2025-01-05'')), (''ORG_CODE_NAME'', PText ''100000'')]] \<and>
   result (uploadToDatabase plainRuntime acceptingDriver detailRegistry detailColumns
      [[(''SALES_DATE'', PDate (Some ''2025-01-05'')), (''ORG_CODE_NAME'', PText ''100000'')]]
      exponentStore ''snj_jan.csv'') =
     Inr \<lparr>success = True, successCount = 1, errorCount = 0,
          dateRange = ''2025-01-05 to 2025-01-05'', storeList = [''1e5'']\<rparr> \<and>
   tableRows (uploadToDatabase plainRuntime acceptingDriver detailRegistry detailColumns
      [[(''SALES_DATE'', PDate (Some ''2025-01-05'')), (''ORG_CODE_NAME'', PText ''100000'')]]
      exponentStore ''snj_jan.csv'') =
     [[(''SALES_DATE'', PDate (Some ''2025-01-05'')), (''ORG_CODE_NAME'', PText ''100000'')],
      [(''SALES_DATE'', PDate (Some ''2025-01-05'')), (''ORG_CODE_NAME'', PText ''100000'')]]"
proof -
  have r: "detailRegistry (detectTableName ''snj_jan.csv'' exponentStore) \<noteq> None"
    "mapAll detailRegistry (detectTableName ''snj_jan.csv'' exponentStore) exponentStore = Inr exponentStore"
    by (simp_all add: exponentStore_table detail_schema detail_passes)
  note s = exponentStore_statements [folded exponentStore_table]
  have len: "length exponentStore = 1" by (simp add: exponentStore_def)
  note a1 = accepted_load [OF r s, of "[]"]
  note a2 = accepted_load [OF r s,
      of "[[(''SALES_DATE'', PDate (Some ''2025-01-05'')), (''ORG_CODE_NAME'', PText ''100000'')]]"]
  from a1 a2 show ?thesis
    by (simp add: loadStart_empty_table exponentStore_second_start len exponentStore_table
          exponentStore_window showDate_def storedRow_def)
qed

text \<open>
  Claim C1 as stated fails. In each of the four batches every record carries a date in
  the date column of its table and every insert of both loads goes through, yet the
  second load leaves more rows than the first. (a) One of two records has no store
  value: the \<^verbatim>\<open>DELETE\<close> is restricted to the stores of the batch and the row with a
  \<^verbatim>\<open>NULL\<close> store stays. (b) The dates are \<^verbatim>\<open>1/5/2025\<close> and \<^verbatim>\<open>12/25/2024\<close>: the window is
  built by comparing texts, its lower bound is the later date, and the \<^verbatim>\<open>DELETE\<close>
  matches no row. (c) A record of \<^verbatim>\<open>SALES_INVOICE_ACCURATE_ONLINE\<close> carries
  \<^verbatim>\<open>SALES_DATE\<close> besides \<^verbatim>\<open>Tanggal\<close>: the window is read from \<^verbatim>\<open>SALES_DATE\<close>, the
  \<^verbatim>\<open>DELETE\<close> compares \<^verbatim>\<open>Tanggal\<close>. (d) The store value \<^verbatim>\<open>1e5\<close> is bound as \<^verbatim>\<open>100000\<close>
  while the \<^verbatim>\<open>DELETE\<close> looks for \<^verbatim>\<open>1e5\<close>.
\<close>

theorem reload_leaves_more_rows_counterexample:
  "(result (uploadToDatabase plainRuntime acceptingDriver detailRegistry detailColumns []
             mixedStores ''snj_jan.csv'') =
     Inr \<lparr>success = True, successCount = 2, errorCount = 0,
          dateRange = ''2025-01-05 to 2025-01-05'', storeList = [''S1'']\<rparr> \<and>
   tableRows (uploadToDatabase plainRuntime acceptingDriver detailRegistry detailColumns []
                mixedStores ''snj_jan.csv'') =
     [[(''SALES_DATE'', PDate (Some ''2025-01-05'')), (''ORG_CODE_NAME'', PText ''S1'')],
      [(''SALES_DATE'', PDate (Some ''2025-01-05'')), (''ORG_CODE_NAME'', PNull)]] \<and>
   result (uploadToDatabase plainRuntime acceptingDriver detailRegistry detailColumns
             [[(''SALES_DATE'', PDate (Some ''2025-01-05'')), (''ORG_CODE_NAME'', PText ''S1'')],
              [(''SALES_DATE'', PDate (Some ''2025-01-05'')), (''ORG_CODE_NAME'', PNull)]]
             mixedStores ''snj_jan.csv'') =
     Inr \<lparr>success = True, successCount = 2, errorCount = 0,
          dateRange = ''2025-01-05 to 2025-01-05'', storeList = [''S1'']\<rparr> \<and>
   tableRows (uploadToDatabase plainRuntime acceptingDriver detailRegistry detailColumns
                [[(''SALES_DATE'', PDate (Some ''2025-01-05'')), (''ORG_CODE_NAME'', PText ''S1'')],
                 [(''SALES_DATE'', PDate (Some ''2025-01-05'')), (''ORG_CODE_NAME'', PNull)]]
                mixedStores ''snj_jan.csv'') =
     [[(''SALES_DATE'', PDate (Some ''2025-01-05'')), (''ORG_CODE_NAME'', PNull)],
      [(''SALES_DATE'', PDate (Some ''2025-01-05'')), (''ORG_CODE_NAME'', PText ''S1'')],
      [(''SALES_DATE'', PDate (Some ''2025-01-05'')), (''ORG_CODE_NAME'', PNull)]]) \<and>
   (result (uploadToDatabase plainRuntime acceptingDriver detailRegistry detailColumns
      []
      slashDates ''snj_jan.csv'') =
     Inr \<lparr>success = True, successCount = 2, errorCount = 0,
          dateRange = ''1/5/2025 to 12/25/2024'', storeList = []\<rparr> \<and>
   tableRows (uploadToDatabase plainRuntime acceptingDriver detailRegistry detailColumns
      []
      slashDates ''snj_jan.csv'') =
     [[(''SALES_DATE'', PDate (Some ''1/5/2025''))],
      [(''SALES_DATE'', PDate (Some ''12/25/2024''))]] \<and>
   result (uploadToDatabase plainRuntime acceptingDriver detailRegistry detailColumns
      [[(''SALES_DATE'', PDate (Some ''1/5/2025''))],
      [(''SALES_DATE'', PDate (Some ''12/25/2024''))]]
      slashDates ''snj_jan.csv'') =
     Inr \<lparr>success = True, successCount = 2, errorCount = 0,
          dateRange = ''1/5/2025 to 12/25/2024'', storeList = []\<rparr> \<and>
   tableRows (uploadToDatabase plainRuntime acceptingDriver detailRegistry detailColumns
      [[(''SALES_DATE'', PDate (Some ''1/5/2025''))],
      [(''SALES_DATE'', PDate (Some ''12/25/2024''))]]
      slashDates ''snj_jan.csv'') =
     [[(''SALES_DATE'', PDate (Some ''1/5/2025''))],
      [(''SALES_DATE'', PDate (Some ''12/25/2024''))],
      [(''SALES_DATE'', PDate (Some ''1/5/2025''))],
      [(''SALES_DATE'', PDate (Some ''12/25/2024''))]]) \<and>
   (result (uploadToDatabase plainRuntime acceptingDriver bothRegistry invoiceColumns
      []
      twoDateColumns ''accurate_jan.csv'') =
     Inr \<lparr>success = True, successCount = 1, errorCount = 0,
          dateRange = ''2024-01-01 to 2024-01-01'', storeList = []\<rparr> \<and>
   tableRows (uploadToDatabase plainRuntime acceptingDriver bothRegistry invoiceColumns
      []
      twoDateColumns ''accurate_jan.csv'') =
     [[(''Tanggal'', PDate (Some ''2025-01-05'')), (''SALES_DATE'', PDate (Some ''2024-01-01''))]] \<and>
   result (uploadToDatabase plainRuntime acceptingDriver bothRegistry invoiceColumns
      [[(''Tanggal'', PDate (Some ''2025-01-05'')), (''SALES_DATE'', PDate (Some ''2024-01-01''))]]
      twoDateColumns ''accurate_jan.csv'') =
     Inr \<lparr>success = True, successCount = 1, errorCount = 0,
          dateRange = ''2024-01-01 to 2024-01-01'', storeList = []\<rparr> \<and>
   tableRows (uploadToDatabase plainRuntime acceptingDriver bothRegistry invoiceColumns
      [[(''Tanggal'', PDate (Some ''2025-01-05'')), (''SALES_DATE'', PDate (Some ''2024-01-01''))]]
      twoDateColumns ''accurate_jan.csv'') =
     [[(''Tanggal'', PDate (Some ''2025-01-05'')), (''SALES_DATE'', PDate (Some ''2024-01-01''))],
      [(''Tanggal'', PDate (Some ''2025-01-05'')), (''SALES_DATE'', PDate (Some ''2024-01-01''))]]) \<and>
   (result (uploadToDatabase plainRuntime acceptingDriver detailRegistry detailColumns
      []
      exponentStore ''snj_jan.csv'') =
     Inr \<lparr>success = True, successCount = 1, errorCount = 0,
          dateRange = ''2025-01-05 to 2025-01-05'', storeList = [''1e5'']\<rparr> \<and>
   tableRows (uploadToDatabase plainRuntime acceptingDriver detailRegistry detailColumns
      []
      exponentStore ''snj_jan.csv'') =
     [[(''SALES_DATE'', PDate (Some ''2025-01-05'')), (''ORG_CODE_NAME'', PText ''100000'')]] \<and>
   result (uploadToDatabase plainRuntime acceptingDriver detailRegistry detailColumns
      [[(''SALES_DATE'', PDate (Some ''2025-01-05'')), (''ORG_CODE_NAME'', PText ''100000'')]]
      exponentStore ''snj_jan.csv'') =
     Inr \<lparr>success = True, successCount = 1, errorCount = 0,
          dateRange = ''2025-01-05 to 2025-01-05'', storeList = [''1e5'']\<rparr> \<and>
   tableRows (uploadToDatabase plainRuntime acceptingDriver detailRegistry detailColumns
      [[(''SALES_DATE'', PDate (Some ''2025-01-05'')), (''ORG_CODE_NAME'', PText ''100000'')]]
      exponentStore ''snj_jan.csv'') =
     [[(''SALES_DATE'', PDate (Some ''2025-01-05'')), (''ORG_CODE_NAME'', PText ''100000'')],
      [(''SALES_DATE'', PDate (Some ''2025-01-05'')), (''ORG_CODE_NAME'', PText ''100000'')]])"
  by (rule conjI [OF mixedStores_reload conjI [OF slashDates_reload
        conjI [OF twoDateColumns_reload exponentStore_reload]]])

lemma twoStores_table: "detectTableName ''snj_jan.csv'' twoStores = ''SNJ_SRP_DETAIL''"
  by (simp add: detectTableName_def string_eval)

lemma twoStores_statements:
  "map (buildInsert plainRuntime detailRegistry ''SNJ_SRP_DETAIL'' (columnTypesOf detailColumns))
     twoStores =
   map Statement
     [\<lparr>ins_table = ''SNJ_SRP_DETAIL'', ins_columns = [''SALES_DATE'', ''ORG_CODE_NAME''],
       ins_params = [PDate (Some ''2025-01-05''), PText ''S1'']\<rparr>,
      \<lparr>ins_table = ''SNJ_SRP_DETAIL'', ins_columns = [''SALES_DATE'', ''ORG_CODE_NAME''],
       ins_params = [PDate (Some ''2025-02-01''), PText ''S2'']\<rparr>]"
  by (simp add: twoStores_def bind_eval detailRegistry_def detailSchema_def detailColumns_def
        plainRuntime_def parseDate_5_jan parseDate_texts)

lemma twoStores_dates:
  "rowDate [(''SALES_DATE'', JStr ''5 Jan 2025''), (''ORG_CODE_NAME'', JStr ''S1'')] = Some ''2025-01-05''"
  "rowDate [(''SALES_DATE'', JStr ''2025-02-01''), (''ORG_CODE_NAME'', JStr ''S2'')] = Some ''2025-02-01''"
  by (simp_all add: rowDate_def js_or_def getProp_def truthy_def parseDate_5_jan parseDate_texts)

text \<open>
  The amended C1 at two bills of two stores and two dates, one written with a month
  name.
\<close>

theorem reload_replaces_own_rows_witness:
  "length (tableRows (uploadToDatabase plainRuntime acceptingDriver detailRegistry detailColumns []
                        twoStores ''snj_jan.csv'')) = 2 \<and>
   tableRows (uploadToDatabase plainRuntime acceptingDriver detailRegistry detailColumns
                (tableRows (uploadToDatabase plainRuntime acceptingDriver detailRegistry
                              detailColumns [] twoStores ''snj_jan.csv''))
                twoStores ''snj_jan.csv'') =
     tableRows (uploadToDatabase plainRuntime acceptingDriver detailRegistry detailColumns []
                  twoStores ''snj_jan.csv'') \<and>
   length (tableRows (uploadToDatabase plainRuntime acceptingDriver detailRegistry detailColumns
                        (tableRows (uploadToDatabase plainRuntime acceptingDriver detailRegistry
                                      detailColumns [] twoStores ''snj_jan.csv''))
                        twoStores ''snj_jan.csv'')) = 2"
proof -
  let ?qs = "[\<lparr>ins_table = ''SNJ_SRP_DETAIL'', ins_columns = [''SALES_DATE'', ''ORG_CODE_NAME''],
               ins_params = [PDate (Some ''2025-01-05''), PText ''S1'']\<rparr>,
              \<lparr>ins_table = ''SNJ_SRP_DETAIL'', ins_columns = [''SALES_DATE'', ''ORG_CODE_NAME''],
               ins_params = [PDate (Some ''2025-02-01''), PText ''S2'']\<rparr>]"
  have r: "detailRegistry (detectTableName ''snj_jan.csv'' twoStores) \<noteq> None"
    "mapAll detailRegistry (detectTableName ''snj_jan.csv'' twoStores) twoStores = Inr twoStores"
    by (simp_all add: twoStores_table detail_schema detail_passes)
  have s: "map (buildInsert plainRuntime detailRegistry (detectTableName ''snj_jan.csv'' twoStores)
                  (columnTypesOf detailColumns)) twoStores = map Statement ?qs"
    unfolding twoStores_table by (rule twoStores_statements)
  have v: "storeVerdicts acceptingDriver [] ?qs = replicate (length ?qs) None"
    by (rule accepting_verdicts)
  have hd: "list_all2 (\<lambda>row q. windowDate acceptingDriver row \<noteq> None \<and>
                            storedDateOf acceptingDriver (detectTableName ''snj_jan.csv'' twoStores) q =
                              windowDate acceptingDriver row) twoStores ?qs"
    unfolding twoStores_table
    by (simp add: twoStores_def windowDate_def twoStores_dates storedDateOf_def storedRow_def
          dateColumnOf_def storedDate_def accepting_dates dayNumber_eval)
  have ho: "\<forall>a \<in> set twoStores. \<forall>b \<in> set twoStores. \<forall>da db xa xb.
           rowDate a = Some da \<and> rowDate b = Some db \<and> da \<le> db \<and>
           readDate acceptingDriver da = Some xa \<and> readDate acceptingDriver db = Some xb \<longrightarrow> xa \<le> xb"
    by (auto simp: twoStores_def twoStores_dates accepting_dates dayNumber_eval
          less_char_def less_eq_char_def)
  have hs: "(\<forall>row \<in> set twoStores.
              \<not> truthy (getProp row (storeColumnOf (detectTableName ''snj_jan.csv'' twoStores)))) \<or>
         list_all2 (\<lambda>row q. truthy (getProp row (storeColumnOf (detectTableName ''snj_jan.csv'' twoStores))) \<and>
                             map_of (storedRow q) (storeColumnOf (detectTableName ''snj_jan.csv'' twoStores)) =
                               Some (PText (toText (getProp row
                                 (storeColumnOf (detectTableName ''snj_jan.csv'' twoStores))))))
           twoStores ?qs"
    unfolding twoStores_table
    by (simp add: twoStores_def storeColumnOf_def getProp_def truthy_def toText_def storedRow_def)
  have len: "length twoStores = 2" by (simp add: twoStores_def)
  from reload_replaces_own_rows [where drv = acceptingDriver and reg = detailRegistry
      and f = "''snj_jan.csv''" and data = twoStores and mapped = twoStores and rt = plainRuntime
      and live = detailColumns and qs = ?qs, OF accepting_healthy r s v hd ho hs] len
  show ?thesis by simp
qed

end
